theory Spec2Isabelle
  imports Main "HOL-Library.Monad_Syntax" "HOL-Library.AList" "HOL-Library.Word"
begin

section \<open>The JsonCpp values the converter works on\<close>

text \<open>
  \<^verbatim>\<open>convert2anim.cc\<close> keeps its configuration in a \<^verbatim>\<open>Json::Value\<close> tree. The
  operations of \<^verbatim>\<open>Json::Value\<close> it calls are modelled here as JsonCpp 1.x defines them:
  an operation that JsonCpp guards with \<^verbatim>\<open>JSON_ASSERT_MESSAGE\<close> (a
  \<^verbatim>\<open>Json::LogicError\<close>, which nothing in the converter catches) returns \<open>None\<close>.
  An object is an association list read with \<open>map_of\<close> and written with
  \<open>AList.update\<close>; an array is a list. Floating-point numbers are the values of a
  type parameter \<open>'f\<close>: no claim depends on their arithmetic.
\<close>

datatype ValueType =
  nullValue | intValue | uintValue | realValue | stringValue | booleanValue
  | arrayValue | objectValue

datatype CommentPlacement = commentBefore | commentAfterOnSameLine | commentAfter

datatype ('f, 'v) Payload =
  NullV | IntV int | UIntV nat | RealV 'f | StringV string | BoolV bool
  | ArrayV "'v list" | ObjectV "(string \<times> 'v) list"

datatype 'f Value =
  Value (payload: "('f, 'f Value) Payload") (comments_of: "(CommentPlacement \<times> string) list")

definition nullSingleton :: "'f Value" where
  "nullSingleton = Value NullV []"

definition Value_type :: "'f Value \<Rightarrow> ValueType" where
  "Value_type v =
     (case payload v of
        NullV \<Rightarrow> nullValue | IntV _ \<Rightarrow> intValue | UIntV _ \<Rightarrow> uintValue
      | RealV _ \<Rightarrow> realValue | StringV _ \<Rightarrow> stringValue | BoolV _ \<Rightarrow> booleanValue
      | ArrayV _ \<Rightarrow> arrayValue | ObjectV _ \<Rightarrow> objectValue)"

definition isArray :: "'f Value \<Rightarrow> bool" where
  "isArray v = (Value_type v = arrayValue)"

definition isObject :: "'f Value \<Rightarrow> bool" where
  "isObject v = (Value_type v = objectValue)"

text \<open>
  \<^verbatim>\<open>Value::find(begin, end)\<close>: requires a null or an object; the inner \<open>None\<close> is the
  null pointer it returns for a missing member.
\<close>

definition Value_find :: "'f Value \<Rightarrow> string \<Rightarrow> 'f Value option option" where
  "Value_find v key =
     (case payload v of
        NullV \<Rightarrow> Some None
      | ObjectV ms \<Rightarrow> Some (map_of ms key)
      | _ \<Rightarrow> None)"

text \<open>
  The non-const \<^verbatim>\<open>operator[](const char*)\<close>: a null becomes an empty object first
  (by assignment of a fresh value, which also replaces the comments), and a missing
  member is inserted as null. The result is the parent as it is afterwards and the
  member the returned reference designates.
\<close>

definition Value_member :: "'f Value \<Rightarrow> string \<Rightarrow> ('f Value \<times> 'f Value) option" where
  "Value_member v key =
     (case payload v of
        NullV \<Rightarrow> Some (Value (ObjectV [(key, nullSingleton)]) [], nullSingleton)
      | ObjectV ms \<Rightarrow>
          (case map_of ms key of
             Some m \<Rightarrow> Some (v, m)
           | None \<Rightarrow> Some (Value (ObjectV (ms @ [(key, nullSingleton)])) (comments_of v),
                            nullSingleton))
      | _ \<Rightarrow> None)"

text \<open>
  The non-const \<^verbatim>\<open>operator[](int)\<close> at index 0, the only index the converter uses:
  a null becomes an array first, and a missing element 0 is inserted as null.
\<close>

definition Value_index0 :: "'f Value \<Rightarrow> ('f Value \<times> 'f Value) option" where
  "Value_index0 v =
     (case payload v of
        NullV \<Rightarrow> Some (Value (ArrayV [nullSingleton]) [], nullSingleton)
      | ArrayV [] \<Rightarrow> Some (Value (ArrayV [nullSingleton]) (comments_of v), nullSingleton)
      | ArrayV (e # es) \<Rightarrow> Some (v, e)
      | _ \<Rightarrow> None)"

text \<open>
  A \<^verbatim>\<open>Json::Value&\<close> obtained from \<^verbatim>\<open>operator[]\<close> aliases a part of the tree.
  What the code writes through such a reference is stored back into the parent with
  the two functions below.
\<close>

definition store_member :: "'f Value \<Rightarrow> string \<Rightarrow> 'f Value \<Rightarrow> 'f Value" where
  "store_member v key m =
     (case payload v of
        ObjectV ms \<Rightarrow> Value (ObjectV (AList.update key m ms)) (comments_of v)
      | _ \<Rightarrow> v)"

definition store_index0 :: "'f Value \<Rightarrow> 'f Value \<Rightarrow> 'f Value" where
  "store_index0 v e =
     (case payload v of
        ArrayV es \<Rightarrow> Value (ArrayV (es[0 := e])) (comments_of v)
      | _ \<Rightarrow> v)"

definition Value_size :: "'f Value \<Rightarrow> nat" where
  "Value_size v =
     (case payload v of
        ArrayV es \<Rightarrow> length es
      | ObjectV ms \<Rightarrow> length ms
      | _ \<Rightarrow> 0)"

text \<open>
  \<^verbatim>\<open>Value::resize\<close>: requires a null or an array; a null becomes an array first.
  Growing fills with nulls, shrinking drops the tail.
\<close>

definition Value_resize :: "'f Value \<Rightarrow> nat \<Rightarrow> 'f Value option" where
  "Value_resize v n =
     (case payload v of
        NullV \<Rightarrow> Some (Value (ArrayV (replicate n nullSingleton)) [])
      | ArrayV es \<Rightarrow>
          Some (Value (ArrayV (take n es @ replicate (n - length es) nullSingleton))
                  (comments_of v))
      | _ \<Rightarrow> None)"

definition setComment :: "'f Value \<Rightarrow> string \<Rightarrow> CommentPlacement \<Rightarrow> 'f Value" where
  "setComment v c p = Value (payload v) (AList.update p c (comments_of v))"

text \<open>
  The const \<^verbatim>\<open>operator[](const char*)\<close> that \<^verbatim>\<open>Export\<close> uses on its
  \<^verbatim>\<open>const Json::Value&\<close>: a missing member reads as null, nothing is inserted.
\<close>

definition Value_get :: "'f Value \<Rightarrow> string \<Rightarrow> 'f Value option" where
  "Value_get v key =
     (case Value_find v key of
        None \<Rightarrow> None
      | Some None \<Rightarrow> Some nullSingleton
      | Some (Some m) \<Rightarrow> Some m)"

text \<open>
  The conversions. \<open>to_float\<close> is the conversion of an integer to a floating-point
  number, a parameter like the floating-point type itself.
\<close>

definition asBool :: "(int \<Rightarrow> 'f) \<Rightarrow> 'f Value \<Rightarrow> bool option" where
  "asBool to_float v =
     (case payload v of
        BoolV b \<Rightarrow> Some b
      | NullV \<Rightarrow> Some False
      | IntV i \<Rightarrow> Some (i \<noteq> 0)
      | UIntV n \<Rightarrow> Some (n \<noteq> 0)
      | RealV x \<Rightarrow> Some (x \<noteq> to_float 0)
      | _ \<Rightarrow> None)"

definition asFloat :: "(int \<Rightarrow> 'f) \<Rightarrow> 'f Value \<Rightarrow> 'f option" where
  "asFloat to_float v =
     (case payload v of
        IntV i \<Rightarrow> Some (to_float i)
      | UIntV n \<Rightarrow> Some (to_float (int n))
      | RealV x \<Rightarrow> Some x
      | NullV \<Rightarrow> Some (to_float 0)
      | BoolV b \<Rightarrow> Some (to_float (if b then 1 else 0))
      | _ \<Rightarrow> None)"

definition asCString :: "'f Value \<Rightarrow> string option" where
  "asCString v = (case payload v of StringV s \<Rightarrow> Some s | _ \<Rightarrow> None)"

text \<open>A C string ends at its first NUL character.\<close>

definition c_str :: "string \<Rightarrow> string" where
  "c_str s = takeWhile (\<lambda>c. c \<noteq> CHR 0x00) s"

section \<open>The log\<close>

text \<open>
  \<^verbatim>\<open>ozz::log::Log()\<close> and \<^verbatim>\<open>ozz::log::Err()\<close> are streams; one entry of the log is
  what one statement sends to a stream up to its \<^verbatim>\<open>std::endl\<close>, as the list of the
  items streamed.
\<close>

datatype Channel = Log | Err

datatype 'f LogItem = Str string | Num nat | Flt 'f

type_synonym 'f LogEntry = "Channel \<times> 'f LogItem list"

section \<open>Sanitizing the configuration\<close>

definition MakeDefaultArray ::
  "'f Value \<Rightarrow> string \<Rightarrow> string \<Rightarrow> (bool \<times> 'f Value) option" where
  "MakeDefaultArray parent name comment =
     do {
       found \<leftarrow> Value_find parent name;
       case found of
         None \<Rightarrow>
           do {
             (parent1, member) \<leftarrow> Value_member parent name;
             member1 \<leftarrow> Value_resize member 1;
             let member2 = (if comment \<noteq> []
                            then setComment member1 (''//  '' @ comment) commentBefore
                            else member1);
             Some (True, store_member parent1 name member2)
           }
       | Some f \<Rightarrow> if \<not> isArray f then Some (False, parent) else Some (True, parent)
     }"

definition MakeDefaultObject ::
  "'f Value \<Rightarrow> string \<Rightarrow> string \<Rightarrow> (bool \<times> 'f Value) option" where
  "MakeDefaultObject parent name comment =
     do {
       found \<leftarrow> Value_find parent name;
       case found of
         None \<Rightarrow>
           do {
             (parent1, member) \<leftarrow> Value_member parent name;
             let member1 = (if comment \<noteq> []
                            then setComment member (''//  '' @ comment) commentBefore
                            else member);
             Some (True, store_member parent1 name member1)
           }
       | Some f \<Rightarrow> if \<not> isObject f then Some (False, parent) else Some (True, parent)
     }"

text \<open>
  The template parameter \<^verbatim>\<open>_Type\<close> of \<^verbatim>\<open>MakeDefault\<close>, with the default value it
  carries: it fixes both \<^verbatim>\<open>ToJsonType<_Type>::kType\<close> and the \<^verbatim>\<open>Json::Value\<close>
  that \<^verbatim>\<open>member = _value\<close> constructs.
\<close>

datatype 'f Default =
  DInt int | DUInt nat | DFloat 'f | DString string | DBool bool

fun ToJsonType :: "'f Default \<Rightarrow> ValueType" where
  "ToJsonType (DInt _) = intValue"
| "ToJsonType (DUInt _) = uintValue"
| "ToJsonType (DFloat _) = realValue"
| "ToJsonType (DString _) = stringValue"
| "ToJsonType (DBool _) = booleanValue"

fun Value_of :: "'f Default \<Rightarrow> 'f Value" where
  "Value_of (DInt i) = Value (IntV i) []"
| "Value_of (DUInt n) = Value (UIntV n) []"
| "Value_of (DFloat x) = Value (RealV x) []"
| "Value_of (DString s) = Value (StringV s) []"
| "Value_of (DBool b) = Value (BoolV b) []"

fun JsonTypeToString :: "ValueType \<Rightarrow> string" where
  "JsonTypeToString nullValue = ''null''"
| "JsonTypeToString intValue = ''integer''"
| "JsonTypeToString uintValue = ''unsigned integer''"
| "JsonTypeToString realValue = ''float''"
| "JsonTypeToString stringValue = ''UTF-8 string''"
| "JsonTypeToString booleanValue = ''boolean''"
| "JsonTypeToString arrayValue = ''array''"
| "JsonTypeToString objectValue = ''object''"

definition MakeDefault ::
  "'f Value \<Rightarrow> string \<Rightarrow> 'f Default \<Rightarrow> string \<Rightarrow> (bool \<times> 'f Value \<times> 'f LogEntry list) option"
  where
  "MakeDefault parent name dflt comment =
     do {
       found \<leftarrow> Value_find parent name;
       case found of
         None \<Rightarrow>
           do {
             (parent1, member) \<leftarrow> Value_member parent name;
             let member1 = Value_of dflt;
             let member2 = (if comment \<noteq> []
                            then setComment member1 (''//  '' @ comment) commentAfterOnSameLine
                            else member1);
             Some (True, store_member parent1 name member2, [])
           }
       | Some f \<Rightarrow>
           if Value_type f \<noteq> ToJsonType dflt
           then Some (False, parent,
                  [(Err, [Str (''Invalid type '' @ [CHR 0x22]),
                          Str (JsonTypeToString (Value_type f)),
                          Str ([CHR 0x22] @ '' for json member '' @ [CHR 0x22]), Str name,
                          Str ([CHR 0x22] @ ''. '' @ [CHR 0x22]),
                          Str (JsonTypeToString (ToJsonType dflt)),
                          Str ([CHR 0x22] @ '' expected.'')])])
           else Some (True, parent, [])
     }"

text \<open>
  The default tolerances are the fields of a default-constructed
  \<^verbatim>\<open>AnimationOptimizer\<close>, whose declaration is outside this file: they are a
  parameter here.
\<close>

record 'f AnimationOptimizer =
  translation_tolerance :: 'f
  rotation_tolerance :: 'f
  scale_tolerance :: 'f
  hierarchical_tolerance :: 'f

text \<open>The comments the sanitizer attaches to the members it inserts.\<close>

definition comment_animations :: string where
  "comment_animations = ''Animations to extract.''"

definition comment_tolerances :: string where
  "comment_tolerances = ''Optimization tolerances.''"

definition comment_translation :: string where
  "comment_translation =
     ''Translation optimization tolerance, defined as the distance between '' @
     ''two translation values in meters.''"

definition comment_rotation :: string where
  "comment_rotation =
     ''Rotation optimization tolerance, ie: the angle between two rotation '' @
     ''values in radian.''"

definition comment_scale :: string where
  "comment_scale =
     ''Scale optimization tolerance, ie: the norm of the '' @
     ''difference of two scales.''"

definition comment_hierarchical :: string where
  "comment_hierarchical =
     ''Hierarchical translation optimization tolerance, ie: the maximum '' @
     ''error '' @
     ''(distance) that an optimization on a joint is allowed to generate on '' @
     ''its whole child hierarchy.''"

definition comment_output :: string where
  "comment_output =
     ''Specifies ozz animation output file(s). When '' @
     ''importing multiple animations, use a '' @ [CHR 0x27] @ ''*'' @ [CHR 0x27] @
     '' character '' @
     ''to specify part(s) of the filename that should be '' @
     ''replaced by the animation name.''"

definition comment_optimize :: string where
  "comment_optimize = ''Activates keyframes optimization.''"

definition comment_raw :: string where
  "comment_raw = ''Outputs raw animation.''"

definition comment_additive :: string where
  "comment_additive = ''Creates a delta animation that can be used for additive blending.''"

definition SanitizeOptimizationTolerances ::
  "'f AnimationOptimizer \<Rightarrow> 'f Value \<Rightarrow> (bool \<times> 'f Value \<times> 'f LogEntry list) option" where
  "SanitizeOptimizationTolerances opt root =
     do {
       (s0, root1) \<leftarrow> MakeDefaultObject root ''optimization_tolerances'' comment_tolerances;
       (root2, tolerances) \<leftarrow> Value_member root1 ''optimization_tolerances'';
       (s1, tolerances1, l1) \<leftarrow> MakeDefault tolerances ''translation''
           (DFloat (translation_tolerance opt)) comment_translation;
       (s2, tolerances2, l2) \<leftarrow> MakeDefault tolerances1 ''rotation''
           (DFloat (rotation_tolerance opt)) comment_rotation;
       (s3, tolerances3, l3) \<leftarrow> MakeDefault tolerances2 ''scale''
           (DFloat (scale_tolerance opt)) comment_scale;
       (s4, tolerances4, l4) \<leftarrow> MakeDefault tolerances3 ''hierarchical''
           (DFloat (hierarchical_tolerance opt)) comment_hierarchical;
       Some (s0 \<and> s1 \<and> s2 \<and> s3 \<and> s4,
             store_member root2 ''optimization_tolerances'' tolerances4,
             l1 @ l2 @ l3 @ l4)
     }"

definition SanitizeAnimation ::
  "'f AnimationOptimizer \<Rightarrow> 'f Value \<Rightarrow> (bool \<times> 'f Value \<times> 'f LogEntry list) option" where
  "SanitizeAnimation opt root =
     do {
       (s0, root1, l0) \<leftarrow> MakeDefault root ''output'' (DString ''*.ozz'') comment_output;
       (s1, root2, l1) \<leftarrow> MakeDefault root1 ''optimize'' (DBool True) comment_optimize;
       (s2, root3, l2) \<leftarrow> SanitizeOptimizationTolerances opt root2;
       (s3, root4, l3) \<leftarrow> MakeDefault root3 ''raw'' (DBool False) comment_raw;
       (s4, root5, l4) \<leftarrow> MakeDefault root4 ''additive'' (DBool False) comment_additive;
       Some (s0 \<and> s1 \<and> s2 \<and> s3 \<and> s4, root5, l0 @ l1 @ l2 @ l3 @ l4)
     }"

text \<open>
  The loop of \<^verbatim>\<open>Sanitize\<close>: \<open>i\<close> counts up to the size of the array, read again
  at every turn, and every turn sanitizes \<^verbatim>\<open>animations[0]\<close>.
\<close>

function Sanitize_loop ::
  "'f AnimationOptimizer \<Rightarrow> nat \<Rightarrow> bool \<Rightarrow> 'f Value \<Rightarrow> 'f LogEntry list
     \<Rightarrow> (bool \<times> 'f Value \<times> 'f LogEntry list) option" where
  "Sanitize_loop opt i success animations l =
     (if i < Value_size animations
      then (case Value_index0 animations of
              None \<Rightarrow> None
            | Some (animations1, entry) \<Rightarrow>
                (case SanitizeAnimation opt entry of
                   None \<Rightarrow> None
                 | Some (s, entry1, l1) \<Rightarrow>
                     Sanitize_loop opt (i + 1) (success \<and> s) (store_index0 animations1 entry1)
                       (l @ l1)))
      else Some (success, animations, l))"
  by pat_completeness auto
termination
proof (relation "measure (\<lambda>(opt, i, success, animations, l). Value_size animations - i)")
  show "wf (measure (\<lambda>(opt, i, success, animations, l). Value_size animations - i))"
    by simp
next
  fix opt :: "'f AnimationOptimizer" and i success and animations :: "'f Value"
    and l :: "'f LogEntry list" and x2 x y entry1 s z l1 and animations1 entry :: "'f Value"
  assume lt: "i < Value_size animations"
    and ix: "Value_index0 animations = Some x2" "(animations1, entry) = x2"
  from ix have "Value_index0 animations = Some (animations1, entry)" by simp
  with lt have "Value_size (store_index0 animations1 entry1) = Value_size animations"
    by (auto simp: Value_index0_def Value_size_def store_index0_def
             split: Payload.splits list.splits)
  with lt show "((opt, i + 1, success \<and> s, store_index0 animations1 entry1, l @ l1),
                 (opt, i, success, animations, l))
                \<in> measure (\<lambda>(opt, i, success, animations, l). Value_size animations - i)"
    by simp
qed

declare Sanitize_loop.simps [simp del]

definition Sanitize ::
  "'f AnimationOptimizer \<Rightarrow> 'f Value \<Rightarrow> (bool \<times> 'f Value \<times> 'f LogEntry list) option" where
  "Sanitize opt root =
     do {
       (s0, root1) \<leftarrow> MakeDefaultArray root ''animations'' comment_animations;
       (root2, animations) \<leftarrow> Value_member root1 ''animations'';
       (s, animations1, l) \<leftarrow> Sanitize_loop opt 0 s0 animations [];
       Some (s, store_member root2 ''animations'' animations1, l)
     }"

section \<open>Strings and options\<close>

text \<open>\<^verbatim>\<open>strcmp\<close>, up to the sign of its result: 0 exactly when the strings are equal.\<close>

fun strcmp :: "string \<Rightarrow> string \<Rightarrow> int" where
  "strcmp [] [] = 0"
| "strcmp [] (y # ys) = -1"
| "strcmp (x # xs) [] = 1"
| "strcmp (x # xs) (y # ys) =
     (if x = y then strcmp xs ys
      else if (of_char x :: nat) < of_char y then -1 else 1)"

text \<open>
  \<^verbatim>\<open>std::string::find(char)\<close> and \<^verbatim>\<open>strchr\<close>: the position of the first occurrence,
  \<open>None\<close> for \<^verbatim>\<open>npos\<close> and for the null pointer.
\<close>

fun string_find :: "string \<Rightarrow> char \<Rightarrow> nat option" where
  "string_find [] c = None"
| "string_find (x # xs) c = (if x = c then Some 0 else map_option Suc (string_find xs c))"

definition strchr :: "string \<Rightarrow> char \<Rightarrow> nat option" where
  "strchr s c = string_find s c"

text \<open>
  \<^verbatim>\<open>std::string::replace(pos, len, str)\<close>: throws \<^verbatim>\<open>std::out_of_range\<close> when
  \<open>pos\<close> is beyond the size.
\<close>

definition string_replace :: "string \<Rightarrow> nat \<Rightarrow> nat \<Rightarrow> string \<Rightarrow> string option" where
  "string_replace s pos len str =
     (if pos > length s then None else Some (take pos s @ str @ drop (pos + len) s))"

definition ValidateEndianness :: "string \<Rightarrow> bool \<times> 'f LogEntry list" where
  "ValidateEndianness option_value =
     (let valid = (strcmp option_value ''native'' = 0 \<or>
                   strcmp option_value ''little'' = 0 \<or>
                   strcmp option_value ''big'' = 0)
      in (valid, if \<not> valid then [(Err, [Str ''Invalid endianess option.''])] else []))"

definition ValidateLogLevel :: "string \<Rightarrow> bool \<times> 'f LogEntry list" where
  "ValidateLogLevel option_value =
     (let valid = (strcmp option_value ''verbose'' = 0 \<or>
                   strcmp option_value ''standard'' = 0 \<or>
                   strcmp option_value ''silent'' = 0)
      in (valid, if \<not> valid then [(Err, [Str ''Invalid log level option.''])] else []))"

section \<open>File names\<close>

definition OutputSingleAnimation :: "string \<Rightarrow> bool" where
  "OutputSingleAnimation output = (strchr output (CHR ''*'') = None)"

text \<open>
  The loop of \<^verbatim>\<open>BuildFilename\<close> searches the whole of \<open>output\<close> again after every
  replacement. It need not end, so it is a partial function: \<open>None\<close> is the run that
  never returns a file name.
\<close>

partial_function (option) BuildFilename_loop :: "string \<Rightarrow> string \<Rightarrow> string option" where
  "BuildFilename_loop output animation =
     (case string_find output (CHR ''*'') of
        None \<Rightarrow> Some output
      | Some asterisk \<Rightarrow>
          (case string_replace output asterisk 1 animation of
             None \<Rightarrow> None
           | Some output1 \<Rightarrow> BuildFilename_loop output1 animation))"

declare BuildFilename_loop.simps [code]

definition BuildFilename :: "string \<Rightarrow> string \<Rightarrow> string option" where
  "BuildFilename filename animation = BuildFilename_loop filename animation"

section \<open>Animations and the optimization statistics\<close>

type_synonym 'f Float3 = "'f \<times> 'f \<times> 'f"
type_synonym 'f Quaternion = "'f \<times> 'f \<times> 'f \<times> 'f"

text \<open>A key is its time and its value.\<close>

type_synonym 'f TranslationKey = "'f \<times> 'f Float3"
type_synonym 'f RotationKey = "'f \<times> 'f Quaternion"
type_synonym 'f ScaleKey = "'f \<times> 'f Float3"

record 'f JointTrack =
  track_translations :: "'f TranslationKey list"
  track_rotations :: "'f RotationKey list"
  track_scales :: "'f ScaleKey list"

record 'f RawAnimation =
  duration :: 'f
  tracks :: "'f JointTrack list"
  name :: string

text \<open>
  Floating-point arithmetic is a parameter: the conversion of an integer, the product
  and the quotient.
\<close>

record 'f FloatOps =
  to_float :: "int \<Rightarrow> 'f"
  fmul :: "'f \<Rightarrow> 'f \<Rightarrow> 'f"
  fdiv :: "'f \<Rightarrow> 'f \<Rightarrow> 'f"

text \<open>
  The two counting loops of \<^verbatim>\<open>DisplaysOptimizationstatistics\<close>. The counters are
  \<^verbatim>\<open>size_t\<close>, 64 bits wide here, and wrap around.
\<close>

definition count_keys :: "'f JointTrack list \<Rightarrow> 64 word \<times> 64 word \<times> 64 word" where
  "count_keys ts =
     fold (\<lambda>track (t, r, s).
             (t + of_nat (length (track_translations track)),
              r + of_nat (length (track_rotations track)),
              s + of_nat (length (track_scales track))))
          ts (0, 0, 0)"

text \<open>
  The quotient of a floating-point number by a \<^verbatim>\<open>size_t\<close> count. A division by the
  count zero is the error \<open>None\<close>.
\<close>

definition divide_by_count :: "'f FloatOps \<Rightarrow> 'f \<Rightarrow> 64 word \<Rightarrow> 'f option" where
  "divide_by_count F x c =
     (if c = 0 then None else Some (fdiv F x (to_float F (uint c))))"

definition optimization_ratio :: "'f FloatOps \<Rightarrow> 64 word \<Rightarrow> 64 word \<Rightarrow> 'f option" where
  "optimization_ratio F non_opt opt =
     (if non_opt \<noteq> 0
      then divide_by_count F (fmul F (to_float F 100) (to_float F (uint (non_opt - opt))))
             non_opt
      else Some (to_float F 0))"

definition DisplaysOptimizationstatistics ::
  "'f FloatOps \<Rightarrow> 'f RawAnimation \<Rightarrow> 'f RawAnimation \<Rightarrow> 'f LogEntry list option" where
  "DisplaysOptimizationstatistics F non_optimized optimized =
     (case count_keys (tracks optimized) of
        (opt_translations, opt_rotations, opt_scales) \<Rightarrow>
     (case count_keys (tracks non_optimized) of
        (non_opt_translations, non_opt_rotations, non_opt_scales) \<Rightarrow>
       do {
         translation_ratio \<leftarrow> optimization_ratio F non_opt_translations opt_translations;
         rotation_ratio \<leftarrow> optimization_ratio F non_opt_rotations opt_rotations;
         scale_ratio \<leftarrow> optimization_ratio F non_opt_scales opt_scales;
         Some [(Log, [Str ''Optimization stage results:'']),
               (Log, [Str '' - Translations key frames optimization: '',
                      Flt translation_ratio, Str ''%'']),
               (Log, [Str '' - Rotations key frames optimization: '',
                      Flt rotation_ratio, Str ''%'']),
               (Log, [Str '' - Scaling key frames optimization: '',
                      Flt scale_ratio, Str ''%''])]
       }))"

section \<open>The world outside the converter\<close>

text \<open>
  What the converter calls and does not define is a field of the environment: the
  command-line options (C strings) and the result of \<^verbatim>\<open>ParseCommandLine\<close>, the JSON reader, the
  file system's answers, the importer and the builders. \<open>'rs\<close>, \<open>'sk\<close> and \<open>'an\<close>
  are the types of a raw skeleton, a runtime skeleton and a runtime animation.
\<close>

datatype Endianness = kBigEndian | kLittleEndian

datatype ParseResult = kExitSuccess | kExitFailure | kSuccess

datatype ExitStatus = EXIT_SUCCESS | EXIT_FAILURE

datatype Level = Silent | Standard | Verbose

text \<open>What the tag test of the input archive finds in the skeleton file.\<close>

datatype ('rs, 'sk) SkeletonArchive = RawSkeletonTag 'rs | SkeletonTag 'sk | OtherTag

record ('f, 'rs, 'sk, 'an) Env =
  OPTIONS_file :: string
  OPTIONS_skeleton :: string
  OPTIONS_config_string :: string
  OPTIONS_endian :: string
  OPTIONS_log_level :: string
  OPTIONS_sampling_rate :: 'f
  ParseCommandLine :: ParseResult
  GetNativeEndianness :: Endianness
  float_ops :: "'f FloatOps"
  default_optimizer :: "'f AnimationOptimizer"
  json_parse :: "string \<Rightarrow> string + 'f Value"
  File_Exist :: "string \<Rightarrow> bool"
  open_rb :: "string \<Rightarrow> ('rs, 'sk) SkeletonArchive option"
  SkeletonBuilder :: "'rs \<Rightarrow> 'sk option"
  Import :: "string \<Rightarrow> 'sk \<Rightarrow> 'f \<Rightarrow> 'f RawAnimation list option"
  AdditiveAnimationBuilder :: "'f RawAnimation \<Rightarrow> 'f RawAnimation option"
  AnimationOptimizer_call ::
    "'f AnimationOptimizer \<Rightarrow> 'f RawAnimation \<Rightarrow> 'sk \<Rightarrow> 'f RawAnimation option"
  AnimationBuilder :: "'f RawAnimation \<Rightarrow> 'an option"
  open_wb :: "string \<Rightarrow> bool"

text \<open>
  The state the converter changes: the output files by name, what was sent to the log
  streams (the logger, not the converter, decides by the level what a stream prints),
  and the log level. A file opened for writing is empty until the archive is
  written: its endianness, then the object streamed into it.
\<close>

datatype ('f, 'an) Archived = RawAnimationObject "'f RawAnimation" | AnimationObject 'an

datatype ('f, 'an) FileData = EmptyFile | ArchiveFile Endianness "('f, 'an) Archived"

record ('f, 'an) World =
  disk :: "string \<Rightarrow> ('f, 'an) FileData option"
  logged :: "'f LogEntry list"
  log_level :: Level

definition say :: "Channel \<Rightarrow> 'f LogItem list \<Rightarrow> ('f, 'an) World \<Rightarrow> ('f, 'an) World" where
  "say ch items w = w\<lparr>logged := logged w @ [(ch, items)]\<rparr>"

definition say_all :: "'f LogEntry list \<Rightarrow> ('f, 'an) World \<Rightarrow> ('f, 'an) World" where
  "say_all entries w = w\<lparr>logged := logged w @ entries\<rparr>"

section \<open>Importing the skeleton\<close>

definition ImportSkeleton ::
  "('f, 'rs, 'sk, 'an) Env \<Rightarrow> ('f, 'an) World \<Rightarrow> 'sk option \<times> ('f, 'an) World" where
  "ImportSkeleton E w =
     (let w1 = say Log [Str ''Opens input skeleton ozz binary file: '',
                        Str (OPTIONS_skeleton E)] w
      in case open_rb E (OPTIONS_skeleton E) of
           None \<Rightarrow>
             (None, say Err [Str (''Failed to open input skeleton ozz binary file: '' @
                                  [CHR 0x22]),
                             Str (OPTIONS_skeleton E), Str [CHR 0x22]] w1)
         | Some (RawSkeletonTag raw_skeleton) \<Rightarrow>
             (let w2 = say Log [Str ''Reading RawSkeleton from file.''] w1;
                  w3 = say Log [Str ''Builds runtime skeleton.''] w2
              in case SkeletonBuilder E raw_skeleton of
                   None \<Rightarrow> (None, say Err [Str ''Failed to build runtime skeleton.''] w3)
                 | Some skeleton \<Rightarrow> (Some skeleton, w3))
         | Some (SkeletonTag skeleton) \<Rightarrow> (Some skeleton, w1)
         | Some OtherTag \<Rightarrow>
             (None, say Err [Str ''Failed to read input skeleton from binary file: '',
                             Str (OPTIONS_skeleton E)] w1))"

section \<open>Exporting one animation\<close>

text \<open>
  \<^verbatim>\<open>Export\<close> is a sequence of blocks, each of which may return \<^verbatim>\<open>false\<close> at once.
  A block of the model ends in \<open>Return_false\<close> with the world as that return leaves it,
  or hands its result to the next block.
\<close>

datatype ('a, 'w) Block = Return_false 'w | Next 'a 'w

text \<open>The expression \<^verbatim>\<open>_config[key].asBool()\<close>.\<close>

definition config_bool :: "('f, 'rs, 'sk, 'an) Env \<Rightarrow> 'f Value \<Rightarrow> string \<Rightarrow> bool option" where
  "config_bool E config key =
     do {
       v \<leftarrow> Value_get config key;
       asBool (to_float (float_ops E)) v
     }"

text \<open>The block under ``Make delta animation if requested''.\<close>

definition Export_additive ::
  "('f, 'rs, 'sk, 'an) Env \<Rightarrow> bool \<Rightarrow> 'f RawAnimation \<Rightarrow> ('f, 'an) World
     \<Rightarrow> ('f RawAnimation, ('f, 'an) World) Block" where
  "Export_additive E additive raw_in w =
     (if additive
      then (let w1 = say Log [Str ''Makes additive animation.''] w
            in case AdditiveAnimationBuilder E raw_in of
                 None \<Rightarrow> Return_false (say Err [Str ''Failed to make additive animation.''] w1)
               | Some raw_additive \<Rightarrow> Next raw_additive w1)
      else Next raw_in w)"

text \<open>The block under ``Optimizes animation if option is enabled''.\<close>

definition Export_optimize ::
  "('f, 'rs, 'sk, 'an) Env \<Rightarrow> bool \<Rightarrow> 'f Value \<Rightarrow> 'f RawAnimation \<Rightarrow> 'sk \<Rightarrow> ('f, 'an) World
     \<Rightarrow> ('f RawAnimation, ('f, 'an) World) Block option" where
  "Export_optimize E optimize config raw_animation skeleton w =
     (if optimize
      then do {
        let w1 = say Log [Str ''Optimizing animation.''] w;
        tolerances \<leftarrow> Value_get config ''optimization_tolerances'';
        tv \<leftarrow> Value_get tolerances ''translation'';
        t \<leftarrow> asFloat (to_float (float_ops E)) tv;
        rv \<leftarrow> Value_get tolerances ''rotation'';
        r \<leftarrow> asFloat (to_float (float_ops E)) rv;
        sv \<leftarrow> Value_get tolerances ''scale'';
        s \<leftarrow> asFloat (to_float (float_ops E)) sv;
        hv \<leftarrow> Value_get tolerances ''hierarchical'';
        h \<leftarrow> asFloat (to_float (float_ops E)) hv;
        let optimizer = \<lparr>translation_tolerance = t, rotation_tolerance = r,
                         scale_tolerance = s, hierarchical_tolerance = h\<rparr>;
        case AnimationOptimizer_call E optimizer raw_animation skeleton of
          None \<Rightarrow> Some (Return_false (say Err [Str ''Failed to optimize animation.''] w1))
        | Some raw_optimized_animation \<Rightarrow>
            do {
              stats \<leftarrow> DisplaysOptimizationstatistics (float_ops E) raw_animation
                         raw_optimized_animation;
              Some (Next raw_optimized_animation (say_all stats w1))
            }
      }
      else Some (Next raw_animation w))"

text \<open>The block under ``Builds runtime animation''; \<open>None\<close> is the null pointer.\<close>

definition Export_build ::
  "('f, 'rs, 'sk, 'an) Env \<Rightarrow> bool \<Rightarrow> 'f RawAnimation \<Rightarrow> ('f, 'an) World
     \<Rightarrow> ('an option, ('f, 'an) World) Block" where
  "Export_build E raw raw_animation w =
     (if \<not> raw
      then (let w1 = say Log [Str ''Builds runtime animation.''] w
            in case AnimationBuilder E raw_animation of
                 None \<Rightarrow> Return_false (say Err [Str ''Failed to build runtime animation.''] w1)
               | Some animation \<Rightarrow> Next (Some animation) w1)
      else Next None w)"

text \<open>
  ``Initializes output endianness from options'', as written: the results of
  \<^verbatim>\<open>strcmp\<close> are used as conditions.
\<close>

definition output_endianness :: "Endianness \<Rightarrow> string \<Rightarrow> Endianness" where
  "output_endianness native option_value =
     (if strcmp option_value ''little'' \<noteq> 0 then kLittleEndian
      else if strcmp option_value ''big'' \<noteq> 0 then kBigEndian
      else native)"

text \<open>
  The last block: the output stream. Opening the file for writing creates it empty or
  empties it; a failed open leaves the files as they are.
\<close>

definition Export_write ::
  "('f, 'rs, 'sk, 'an) Env \<Rightarrow> 'f Value \<Rightarrow> 'f RawAnimation \<Rightarrow> 'f RawAnimation \<Rightarrow> 'an option
     \<Rightarrow> ('f, 'an) World \<Rightarrow> (bool \<times> ('f, 'an) World) option" where
  "Export_write E config raw_in raw_animation animation w =
     do {
       output_v \<leftarrow> Value_get config ''output'';
       pattern \<leftarrow> asCString output_v;
       filename \<leftarrow> BuildFilename (c_str pattern) (c_str (name raw_in));
       let w1 = say Log [Str ''Opens output file: '', Str filename] w;
       if \<not> open_wb E (c_str filename)
       then Some (False, say Err [Str (''Failed to open output file: '' @ [CHR 0x22]),
                                  Str filename, Str [CHR 0x22]] w1)
       else do {
         let w2 = w1\<lparr>disk := (disk w1)(c_str filename \<mapsto> EmptyFile)\<rparr>;
         let endianness = output_endianness (GetNativeEndianness E) (OPTIONS_endian E);
         let w3 = say Log [Str (if endianness = kLittleEndian then ''Little'' else ''Big''),
                           Str '' Endian output binary format selected.''] w2;
         raw \<leftarrow> config_bool E config ''raw'';
         w4 \<leftarrow> (if raw
                then Some ((say Log [Str ''Outputs RawAnimation to binary archive.''] w3)
                       \<lparr>disk := (disk w3)(c_str filename \<mapsto>
                                   ArchiveFile endianness (RawAnimationObject raw_animation))\<rparr>)
                else (case animation of
                        None \<Rightarrow> None
                      | Some a \<Rightarrow>
                          Some ((say Log [Str ''Outputs Animation to binary archive.''] w3)
                            \<lparr>disk := (disk w3)(c_str filename \<mapsto>
                                        ArchiveFile endianness (AnimationObject a))\<rparr>)));
         Some (True, say Log [Str ''Animation binary archive successfully outputted.''] w4)
       }
     }"

definition Export ::
  "('f, 'rs, 'sk, 'an) Env \<Rightarrow> 'f RawAnimation \<Rightarrow> 'sk \<Rightarrow> 'f Value \<Rightarrow> ('f, 'an) World
     \<Rightarrow> (bool \<times> ('f, 'an) World) option" where
  "Export E raw_in skeleton config w =
     do {
       additive \<leftarrow> config_bool E config ''additive'';
       case Export_additive E additive raw_in w of
         Return_false w' \<Rightarrow> Some (False, w')
       | Next raw_animation w1 \<Rightarrow>
           do {
             optimize \<leftarrow> config_bool E config ''optimize'';
             optimized \<leftarrow> Export_optimize E optimize config raw_animation skeleton w1;
             case optimized of
               Return_false w' \<Rightarrow> Some (False, w')
             | Next raw_animation1 w2 \<Rightarrow>
                 do {
                   raw \<leftarrow> config_bool E config ''raw'';
                   case Export_build E raw raw_animation1 w2 of
                     Return_false w' \<Rightarrow> Some (False, w')
                   | Next animation w3 \<Rightarrow>
                       Export_write E config raw_in raw_animation1 animation w3
                 }
           }
     }"

section \<open>The converter\<close>

text \<open>The expression \<^verbatim>\<open>config["animations"][0]\<close> on the non-const \<open>config\<close>.\<close>

definition config_animations0 :: "'f Value \<Rightarrow> ('f Value \<times> 'f Value) option" where
  "config_animations0 config =
     do {
       (config1, animations) \<leftarrow> Value_member config ''animations'';
       (animations1, entry) \<leftarrow> Value_index0 animations;
       Some (store_member config1 ''animations'' animations1, entry)
     }"

text \<open>
  ``Iterate all imported animation, build and output them'': \<open>i\<close> runs over the vector
  from its first element to its last.
\<close>

fun Export_loop ::
  "('f, 'rs, 'sk, 'an) Env \<Rightarrow> 'sk \<Rightarrow> 'f RawAnimation list \<Rightarrow> bool \<Rightarrow> 'f Value
     \<Rightarrow> ('f, 'an) World \<Rightarrow> (bool \<times> ('f, 'an) World) option" where
  "Export_loop E skeleton [] success config w = Some (success, w)"
| "Export_loop E skeleton (a # animations) success config w =
     do {
       (config1, entry) \<leftarrow> config_animations0 config;
       (ok, w1) \<leftarrow> Export E a skeleton entry w;
       Export_loop E skeleton animations (success \<and> ok) config1 w1
     }"

definition set_log_level :: "string \<Rightarrow> Level \<Rightarrow> Level" where
  "set_log_level option_value current =
     (if strcmp option_value ''silent'' = 0 then Silent
      else if strcmp option_value ''standard'' = 0 then Standard
      else if strcmp option_value ''verbose'' = 0 then Verbose
      else current)"

text \<open>The part of \<^verbatim>\<open>operator()\<close> that runs once the import has succeeded.\<close>

definition export_imported ::
  "('f, 'rs, 'sk, 'an) Env \<Rightarrow> 'sk \<Rightarrow> 'f Value \<Rightarrow> 'f RawAnimation list \<Rightarrow> ('f, 'an) World
     \<Rightarrow> (ExitStatus \<times> ('f, 'an) World) option" where
  "export_imported E skeleton config animations w =
     do {
       (config1, animations_v) \<leftarrow> Value_member config ''animations'';
       (animations_v1, entry) \<leftarrow> Value_index0 animations_v;
       (entry1, output_v) \<leftarrow> Value_member entry ''output'';
       pattern \<leftarrow> asCString output_v;
       let config2 = store_member config1 ''animations'' (store_index0 animations_v1 entry1);
       let single = (OutputSingleAnimation (c_str pattern) \<and> length animations > 1);
       let w1 = (if single
                 then say Log [Num (length animations),
                               Str '' animations found. Only the first one ('',
                               Str (name (animations ! 0)),
                               Str '') will be exported.''] w
                 else w);
       let animations1 = (if single then take 1 animations else animations);
       (success, w2) \<leftarrow> Export_loop E skeleton animations1 True config2 w1;
       Some (if success then EXIT_SUCCESS else EXIT_FAILURE, w2)
     }"

text \<open>
  The part of \<^verbatim>\<open>operator()\<close> after the log level is set: the input file, the
  skeleton, the import, the export.
\<close>

definition import_and_export ::
  "('f, 'rs, 'sk, 'an) Env \<Rightarrow> 'f Value \<Rightarrow> ('f, 'an) World
     \<Rightarrow> (ExitStatus \<times> ('f, 'an) World) option" where
  "import_and_export E config w =
     (if \<not> File_Exist E (OPTIONS_file E)
      then Some (EXIT_FAILURE,
                 say Err [Str (''File '' @ [CHR 0x22]), Str (OPTIONS_file E),
                          Str ([CHR 0x22] @ '' doesn'' @ [CHR 0x27] @ ''t exist.'')] w)
      else
        (case ImportSkeleton E w of
           (None, w1) \<Rightarrow> Some (EXIT_FAILURE, w1)
         | (Some skeleton, w1) \<Rightarrow>
             (let w2 = say Log [Str (''Importing file '' @ [CHR 0x22]), Str (OPTIONS_file E),
                                Str [CHR 0x22]] w1
              in (case Import E (OPTIONS_file E) skeleton (OPTIONS_sampling_rate E) of
                    None \<Rightarrow>
                      Some (EXIT_FAILURE,
                            say Err [Str (''Failed to import file '' @ [CHR 0x22]),
                                     Str (OPTIONS_file E), Str [CHR 0x22]] w2)
                  | Some animations \<Rightarrow> export_imported E skeleton config animations w2))))"

definition AnimationConverter ::
  "('f, 'rs, 'sk, 'an) Env \<Rightarrow> ('f, 'an) World \<Rightarrow> (ExitStatus \<times> ('f, 'an) World) option" where
  "AnimationConverter E w =
     (if ParseCommandLine E \<noteq> kSuccess
      then Some (if ParseCommandLine E = kExitSuccess then EXIT_SUCCESS else EXIT_FAILURE, w)
      else
        (let w1 = say Log [Str ''Config: '', Str (OPTIONS_config_string E)] w
         in (case json_parse E (OPTIONS_config_string E) of
               Inl messages \<Rightarrow>
                 Some (EXIT_FAILURE,
                       say Err [Str ''Error while parsing configuration string: '',
                                Str messages] w1)
             | Inr config \<Rightarrow>
                 (case Sanitize (default_optimizer E) config of
                    None \<Rightarrow> None
                  | Some (sanitized, config1, l) \<Rightarrow>
                      (let w2 = say_all l w1
                       in if \<not> sanitized
                          then Some (EXIT_FAILURE, say Err [Str ''Invalid configuration.''] w2)
                          else import_and_export E config1
                                 (w2\<lparr>log_level :=
                                       set_log_level (OPTIONS_log_level E) (log_level w2)\<rparr>))))))"

section \<open>What the specification says, as definitions\<close>

text \<open>
  The specification's file name: every \<open>*\<close> of the pattern replaced by the animation
  name, each occurrence by the same text.
\<close>

definition replace_wildcards :: "string \<Rightarrow> string \<Rightarrow> string" where
  "replace_wildcards pattern animation =
     concat (map (\<lambda>c. if c = CHR ''*'' then animation else [c]) pattern)"

text \<open>
  The rules of the specification's table of recognized fields, read on the tree as it
  is before sanitization. \<open>member_of\<close> is the member of an object, if there is one. A
  scalar rule succeeds (\<open>field_ok\<close>) when the member is absent or has the rule's type;
  the rule of the tolerances object succeeds when the member is absent, or is an object
  on which the four scalar rules succeed; the rule of the array succeeds when the member
  is absent or is an array. \<open>animation_ok\<close> is the conjunction of the rules of one entry
  \<^verbatim>\<open>animations[i]\<close>, and \<open>config_ok\<close> the conjunction of every rule of the table: the
  rule of the array and the rules of \<^verbatim>\<open>animations[i]\<close> for every \<open>i\<close>.
\<close>

definition member_of :: "'f Value \<Rightarrow> string \<Rightarrow> 'f Value option" where
  "member_of v key = (case payload v of ObjectV ms \<Rightarrow> map_of ms key | _ \<Rightarrow> None)"

definition null_or_object :: "'f Value \<Rightarrow> bool" where
  "null_or_object v = (case payload v of NullV \<Rightarrow> True | ObjectV _ \<Rightarrow> True | _ \<Rightarrow> False)"

definition field_ok :: "'f Value \<Rightarrow> string \<Rightarrow> ValueType \<Rightarrow> bool" where
  "field_ok v key T = (case member_of v key of None \<Rightarrow> True | Some f \<Rightarrow> Value_type f = T)"

definition tolerances_ok :: "'f Value \<Rightarrow> bool" where
  "tolerances_ok r =
     (case member_of r ''optimization_tolerances'' of
        None \<Rightarrow> True
      | Some t \<Rightarrow> isObject t \<and> field_ok t ''translation'' realValue \<and>
                  field_ok t ''rotation'' realValue \<and> field_ok t ''scale'' realValue \<and>
                  field_ok t ''hierarchical'' realValue)"

definition animation_ok :: "'f Value \<Rightarrow> bool" where
  "animation_ok e =
     (null_or_object e \<and> field_ok e ''output'' stringValue \<and>
      field_ok e ''optimize'' booleanValue \<and> tolerances_ok e \<and>
      field_ok e ''raw'' booleanValue \<and> field_ok e ''additive'' booleanValue)"

definition entries_of :: "'f Value \<Rightarrow> 'f Value list" where
  "entries_of a = (case payload a of ArrayV es \<Rightarrow> es | _ \<Rightarrow> [])"

definition config_ok :: "'f Value \<Rightarrow> bool" where
  "config_ok t =
     (null_or_object t \<and>
      (case member_of t ''animations'' of
         None \<Rightarrow> True
       | Some a \<Rightarrow> isArray a \<and> list_all animation_ok (entries_of a)))"

text \<open>
  The rules the code applies are fewer: \<^verbatim>\<open>Sanitize\<close> passes \<^verbatim>\<open>animations[0]\<close> to
  \<^verbatim>\<open>SanitizeAnimation\<close> at every turn of its loop. \<open>entry0\<close> is that entry and
  \<open>applied_rules_ok\<close> the conjunction of the rules that are applied: it describes the
  code, not the specification.
\<close>

definition entry0 :: "'f Value \<Rightarrow> 'f Value option" where
  "entry0 a = (case payload a of ArrayV (e # _) \<Rightarrow> Some e | _ \<Rightarrow> None)"

definition applied_rules_ok :: "'f Value \<Rightarrow> bool" where
  "applied_rules_ok t =
     (null_or_object t \<and>
      (case member_of t ''animations'' of
         None \<Rightarrow> True
       | Some a \<Rightarrow> isArray a \<and> (case entry0 a of None \<Rightarrow> True | Some e \<Rightarrow> animation_ok e)))"

text \<open>
  The invariant the specification states for a sanitized tree, for the entry the
  sanitizer works on: every recognized member is there (\<open>has_field\<close>) with its type.
\<close>

definition has_field :: "'f Value \<Rightarrow> string \<Rightarrow> ValueType \<Rightarrow> bool" where
  "has_field v key T = (case member_of v key of None \<Rightarrow> False | Some f \<Rightarrow> Value_type f = T)"

definition has_tolerances :: "'f Value \<Rightarrow> bool" where
  "has_tolerances r =
     (case member_of r ''optimization_tolerances'' of
        None \<Rightarrow> False
      | Some t \<Rightarrow> isObject t \<and> has_field t ''translation'' realValue \<and>
                  has_field t ''rotation'' realValue \<and> has_field t ''scale'' realValue \<and>
                  has_field t ''hierarchical'' realValue)"

definition sanitized_animation :: "'f Value \<Rightarrow> bool" where
  "sanitized_animation e =
     (isObject e \<and> has_field e ''output'' stringValue \<and>
      has_field e ''optimize'' booleanValue \<and> has_tolerances e \<and>
      has_field e ''raw'' booleanValue \<and> has_field e ''additive'' booleanValue)"

definition sanitized_config :: "'f Value \<Rightarrow> bool" where
  "sanitized_config t =
     (case member_of t ''animations'' of
        None \<Rightarrow> False
      | Some a \<Rightarrow> isArray a \<and>
                  (case entry0 a of None \<Rightarrow> True | Some e \<Rightarrow> sanitized_animation e))"

text \<open>
  What an entry of the configuration holds: the flag of a boolean member, the number of
  a real member, the text of a string member, and the four tolerances as the optimizer's
  settings.
\<close>

definition flag_of :: "'f Value \<Rightarrow> string \<Rightarrow> bool option" where
  "flag_of v key =
     (case member_of v key of
        None \<Rightarrow> None
      | Some f \<Rightarrow> (case payload f of BoolV b \<Rightarrow> Some b | _ \<Rightarrow> None))"

definition real_of :: "'f Value \<Rightarrow> string \<Rightarrow> 'f option" where
  "real_of v key =
     (case member_of v key of
        None \<Rightarrow> None
      | Some f \<Rightarrow> (case payload f of RealV x \<Rightarrow> Some x | _ \<Rightarrow> None))"

definition text_of :: "'f Value \<Rightarrow> string \<Rightarrow> string option" where
  "text_of v key =
     (case member_of v key of
        None \<Rightarrow> None
      | Some f \<Rightarrow> (case payload f of StringV s \<Rightarrow> Some s | _ \<Rightarrow> None))"

definition tolerances_of :: "'f Value \<Rightarrow> 'f AnimationOptimizer option" where
  "tolerances_of config =
     do {
       tolerances \<leftarrow> member_of config ''optimization_tolerances'';
       t \<leftarrow> real_of tolerances ''translation'';
       r \<leftarrow> real_of tolerances ''rotation'';
       s \<leftarrow> real_of tolerances ''scale'';
       h \<leftarrow> real_of tolerances ''hierarchical'';
       Some \<lparr>translation_tolerance = t, rotation_tolerance = r,
             scale_tolerance = s, hierarchical_tolerance = h\<rparr>
     }"

text \<open>
  The stages of an export, as the specification names them, in terms of the
  collaborators and of the entry's flags: the additive delta build, the optimization and
  the build of the object to archive (the raw animation itself, or the runtime
  animation). \<open>None\<close> is the failure of the stage; a stage that is not asked for passes
  its input on.
\<close>

definition additive_stage ::
  "('f, 'rs, 'sk, 'an) Env \<Rightarrow> bool \<Rightarrow> 'f RawAnimation \<Rightarrow> 'f RawAnimation option" where
  "additive_stage E additive raw_in =
     (if additive then AdditiveAnimationBuilder E raw_in else Some raw_in)"

definition optimize_stage ::
  "('f, 'rs, 'sk, 'an) Env \<Rightarrow> bool \<Rightarrow> 'f AnimationOptimizer \<Rightarrow> 'f RawAnimation \<Rightarrow> 'sk
     \<Rightarrow> 'f RawAnimation option" where
  "optimize_stage E optimize tol raw1 skeleton =
     (if optimize then AnimationOptimizer_call E tol raw1 skeleton else Some raw1)"

definition build_stage ::
  "('f, 'rs, 'sk, 'an) Env \<Rightarrow> bool \<Rightarrow> 'f RawAnimation \<Rightarrow> ('f, 'an) Archived option" where
  "build_stage E raw raw2 =
     (if raw then Some (RawAnimationObject raw2)
      else map_option AnimationObject (AnimationBuilder E raw2))"

text \<open>
  What the caller and the file system have of a run of \<^verbatim>\<open>Export\<close>: the value it
  returns and the files as it leaves them.
\<close>

definition Export_outcome ::
  "('f, 'rs, 'sk, 'an) Env \<Rightarrow> 'f RawAnimation \<Rightarrow> 'sk \<Rightarrow> 'f Value \<Rightarrow> ('f, 'an) World
     \<Rightarrow> (bool \<times> (string \<Rightarrow> ('f, 'an) FileData option)) option" where
  "Export_outcome E raw_in skeleton config w =
     map_option (\<lambda>(ok, w'). (ok, disk w')) (Export E raw_in skeleton config w)"

text \<open>The entry \<^verbatim>\<open>animations[i]\<close> of a tree, read without changing it.\<close>

definition animations_entry :: "'f Value \<Rightarrow> nat \<Rightarrow> 'f Value option" where
  "animations_entry t i =
     (case member_of t ''animations'' of
        None \<Rightarrow> None
      | Some a \<Rightarrow>
          (case payload a of
             ArrayV es \<Rightarrow> (if i < length es then Some (es ! i) else None)
           | _ \<Rightarrow> None))"

text \<open>
  The output pattern the converter reads, \<^verbatim>\<open>config["animations"][0]["output"]\<close>, read
  without changing the tree; the animations the converter retains for that pattern;
  the diagnostic it logs when it discards the others, and the world after that step.
\<close>

definition output_pattern :: "'f Value \<Rightarrow> string option" where
  "output_pattern config =
     do {
       entry \<leftarrow> animations_entry config 0;
       output_v \<leftarrow> member_of entry ''output'';
       asCString output_v
     }"

definition retained_animations :: "string \<Rightarrow> 'a list \<Rightarrow> 'a list" where
  "retained_animations pattern animations =
     (if OutputSingleAnimation (c_str pattern) \<and> 1 < length animations
      then take 1 animations else animations)"

definition discard_diagnostic :: "'f RawAnimation list \<Rightarrow> 'f LogEntry" where
  "discard_diagnostic animations =
     (Log, [Num (length animations), Str '' animations found. Only the first one ('',
            Str (name (animations ! 0)), Str '') will be exported.''])"

definition after_retention ::
  "string \<Rightarrow> 'f RawAnimation list \<Rightarrow> ('f, 'an) World \<Rightarrow> ('f, 'an) World" where
  "after_retention pattern animations w =
     (if OutputSingleAnimation (c_str pattern) \<and> 1 < length animations
      then say_all [discard_diagnostic animations] w else w)"

text \<open>
  Exporting every animation of a list in turn, whatever the earlier exports returned:
  the results are collected, none ends the run.
\<close>

fun export_each ::
  "('f, 'rs, 'sk, 'an) Env \<Rightarrow> 'sk \<Rightarrow> 'f Value \<Rightarrow> 'f RawAnimation list \<Rightarrow> ('f, 'an) World
     \<Rightarrow> (bool list \<times> ('f, 'an) World) option" where
  "export_each E skeleton entry [] w = Some ([], w)"
| "export_each E skeleton entry (a # animations) w =
     do {
       (ok, w1) \<leftarrow> Export E a skeleton entry w;
       (oks, w2) \<leftarrow> export_each E skeleton entry animations w1;
       Some (ok # oks, w2)
     }"

text \<open>
  \<open>reached_export\<close>: the command line is parsed, the configuration is parsed and
  sanitized (to \<open>config\<close>), the input file exists, the skeleton is imported and the
  importer has returned \<open>animations\<close>; \<open>w5\<close> is the world at that point.
  \<open>before_import\<close> is the world after the sanitizer's messages and the log level.
\<close>

definition before_import ::
  "('f, 'rs, 'sk, 'an) Env \<Rightarrow> 'f LogEntry list \<Rightarrow> ('f, 'an) World \<Rightarrow> ('f, 'an) World" where
  "before_import E msgs w =
     (let w2 = say_all msgs (say Log [Str ''Config: '', Str (OPTIONS_config_string E)] w)
      in w2\<lparr>log_level := set_log_level (OPTIONS_log_level E) (log_level w2)\<rparr>)"

definition reached_export ::
  "('f, 'rs, 'sk, 'an) Env \<Rightarrow> ('f, 'an) World \<Rightarrow> 'sk \<Rightarrow> 'f Value \<Rightarrow> 'f RawAnimation list
     \<Rightarrow> ('f, 'an) World \<Rightarrow> bool" where
  "reached_export E w skeleton config animations w5 =
     (ParseCommandLine E = kSuccess \<and>
      (\<exists>config0 msgs w4.
         json_parse E (OPTIONS_config_string E) = Inr config0 \<and>
         Sanitize (default_optimizer E) config0 = Some (True, config, msgs) \<and>
         File_Exist E (OPTIONS_file E) \<and>
         ImportSkeleton E (before_import E msgs w) = (Some skeleton, w4) \<and>
         Import E (OPTIONS_file E) skeleton (OPTIONS_sampling_rate E) = Some animations \<and>
         w5 = say Log [Str (''Importing file '' @ [CHR 0x22]), Str (OPTIONS_file E),
                       Str [CHR 0x22]] w4))"

text \<open>The log of one world continues the log of another.\<close>

definition log_extends :: "('f, 'an) World \<Rightarrow> ('f, 'an) World \<Rightarrow> bool" where
  "log_extends w w1 = (\<exists>more. logged w1 = logged w @ more)"

text \<open>An object, or a null turned into one, with one member more at its end.\<close>

definition add_member :: "'f Value \<Rightarrow> string \<Rightarrow> 'f Value \<Rightarrow> 'f Value" where
  "add_member p k v =
     (case payload p of
        NullV \<Rightarrow> Value (ObjectV [(k, v)]) []
      | ObjectV ms \<Rightarrow> Value (ObjectV (ms @ [(k, v)])) (comments_of p)
      | _ \<Rightarrow> p)"

section \<open>A concrete run\<close>

text \<open>
  An environment whose collaborators all succeed: the builders and the optimizer return
  the animation they are given, every file opens. Integers stand for the floating-point
  numbers here, and the host is little-endian.
\<close>

definition demo_floats :: "int FloatOps" where
  "demo_floats = \<lparr>to_float = (\<lambda>i. i), fmul = (*), fdiv = (div)\<rparr>"

definition demo_optimizer :: "int AnimationOptimizer" where
  "demo_optimizer =
     \<lparr>translation_tolerance = 1, rotation_tolerance = 2,
      scale_tolerance = 3, hierarchical_tolerance = 4\<rparr>"

definition demo_animation :: "string \<Rightarrow> int RawAnimation" where
  "demo_animation n = \<lparr>duration = 1, tracks = [], name = n\<rparr>"

definition demo_env ::
  "string \<Rightarrow> int Value \<Rightarrow> int RawAnimation list
     \<Rightarrow> (int, unit, unit, int RawAnimation) Env" where
  "demo_env endian config animations =
     \<lparr>OPTIONS_file = ''in.fbx'', OPTIONS_skeleton = ''skeleton.ozz'',
      OPTIONS_config_string = ''{}'', OPTIONS_endian = endian,
      OPTIONS_log_level = ''standard'', OPTIONS_sampling_rate = 0,
      ParseCommandLine = kSuccess, GetNativeEndianness = kLittleEndian,
      float_ops = demo_floats, default_optimizer = demo_optimizer,
      json_parse = (\<lambda>_. Inr config), File_Exist = (\<lambda>_. True),
      open_rb = (\<lambda>_. Some (SkeletonTag ())), SkeletonBuilder = (\<lambda>_. Some ()),
      Import = (\<lambda>_ _ _. Some animations),
      AdditiveAnimationBuilder = (\<lambda>a. Some a),
      AnimationOptimizer_call = (\<lambda>_ a _. Some a),
      AnimationBuilder = (\<lambda>a. Some a), open_wb = (\<lambda>_. True)\<rparr>"

definition empty_world :: "(int, int RawAnimation) World" where
  "empty_world = \<lparr>disk = Map.empty, logged = [], log_level = Standard\<rparr>"

definition JObject :: "(string \<times> int Value) list \<Rightarrow> int Value" where
  "JObject ms = Value (ObjectV ms) []"

definition JArray :: "int Value list \<Rightarrow> int Value" where
  "JArray es = Value (ArrayV es) []"

definition JString :: "string \<Rightarrow> int Value" where
  "JString s = Value (StringV s) []"

definition JBool :: "bool \<Rightarrow> int Value" where
  "JBool b = Value (BoolV b) []"

definition JReal :: "int \<Rightarrow> int Value" where
  "JReal x = Value (RealV x) []"

text \<open>
  An environment whose animation builder fails on the animation of a given name.
\<close>

definition demo_env_builder_fails ::
  "string \<Rightarrow> int Value \<Rightarrow> int RawAnimation list \<Rightarrow> (int, unit, unit, int RawAnimation) Env"
  where
  "demo_env_builder_fails bad config animations =
     (demo_env ''native'' config animations)
       \<lparr>AnimationBuilder := (\<lambda>a. if name a = bad then None else Some a)\<rparr>"

text \<open>
  An entry that asks for every stage, and environments in which each collaborator of
  \<^verbatim>\<open>Export\<close> succeeds or fails as told. The additive builder adds 10 to the duration
  and the optimizer adds the translation tolerance, so that the archived object shows
  which stages have run and with which settings.
\<close>

definition demo_full_entry :: "int Value" where
  "demo_full_entry =
     JObject [(''output'', JString ''*.ozz''), (''optimize'', JBool True),
              (''optimization_tolerances'',
               JObject [(''translation'', JReal 1), (''rotation'', JReal 2),
                        (''scale'', JReal 3), (''hierarchical'', JReal 4)]),
              (''raw'', JBool False), (''additive'', JBool True)]"

definition demo_env_stages ::
  "bool \<Rightarrow> bool \<Rightarrow> bool \<Rightarrow> bool \<Rightarrow> (int, unit, unit, int RawAnimation) Env" where
  "demo_env_stages additive_ok optimize_ok build_ok open_ok =
     (demo_env ''native'' (JObject []) [])
       \<lparr>AdditiveAnimationBuilder :=
          (\<lambda>a. if additive_ok then Some (a\<lparr>duration := duration a + 10\<rparr>) else None),
        AnimationOptimizer_call :=
          (\<lambda>tol a _. if optimize_ok
                      then Some (a\<lparr>duration := duration a + translation_tolerance tol\<rparr>)
                      else None),
        AnimationBuilder := (\<lambda>a. if build_ok then Some a else None),
        open_wb := (\<lambda>_. open_ok)\<rparr>"

section \<open>The output endianness\<close>

text \<open>
  C1. The claim: the archive is written in the endianness the \<^verbatim>\<open>endian\<close> option
  selects, \<^verbatim>\<open>native\<close> giving the host's, \<^verbatim>\<open>little\<close> little-endian and \<^verbatim>\<open>big\<close>
  big-endian. The code tests \<^verbatim>\<open>strcmp(...)\<close> where the log level code next to it tests
  \<^verbatim>\<open>strcmp(...) == 0\<close>: on any host \<^verbatim>\<open>big\<close> and \<^verbatim>\<open>native\<close> select little-endian
  and \<^verbatim>\<open>little\<close> selects big-endian, and a whole run with \<^verbatim>\<open>--endian=big\<close> writes
  a little-endian archive.
\<close>

theorem C1_endianness_inverted:
  "output_endianness native ''big'' = kLittleEndian \<and>
   output_endianness native ''little'' = kBigEndian \<and>
   output_endianness native ''native'' = kLittleEndian \<and>
   map_option (\<lambda>(status, w). (status, disk w ''jump.ozz''))
     (AnimationConverter (demo_env ''big'' (JObject []) [demo_animation ''jump''])
        empty_world)
   = Some (EXIT_SUCCESS,
           Some (ArchiveFile kLittleEndian (AnimationObject (demo_animation ''jump''))))"
proof -
  have "output_endianness native ''big'' = kLittleEndian"
    and "output_endianness native ''little'' = kBigEndian"
    and "output_endianness native ''native'' = kLittleEndian"
    by (simp_all add: output_endianness_def)
  moreover have
    "map_option (\<lambda>(status, w). (status, disk w ''jump.ozz''))
       (AnimationConverter (demo_env ''big'' (JObject []) [demo_animation ''jump''])
          empty_world)
     = Some (EXIT_SUCCESS,
             Some (ArchiveFile kLittleEndian (AnimationObject (demo_animation ''jump''))))"
    by code_simp
  ultimately show ?thesis by simp
qed

section \<open>The sanitizer\<close>

lemma update_append_absent:
  "map_of ms k = None \<Longrightarrow> AList.update k v (ms @ [(k, x)]) = ms @ [(k, v)]"
  by (induction ms) (auto split: if_splits)

lemma map_of_append_absent:
  "map_of ms k = None \<Longrightarrow> map_of (ms @ [(k, v)]) k' = (if k' = k then Some v else map_of ms k')"
  by (induction ms) (auto split: if_splits)

lemma Value_type_Value_of [simp]: "Value_type (Value_of d) = ToJsonType d"
  by (cases d) (simp_all add: Value_type_def)

lemma Value_type_setComment [simp]: "Value_type (setComment v c p) = Value_type v"
  by (simp add: Value_type_def setComment_def)

lemma isObject_add_member: "null_or_object p \<Longrightarrow> isObject (add_member p k v)"
  by (simp add: null_or_object_def add_member_def isObject_def Value_type_def
      split: Payload.splits)

lemma member_of_add_member:
  "null_or_object p \<Longrightarrow> member_of p k = None \<Longrightarrow>
   member_of (add_member p k v) k' = (if k' = k then Some v else member_of p k')"
  by (simp add: null_or_object_def add_member_def member_of_def map_of_append_absent
      del: map_of_append split: Payload.splits)

lemma member_of_object: "member_of p k = Some f \<Longrightarrow> isObject p"
  by (simp add: member_of_def isObject_def Value_type_def split: Payload.splits)

lemma isObject_null_or_object: "isObject p \<Longrightarrow> null_or_object p"
  by (simp add: null_or_object_def isObject_def Value_type_def split: Payload.splits)

text \<open>What finding a member and taking a reference to it give.\<close>

lemma Value_find_eq:
  "Value_find p k = (if null_or_object p then Some (member_of p k) else None)"
  by (simp add: Value_find_def null_or_object_def member_of_def split: Payload.splits)

lemma Value_member_present: "member_of p k = Some f \<Longrightarrow> Value_member p k = Some (p, f)"
  by (simp add: Value_member_def member_of_def split: Payload.splits)

lemma Value_member_absent:
  "null_or_object p \<Longrightarrow> member_of p k = None \<Longrightarrow>
   Value_member p k = Some (add_member p k nullSingleton, nullSingleton)"
  by (simp add: Value_member_def member_of_def null_or_object_def add_member_def
      split: Payload.splits)

lemma store_member_add_member:
  "null_or_object p \<Longrightarrow> member_of p k = None \<Longrightarrow>
   store_member (add_member p k x) k v = add_member p k v"
  by (simp add: store_member_def member_of_def null_or_object_def add_member_def
        update_append_absent split: Payload.splits)

lemma store_member_same: "member_of p k = Some v \<Longrightarrow> store_member p k v = p"
  by (cases p) (simp add: store_member_def member_of_def update_triv split: Payload.splits)

lemma member_of_store_member:
  "isObject p \<Longrightarrow> member_of (store_member p k v) k' = (if k' = k then Some v else member_of p k')"
  by (simp add: store_member_def member_of_def isObject_def Value_type_def update_conv'
      split: Payload.splits)

lemma isObject_store_member: "isObject p \<Longrightarrow> isObject (store_member p k v)"
  by (simp add: store_member_def isObject_def Value_type_def split: Payload.splits)

lemma MakeDefault_crash: "\<not> null_or_object p \<Longrightarrow> MakeDefault p k d c = None"
  by (simp add: MakeDefault_def Value_find_eq)

lemma MakeDefault_present:
  "member_of p k = Some f \<Longrightarrow>
   \<exists>l. MakeDefault p k d c = Some (Value_type f = ToJsonType d, p, l) \<and>
       (Value_type f = ToJsonType d \<longrightarrow> l = [])"
  by (frule member_of_object)
     (simp add: MakeDefault_def Value_find_eq isObject_null_or_object)

lemma MakeDefault_absent:
  "null_or_object p \<Longrightarrow> member_of p k = None \<Longrightarrow>
   MakeDefault p k d c =
     Some (True,
           add_member p k
             (if c \<noteq> [] then setComment (Value_of d) (''//  '' @ c) commentAfterOnSameLine
              else Value_of d),
           [])"
  by (simp add: MakeDefault_def Value_find_eq Value_member_absent store_member_add_member Let_def)

lemma MakeDefault_spec:
  assumes "MakeDefault p k d c = Some (ok, p', l)"
  shows "null_or_object p" and "isObject p'"
    and "\<And>k'. k' \<noteq> k \<Longrightarrow> member_of p' k' = member_of p k'"
    and "ok = field_ok p k (ToJsonType d)"
    and "ok \<Longrightarrow> has_field p' k (ToJsonType d)"
    and "member_of p k \<noteq> None \<Longrightarrow> p' = p"
proof -
  show n: "null_or_object p"
    using assms MakeDefault_crash[of p k d c] by (cases "null_or_object p") auto
  have all: "isObject p' \<and> (\<forall>k'. k' \<noteq> k \<longrightarrow> member_of p' k' = member_of p k') \<and>
        ok = field_ok p k (ToJsonType d) \<and> (ok \<longrightarrow> has_field p' k (ToJsonType d)) \<and>
        (member_of p k \<noteq> None \<longrightarrow> p' = p)"
  proof (cases "member_of p k")
    case None
    define v where "v = (if c \<noteq> [] then setComment (Value_of d) (''//  '' @ c)
                                          commentAfterOnSameLine
                         else Value_of d)"
    have "Value_type v = ToJsonType d"
      by (simp add: v_def)
    moreover from MakeDefault_absent[OF n None, of d c] assms
    have "ok" "p' = add_member p k v"
      by (simp_all add: v_def)
    ultimately show ?thesis
      using n None
      by (simp add: isObject_add_member member_of_add_member field_ok_def has_field_def)
  next
    case (Some f)
    from MakeDefault_present[OF Some, of d c] assms
    have "ok = (Value_type f = ToJsonType d)" "p' = p" by auto
    with Some member_of_object[OF Some] show ?thesis
      by (simp add: field_ok_def has_field_def)
  qed
  from all show "isObject p'" by simp
  from all show "\<And>k'. k' \<noteq> k \<Longrightarrow> member_of p' k' = member_of p k'" by simp
  from all show "ok = field_ok p k (ToJsonType d)" by simp
  from all show "ok \<Longrightarrow> has_field p' k (ToJsonType d)" by simp
  from all show "member_of p k \<noteq> None \<Longrightarrow> p' = p" by simp
qed

lemma MakeDefault_total:
  "null_or_object p \<Longrightarrow> \<exists>ok p' l. MakeDefault p k d c = Some (ok, p', l)"
  using MakeDefault_absent[of p k d c] MakeDefault_present[of p k _ d c]
  by (cases "member_of p k") blast+

lemma MakeDefault_stable:
  "has_field p k (ToJsonType d) \<Longrightarrow> MakeDefault p k d c = Some (True, p, [])"
  using MakeDefault_present[of p k _ d c]
  by (cases "member_of p k") (auto simp: has_field_def)

lemma field_ok_frame: "member_of a k = member_of b k \<Longrightarrow> field_ok a k T = field_ok b k T"
  by (simp add: field_ok_def)

lemma has_field_frame: "member_of a k = member_of b k \<Longrightarrow> has_field a k T = has_field b k T"
  by (simp add: has_field_def)

lemma has_field_ok: "has_field a k T \<Longrightarrow> field_ok a k T"
  by (simp add: has_field_def field_ok_def split: option.splits)

lemma has_field_present: "has_field a k T \<Longrightarrow> member_of a k \<noteq> None"
  by (simp add: has_field_def split: option.splits)

lemma has_field_object: "has_field a k T \<Longrightarrow> isObject a"
  by (auto simp: has_field_def split: option.splits dest: member_of_object)

lemma MakeDefaultObject_crash: "\<not> null_or_object p \<Longrightarrow> MakeDefaultObject p k c = None"
  by (simp add: MakeDefaultObject_def Value_find_eq)

lemma MakeDefaultObject_present:
  "member_of p k = Some f \<Longrightarrow> MakeDefaultObject p k c = Some (isObject f, p)"
  by (frule member_of_object)
     (simp add: MakeDefaultObject_def Value_find_eq isObject_null_or_object)

lemma MakeDefaultObject_absent:
  "null_or_object p \<Longrightarrow> member_of p k = None \<Longrightarrow>
   MakeDefaultObject p k c =
     Some (True,
           add_member p k
             (if c \<noteq> [] then setComment nullSingleton (''//  '' @ c) commentBefore
              else nullSingleton))"
  by (simp add: MakeDefaultObject_def Value_find_eq Value_member_absent
        store_member_add_member Let_def)

lemma MakeDefaultArray_crash: "\<not> null_or_object p \<Longrightarrow> MakeDefaultArray p k c = None"
  by (simp add: MakeDefaultArray_def Value_find_eq)

lemma MakeDefaultArray_present:
  "member_of p k = Some f \<Longrightarrow> MakeDefaultArray p k c = Some (isArray f, p)"
  by (frule member_of_object)
     (simp add: MakeDefaultArray_def Value_find_eq isObject_null_or_object)

lemma MakeDefaultArray_absent:
  "null_or_object p \<Longrightarrow> member_of p k = None \<Longrightarrow>
   MakeDefaultArray p k c =
     Some (True,
           add_member p k
             (if c \<noteq> []
              then setComment (Value (ArrayV [nullSingleton]) []) (''//  '' @ c) commentBefore
              else Value (ArrayV [nullSingleton]) []))"
  by (simp add: MakeDefaultArray_def Value_find_eq Value_member_absent
        store_member_add_member Let_def Value_resize_def nullSingleton_def)

lemma null_member_facts:
  "null_or_object (if c \<noteq> [] then setComment nullSingleton x commentBefore else nullSingleton)"
  "member_of (if c \<noteq> [] then setComment nullSingleton x commentBefore else nullSingleton) k
     = None"
  by (simp_all add: null_or_object_def member_of_def setComment_def nullSingleton_def)

text \<open>The four tolerance rules in a row.\<close>

lemma four_defaults:
  assumes m1: "MakeDefault t ''translation'' (DFloat x1) c1 = Some (s1, t1, l1)"
    and m2: "MakeDefault t1 ''rotation'' (DFloat x2) c2 = Some (s2, t2, l2)"
    and m3: "MakeDefault t2 ''scale'' (DFloat x3) c3 = Some (s3, t3, l3)"
    and m4: "MakeDefault t3 ''hierarchical'' (DFloat x4) c4 = Some (s4, t4, l4)"
  shows "null_or_object t" and "isObject t4"
    and "(s1 \<and> s2 \<and> s3 \<and> s4) =
         (field_ok t ''translation'' realValue \<and> field_ok t ''rotation'' realValue \<and>
          field_ok t ''scale'' realValue \<and> field_ok t ''hierarchical'' realValue)"
    and "s1 \<and> s2 \<and> s3 \<and> s4 \<Longrightarrow>
         has_field t4 ''translation'' realValue \<and> has_field t4 ''rotation'' realValue \<and>
         has_field t4 ''scale'' realValue \<and> has_field t4 ''hierarchical'' realValue"
proof -
  note a = MakeDefault_spec[OF m1] and b = MakeDefault_spec[OF m2]
    and c = MakeDefault_spec[OF m3] and d = MakeDefault_spec[OF m4]
  show "null_or_object t" by (rule a(1))
  show "isObject t4" by (rule d(2))
  have f2: "field_ok t1 ''rotation'' realValue = field_ok t ''rotation'' realValue"
    by (rule field_ok_frame) (simp add: a(3))
  have f3: "field_ok t2 ''scale'' realValue = field_ok t ''scale'' realValue"
    by (rule field_ok_frame) (simp add: a(3) b(3))
  have f4: "field_ok t3 ''hierarchical'' realValue = field_ok t ''hierarchical'' realValue"
    by (rule field_ok_frame) (simp add: a(3) b(3) c(3))
  show "(s1 \<and> s2 \<and> s3 \<and> s4) =
         (field_ok t ''translation'' realValue \<and> field_ok t ''rotation'' realValue \<and>
          field_ok t ''scale'' realValue \<and> field_ok t ''hierarchical'' realValue)"
    using a(4) b(4) c(4) d(4) f2 f3 f4 by simp
  assume all: "s1 \<and> s2 \<and> s3 \<and> s4"
  have h1: "has_field t4 ''translation'' realValue = has_field t1 ''translation'' realValue"
    by (rule has_field_frame) (simp add: b(3) c(3) d(3))
  have h2: "has_field t4 ''rotation'' realValue = has_field t2 ''rotation'' realValue"
    by (rule has_field_frame) (simp add: c(3) d(3))
  have h3: "has_field t4 ''scale'' realValue = has_field t3 ''scale'' realValue"
    by (rule has_field_frame) (simp add: d(3))
  from all a(5) b(5) c(5) d(5) h1 h2 h3
  show "has_field t4 ''translation'' realValue \<and> has_field t4 ''rotation'' realValue \<and>
         has_field t4 ''scale'' realValue \<and> has_field t4 ''hierarchical'' realValue"
    by simp
qed

lemma four_defaults_total:
  assumes "null_or_object t"
  shows "\<exists>s1 t1 l1 s2 t2 l2 s3 t3 l3 s4 t4 l4.
           MakeDefault t ''translation'' da ca = Some (s1, t1, l1) \<and>
           MakeDefault t1 ''rotation'' db cb = Some (s2, t2, l2) \<and>
           MakeDefault t2 ''scale'' dc cc = Some (s3, t3, l3) \<and>
           MakeDefault t3 ''hierarchical'' dd cd = Some (s4, t4, l4)"
proof -
  from MakeDefault_total[OF assms] obtain s1 t1 l1
    where m1: "MakeDefault t ''translation'' da ca = Some (s1, t1, l1)" by blast
  from MakeDefault_total[OF isObject_null_or_object[OF MakeDefault_spec(2)[OF m1]]]
  obtain s2 t2 l2 where m2: "MakeDefault t1 ''rotation'' db cb = Some (s2, t2, l2)" by blast
  from MakeDefault_total[OF isObject_null_or_object[OF MakeDefault_spec(2)[OF m2]]]
  obtain s3 t3 l3 where m3: "MakeDefault t2 ''scale'' dc cc = Some (s3, t3, l3)" by blast
  from MakeDefault_total[OF isObject_null_or_object[OF MakeDefault_spec(2)[OF m3]]]
  obtain s4 t4 l4 where m4: "MakeDefault t3 ''hierarchical'' dd cd = Some (s4, t4, l4)"
    by blast
  from m1 m2 m3 m4 show ?thesis by blast
qed

lemma tolerance_defaults_total:
  assumes "null_or_object t"
  shows "\<exists>s1 t1 l1 s2 t2 l2 s3 t3 l3 s4 t4 l4.
           MakeDefault t ''translation'' (DFloat (translation_tolerance opt))
             comment_translation = Some (s1, t1, l1) \<and>
           MakeDefault t1 ''rotation'' (DFloat (rotation_tolerance opt))
             comment_rotation = Some (s2, t2, l2) \<and>
           MakeDefault t2 ''scale'' (DFloat (scale_tolerance opt))
             comment_scale = Some (s3, t3, l3) \<and>
           MakeDefault t3 ''hierarchical'' (DFloat (hierarchical_tolerance opt))
             comment_hierarchical = Some (s4, t4, l4)"
  by (rule four_defaults_total[OF assms])

text \<open>
  \<^verbatim>\<open>SanitizeOptimizationTolerances\<close>, computed from the results of its four scalar
  rules: when the member is there, and when it is not.
\<close>

lemma SOT_present:
  assumes t: "member_of r ''optimization_tolerances'' = Some t"
    and m1: "MakeDefault t ''translation'' (DFloat (translation_tolerance opt))
               comment_translation = Some (s1, t1, l1)"
    and m2: "MakeDefault t1 ''rotation'' (DFloat (rotation_tolerance opt))
               comment_rotation = Some (s2, t2, l2)"
    and m3: "MakeDefault t2 ''scale'' (DFloat (scale_tolerance opt))
               comment_scale = Some (s3, t3, l3)"
    and m4: "MakeDefault t3 ''hierarchical'' (DFloat (hierarchical_tolerance opt))
               comment_hierarchical = Some (s4, t4, l4)"
  shows "SanitizeOptimizationTolerances opt r =
           Some (isObject t \<and> s1 \<and> s2 \<and> s3 \<and> s4,
                 store_member r ''optimization_tolerances'' t4, l1 @ l2 @ l3 @ l4)"
  using m1 m2 m3 m4
  by (simp add: SanitizeOptimizationTolerances_def MakeDefaultObject_present[OF t]
        Value_member_present[OF t])

lemma SOT_absent:
  assumes n: "null_or_object r" and t: "member_of r ''optimization_tolerances'' = None"
    and nm: "nm = (if comment_tolerances \<noteq> []
                   then setComment nullSingleton (''//  '' @ comment_tolerances)
                          commentBefore
                   else nullSingleton)"
    and m1: "MakeDefault nm ''translation'' (DFloat (translation_tolerance opt))
               comment_translation = Some (s1, t1, l1)"
    and m2: "MakeDefault t1 ''rotation'' (DFloat (rotation_tolerance opt))
               comment_rotation = Some (s2, t2, l2)"
    and m3: "MakeDefault t2 ''scale'' (DFloat (scale_tolerance opt))
               comment_scale = Some (s3, t3, l3)"
    and m4: "MakeDefault t3 ''hierarchical'' (DFloat (hierarchical_tolerance opt))
               comment_hierarchical = Some (s4, t4, l4)"
  shows "SanitizeOptimizationTolerances opt r =
           Some (s1 \<and> s2 \<and> s3 \<and> s4,
                 store_member (add_member r ''optimization_tolerances'' nm)
                   ''optimization_tolerances'' t4,
                 l1 @ l2 @ l3 @ l4)"
proof -
  have mo: "MakeDefaultObject r ''optimization_tolerances'' comment_tolerances =
            Some (True, add_member r ''optimization_tolerances'' nm)"
    unfolding nm by (rule MakeDefaultObject_absent[OF n t])
  have "member_of (add_member r ''optimization_tolerances'' nm) ''optimization_tolerances''
        = Some nm"
    by (simp add: member_of_add_member[OF n t])
  from Value_member_present[OF this] mo m1 m2 m3 m4 show ?thesis
    by (simp add: SanitizeOptimizationTolerances_def)
qed

lemma SOT_spec:
  fixes r :: "'f Value"
  assumes A: "SanitizeOptimizationTolerances opt r = Some (ok, r', l)"
  shows "null_or_object r" and "isObject r'"
    and "\<And>k'. k' \<noteq> ''optimization_tolerances'' \<Longrightarrow> member_of r' k' = member_of r k'"
    and "ok = tolerances_ok r" and "ok \<Longrightarrow> has_tolerances r'"
proof -
  show n: "null_or_object r"
    using A MakeDefaultObject_crash[of r]
    by (cases "null_or_object r") (auto simp: SanitizeOptimizationTolerances_def)
  have all: "isObject r' \<and>
      (\<forall>k'. k' \<noteq> ''optimization_tolerances'' \<longrightarrow> member_of r' k' = member_of r k') \<and>
      ok = tolerances_ok r \<and> (ok \<longrightarrow> has_tolerances r')"
  proof (cases "member_of r ''optimization_tolerances''")
    case None
    define nm :: "'f Value" where
      "nm = (if comment_tolerances \<noteq> []
             then setComment nullSingleton (''//  '' @ comment_tolerances)
                    commentBefore
             else nullSingleton)"
    have nn: "null_or_object nm" and nk: "\<And>k. member_of nm k = None"
      unfolding nm_def by (rule null_member_facts)+
    from tolerance_defaults_total[OF nn, of opt] obtain s1 t1 l1 s2 t2 l2 s3 t3 l3 s4 t4 l4 where
      m: "MakeDefault nm ''translation'' (DFloat (translation_tolerance opt))
               comment_translation = Some (s1, t1, l1)"
         "MakeDefault t1 ''rotation'' (DFloat (rotation_tolerance opt))
               comment_rotation = Some (s2, t2, l2)"
         "MakeDefault t2 ''scale'' (DFloat (scale_tolerance opt))
               comment_scale = Some (s3, t3, l3)"
         "MakeDefault t3 ''hierarchical'' (DFloat (hierarchical_tolerance opt))
               comment_hierarchical = Some (s4, t4, l4)"
      by blast
    note f = four_defaults[OF m]
    from SOT_absent[OF n None nm_def m] A
    have ok: "ok = (s1 \<and> s2 \<and> s3 \<and> s4)"
      and r': "r' = store_member (add_member r ''optimization_tolerances'' nm)
                      ''optimization_tolerances'' t4"
      by simp_all
    have s: "s1 \<and> s2 \<and> s3 \<and> s4"
      using f(3) by (simp add: field_ok_def nk)
    have o: "isObject (add_member r ''optimization_tolerances'' nm)"
      by (rule isObject_add_member[OF n])
    show ?thesis
      using s f(4)[OF s] f(2) None ok
      by (simp add: r' isObject_store_member[OF o] member_of_store_member[OF o]
            member_of_add_member[OF n None] tolerances_ok_def has_tolerances_def)
  next
    case (Some t)
    have nt: "null_or_object t"
    proof (rule ccontr)
      assume "\<not> null_or_object t"
      then have "SanitizeOptimizationTolerances opt r = None"
        by (simp add: SanitizeOptimizationTolerances_def MakeDefaultObject_present[OF Some]
              Value_member_present[OF Some] MakeDefault_crash)
      with A show False by simp
    qed
    from tolerance_defaults_total[OF nt, of opt] obtain s1 t1 l1 s2 t2 l2 s3 t3 l3 s4 t4 l4 where
      m: "MakeDefault t ''translation'' (DFloat (translation_tolerance opt))
               comment_translation = Some (s1, t1, l1)"
         "MakeDefault t1 ''rotation'' (DFloat (rotation_tolerance opt))
               comment_rotation = Some (s2, t2, l2)"
         "MakeDefault t2 ''scale'' (DFloat (scale_tolerance opt))
               comment_scale = Some (s3, t3, l3)"
         "MakeDefault t3 ''hierarchical'' (DFloat (hierarchical_tolerance opt))
               comment_hierarchical = Some (s4, t4, l4)"
      by blast
    note f = four_defaults[OF m]
    from SOT_present[OF Some m] A
    have ok: "ok = (isObject t \<and> s1 \<and> s2 \<and> s3 \<and> s4)"
      and r': "r' = store_member r ''optimization_tolerances'' t4"
      by simp_all
    have o: "isObject r" by (rule member_of_object[OF Some])
    show ?thesis
      using f(3) f(4) f(2) Some ok
      by (auto simp: r' isObject_store_member[OF o] member_of_store_member[OF o]
            tolerances_ok_def has_tolerances_def)
  qed
  from all show "isObject r'" by simp
  from all show "\<And>k'. k' \<noteq> ''optimization_tolerances'' \<Longrightarrow> member_of r' k' = member_of r k'"
    by simp
  from all show "ok = tolerances_ok r" by simp
  from all show "ok \<Longrightarrow> has_tolerances r'" by simp
qed

lemma SOT_total:
  fixes r :: "'f Value"
  assumes n: "null_or_object r"
    and t: "case member_of r ''optimization_tolerances'' of
              None \<Rightarrow> True | Some t \<Rightarrow> null_or_object t"
  shows "\<exists>ok r' l. SanitizeOptimizationTolerances opt r = Some (ok, r', l)"
proof -
  define nm :: "'f Value" where
    "nm = (if comment_tolerances \<noteq> []
           then setComment nullSingleton (''//  '' @ comment_tolerances) commentBefore
           else nullSingleton)"
  have nn: "null_or_object nm"
    unfolding nm_def by (rule null_member_facts)
  define t0 where "t0 = (case member_of r ''optimization_tolerances'' of
                           None \<Rightarrow> nm | Some t \<Rightarrow> t)"
  have "null_or_object t0"
    using t nn by (simp add: t0_def split: option.splits)
  from tolerance_defaults_total[OF this, of opt] obtain s1 t1 l1 s2 t2 l2 s3 t3 l3 s4 t4 l4 where
    m: "MakeDefault t0 ''translation'' (DFloat (translation_tolerance opt))
          comment_translation = Some (s1, t1, l1)"
       "MakeDefault t1 ''rotation'' (DFloat (rotation_tolerance opt))
          comment_rotation = Some (s2, t2, l2)"
       "MakeDefault t2 ''scale'' (DFloat (scale_tolerance opt))
          comment_scale = Some (s3, t3, l3)"
       "MakeDefault t3 ''hierarchical'' (DFloat (hierarchical_tolerance opt))
          comment_hierarchical = Some (s4, t4, l4)"
    by blast
  show ?thesis
  proof (cases "member_of r ''optimization_tolerances''")
    case None
    then have "t0 = nm" by (simp add: t0_def)
    from SOT_absent[OF n None nm_def m[unfolded this]] show ?thesis by blast
  next
    case (Some t')
    then have "t0 = t'" by (simp add: t0_def)
    from SOT_present[OF Some m[unfolded this]] show ?thesis by blast
  qed
qed

lemma SOT_stable:
  assumes "has_tolerances r"
  shows "SanitizeOptimizationTolerances opt r = Some (True, r, [])"
proof -
  from assms obtain t where t: "member_of r ''optimization_tolerances'' = Some t"
    and o: "isObject t"
    and h: "has_field t ''translation'' realValue" "has_field t ''rotation'' realValue"
      "has_field t ''scale'' realValue" "has_field t ''hierarchical'' realValue"
    by (auto simp: has_tolerances_def split: option.splits)
  have m: "MakeDefault t ''translation'' (DFloat (translation_tolerance opt))
             comment_translation = Some (True, t, [])"
       "MakeDefault t ''rotation'' (DFloat (rotation_tolerance opt))
             comment_rotation = Some (True, t, [])"
       "MakeDefault t ''scale'' (DFloat (scale_tolerance opt))
             comment_scale = Some (True, t, [])"
       "MakeDefault t ''hierarchical'' (DFloat (hierarchical_tolerance opt))
             comment_hierarchical = Some (True, t, [])"
    by (simp_all add: MakeDefault_stable h)
  have "SanitizeOptimizationTolerances opt r =
          Some (isObject t \<and> True \<and> True \<and> True \<and> True,
                store_member r ''optimization_tolerances'' t, [] @ [] @ [] @ [])"
    by (rule SOT_present[OF t m])
  with o show ?thesis by (simp add: store_member_same[OF t])
qed

lemma SanitizeAnimation_steps:
  assumes "SanitizeAnimation opt e = Some (ok, e', l)"
  shows "\<exists>s0 r1 l0 s1 r2 l1 s2 r3 l2 s3 r4 l3 s4 l4.
    MakeDefault e ''output'' (DString ''*.ozz'') comment_output = Some (s0, r1, l0) \<and>
    MakeDefault r1 ''optimize'' (DBool True) comment_optimize = Some (s1, r2, l1) \<and>
    SanitizeOptimizationTolerances opt r2 = Some (s2, r3, l2) \<and>
    MakeDefault r3 ''raw'' (DBool False) comment_raw = Some (s3, r4, l3) \<and>
    MakeDefault r4 ''additive'' (DBool False) comment_additive = Some (s4, e', l4) \<and>
    ok = (s0 \<and> s1 \<and> s2 \<and> s3 \<and> s4) \<and> l = l0 @ l1 @ l2 @ l3 @ l4"
  using assms
  by (clarsimp simp: SanitizeAnimation_def bind_eq_Some_conv)

lemma SanitizeAnimation_compose:
  assumes "MakeDefault e ''output'' (DString ''*.ozz'') comment_output = Some (s0, r1, l0)"
    "MakeDefault r1 ''optimize'' (DBool True) comment_optimize = Some (s1, r2, l1)"
    "SanitizeOptimizationTolerances opt r2 = Some (s2, r3, l2)"
    "MakeDefault r3 ''raw'' (DBool False) comment_raw = Some (s3, r4, l3)"
    "MakeDefault r4 ''additive'' (DBool False) comment_additive = Some (s4, r5, l4)"
  shows "SanitizeAnimation opt e =
           Some (s0 \<and> s1 \<and> s2 \<and> s3 \<and> s4, r5, l0 @ l1 @ l2 @ l3 @ l4)"
  using assms by (simp add: SanitizeAnimation_def)

lemma tolerances_ok_frame:
  "member_of a ''optimization_tolerances'' = member_of b ''optimization_tolerances'' \<Longrightarrow>
   tolerances_ok a = tolerances_ok b"
  by (simp add: tolerances_ok_def)

lemma has_tolerances_frame:
  "member_of a ''optimization_tolerances'' = member_of b ''optimization_tolerances'' \<Longrightarrow>
   has_tolerances a = has_tolerances b"
  by (simp add: has_tolerances_def)

lemma SanitizeAnimation_spec:
  assumes A: "SanitizeAnimation opt e = Some (ok, e', l)"
  shows "ok = animation_ok e" and "ok \<Longrightarrow> sanitized_animation e'" and "isObject e'"
proof -
  from A obtain s0 r1 l0 s1 r2 l1 s2 r3 l2 s3 r4 l3 s4 l4 where
    m0: "MakeDefault e ''output'' (DString ''*.ozz'') comment_output = Some (s0, r1, l0)"
    and m1: "MakeDefault r1 ''optimize'' (DBool True) comment_optimize = Some (s1, r2, l1)"
    and m2: "SanitizeOptimizationTolerances opt r2 = Some (s2, r3, l2)"
    and m3: "MakeDefault r3 ''raw'' (DBool False) comment_raw = Some (s3, r4, l3)"
    and m4: "MakeDefault r4 ''additive'' (DBool False) comment_additive = Some (s4, e', l4)"
    and ok: "ok = (s0 \<and> s1 \<and> s2 \<and> s3 \<and> s4)"
    using SanitizeAnimation_steps[OF A] by blast
  note a = MakeDefault_spec[OF m0] and b = MakeDefault_spec[OF m1] and c = SOT_spec[OF m2]
    and d = MakeDefault_spec[OF m3] and f = MakeDefault_spec[OF m4]
  have g1: "field_ok r1 ''optimize'' booleanValue = field_ok e ''optimize'' booleanValue"
    by (rule field_ok_frame) (simp add: a(3))
  have g2: "tolerances_ok r2 = tolerances_ok e"
    by (rule tolerances_ok_frame) (simp add: a(3) b(3))
  have g3: "field_ok r3 ''raw'' booleanValue = field_ok e ''raw'' booleanValue"
    by (rule field_ok_frame) (simp add: a(3) b(3) c(3))
  have g4: "field_ok r4 ''additive'' booleanValue = field_ok e ''additive'' booleanValue"
    by (rule field_ok_frame) (simp add: a(3) b(3) c(3) d(3))
  show "ok = animation_ok e"
    using ok a(1) a(4) b(4) c(4) d(4) f(4) g1 g2 g3 g4 by (simp add: animation_ok_def)
  show "isObject e'" by (rule f(2))
  assume "ok"
  with ok have s: s0 s1 s2 s3 s4 by simp_all
  have h0: "has_field e' ''output'' stringValue = has_field r1 ''output'' stringValue"
    by (rule has_field_frame) (simp add: b(3) c(3) d(3) f(3))
  have h1: "has_field e' ''optimize'' booleanValue = has_field r2 ''optimize'' booleanValue"
    by (rule has_field_frame) (simp add: c(3) d(3) f(3))
  have h2: "has_tolerances e' = has_tolerances r3"
    by (rule has_tolerances_frame) (simp add: d(3) f(3))
  have h3: "has_field e' ''raw'' booleanValue = has_field r4 ''raw'' booleanValue"
    by (rule has_field_frame) (simp add: f(3))
  show "sanitized_animation e'"
    using a(5)[OF s(1)] b(5)[OF s(2)] c(5)[OF s(3)] d(5)[OF s(4)] f(5)[OF s(5)] f(2)
      h0 h1 h2 h3
    by (simp add: sanitized_animation_def)
qed

lemma SanitizeAnimation_stable:
  assumes "sanitized_animation e"
  shows "SanitizeAnimation opt e = Some (True, e, [])"
proof -
  from assms have h: "has_field e ''output'' stringValue"
    "has_field e ''optimize'' booleanValue" "has_tolerances e"
    "has_field e ''raw'' booleanValue" "has_field e ''additive'' booleanValue"
    by (simp_all add: sanitized_animation_def)
  have m: "MakeDefault e ''output'' (DString ''*.ozz'') comment_output = Some (True, e, [])"
    "MakeDefault e ''optimize'' (DBool True) comment_optimize = Some (True, e, [])"
    "SanitizeOptimizationTolerances opt e = Some (True, e, [])"
    "MakeDefault e ''raw'' (DBool False) comment_raw = Some (True, e, [])"
    "MakeDefault e ''additive'' (DBool False) comment_additive = Some (True, e, [])"
    by (simp_all add: MakeDefault_stable SOT_stable h)
  from SanitizeAnimation_compose[OF m] show ?thesis by simp
qed

lemma SanitizeAnimation_total:
  assumes "animation_ok e"
  shows "\<exists>e' l. SanitizeAnimation opt e = Some (True, e', l)"
proof -
  from assms have n: "null_or_object e" and t: "tolerances_ok e"
    by (simp_all add: animation_ok_def)
  from MakeDefault_total[OF n] obtain s0 r1 l0 where
    m0: "MakeDefault e ''output'' (DString ''*.ozz'') comment_output = Some (s0, r1, l0)"
    by blast
  note a = MakeDefault_spec[OF m0]
  from MakeDefault_total[OF isObject_null_or_object[OF a(2)]] obtain s1 r2 l1 where
    m1: "MakeDefault r1 ''optimize'' (DBool True) comment_optimize = Some (s1, r2, l1)"
    by blast
  note b = MakeDefault_spec[OF m1]
  have "member_of r2 ''optimization_tolerances'' = member_of e ''optimization_tolerances''"
    by (simp add: a(3) b(3))
  with t have "case member_of r2 ''optimization_tolerances'' of
                 None \<Rightarrow> True | Some t \<Rightarrow> null_or_object t"
    by (auto simp: tolerances_ok_def isObject_null_or_object split: option.splits)
  from SOT_total[OF isObject_null_or_object[OF b(2)] this] obtain s2 r3 l2 where
    m2: "SanitizeOptimizationTolerances opt r2 = Some (s2, r3, l2)"
    by blast
  note c = SOT_spec[OF m2]
  from MakeDefault_total[OF isObject_null_or_object[OF c(2)]] obtain s3 r4 l3 where
    m3: "MakeDefault r3 ''raw'' (DBool False) comment_raw = Some (s3, r4, l3)"
    by blast
  note d = MakeDefault_spec[OF m3]
  from MakeDefault_total[OF isObject_null_or_object[OF d(2)]] obtain s4 r5 l4 where
    m4: "MakeDefault r4 ''additive'' (DBool False) comment_additive = Some (s4, r5, l4)"
    by blast
  note r = SanitizeAnimation_compose[OF m0 m1 m2 m3 m4]
  from SanitizeAnimation_spec(1)[OF r] assms have "s0 \<and> s1 \<and> s2 \<and> s3 \<and> s4"
    by simp
  with r show ?thesis by simp
qed

lemma entry0_Some:
  assumes "entry0 a = Some e"
  shows "Value_index0 a = Some (a, e)" and "0 < Value_size a" and "isArray a"
  using assms
  by (simp_all add: entry0_def Value_index0_def Value_size_def isArray_def Value_type_def
      split: Payload.splits list.splits)

lemma entry0_None_array: "isArray a \<Longrightarrow> entry0 a = None \<Longrightarrow> Value_size a = 0"
  by (simp add: entry0_def Value_size_def isArray_def Value_type_def
      split: Payload.splits list.splits)

lemma not_array_index0: "\<not> isArray a \<Longrightarrow> 0 < Value_size a \<Longrightarrow> Value_index0 a = None"
  by (simp add: Value_index0_def Value_size_def isArray_def Value_type_def
      split: Payload.splits)

lemma not_array_entry0: "\<not> isArray a \<Longrightarrow> entry0 a = None"
  by (simp add: entry0_def isArray_def Value_type_def split: Payload.splits list.splits)

lemma store_index0_entry:
  assumes "entry0 a = Some e"
  shows "entry0 (store_index0 a e1) = Some e1" and "isArray (store_index0 a e1)"
    and "store_index0 a e = a"
  using assms
  by (cases a; simp add: entry0_def store_index0_def isArray_def Value_type_def
      split: Payload.splits list.splits)+

lemma size0_entry0: "Value_size a = 0 \<Longrightarrow> entry0 a = None"
  by (simp add: entry0_def Value_size_def split: Payload.splits list.splits)

lemma index0_nonempty:
  assumes "0 < Value_size a" and "Value_index0 a = Some (a1, e)"
  shows "entry0 a = Some e" and "a1 = a"
  using assms
  by (simp_all add: entry0_def Value_index0_def Value_size_def
      split: Payload.splits list.splits)

lemma Value_size_store_index0: "Value_size (store_index0 a e) = Value_size a"
  by (simp add: Value_size_def store_index0_def split: Payload.splits)

lemma Sanitize_loop_done:
  "\<not> i < Value_size a \<Longrightarrow> Sanitize_loop opt i s a l = Some (s, a, l)"
  by (subst Sanitize_loop.simps) simp

lemma Sanitize_loop_step:
  "i < Value_size a \<Longrightarrow> Value_index0 a = Some (a1, e) \<Longrightarrow>
   SanitizeAnimation opt e = Some (sf, e1, l1) \<Longrightarrow>
   Sanitize_loop opt i s a l =
     Sanitize_loop opt (i + 1) (s \<and> sf) (store_index0 a1 e1) (l @ l1)"
  by (subst Sanitize_loop.simps) simp

lemma Sanitize_loop_Some:
  "i < Value_size a \<Longrightarrow> Sanitize_loop opt i s a l = Some r \<Longrightarrow>
   \<exists>a1 e sf e1 l1. Value_index0 a = Some (a1, e) \<and>
                    SanitizeAnimation opt e = Some (sf, e1, l1)"
  by (subst (asm) Sanitize_loop.simps) (auto split: option.splits)

text \<open>Once \<open>animations[0]\<close> is sanitized the loop changes nothing more.\<close>

lemma Sanitize_loop_stable:
  assumes arr: "isArray a"
    and san: "case entry0 a of None \<Rightarrow> True | Some e \<Rightarrow> sanitized_animation e"
  shows "Sanitize_loop opt i s a l = Some (s, a, l)"
proof (induction "Value_size a - i" arbitrary: i s l)
  case 0
  then show ?case by (simp add: Sanitize_loop_done)
next
  case (Suc n)
  then have lt: "i < Value_size a" by simp
  with entry0_None_array[OF arr] obtain e where e: "entry0 a = Some e"
    by (cases "entry0 a") auto
  with san have "sanitized_animation e" by simp
  note st = SanitizeAnimation_stable[OF this, of opt]
  from Suc.hyps(2) have "n = Value_size a - (i + 1)" by simp
  from Suc.hyps(1)[OF this] have "Sanitize_loop opt (i + 1) s a l = Some (s, a, l)" .
  then show ?case
    using Sanitize_loop_step[OF lt entry0_Some(1)[OF e] st, of s l]
    by (simp add: store_index0_entry(3)[OF e])
qed

text \<open>The flag of the loop never turns from false to true.\<close>

lemma Sanitize_loop_flag:
  "Sanitize_loop opt i s a l = Some (ok, a', l') \<Longrightarrow> ok \<Longrightarrow> s"
proof (induction "Value_size a - i" arbitrary: i s a l)
  case 0
  then show ?case by (simp add: Sanitize_loop_done)
next
  case (Suc n)
  then have lt: "i < Value_size a" by simp
  from Sanitize_loop_Some[OF lt Suc.prems(1)] obtain a1 e sf e1 l1
    where ix: "Value_index0 a = Some (a1, e)"
      and sa: "SanitizeAnimation opt e = Some (sf, e1, l1)" by blast
  from lt have "0 < Value_size a" by simp
  from index0_nonempty(2)[OF this ix] have a1: "a1 = a" .
  have "n = Value_size (store_index0 a1 e1) - (i + 1)"
    using Suc.hyps(2) by (simp add: a1 Value_size_store_index0)
  note IH = Suc.hyps(1)[OF this]
  from Suc.prems(1) Sanitize_loop_step[OF lt ix sa, of s l]
  have "Sanitize_loop opt (i + 1) (s \<and> sf) (store_index0 a1 e1) (l @ l1) = Some (ok, a', l')"
    by simp
  from IH[OF this Suc.prems(2)] show ?case by simp
qed

lemma Sanitize_loop_spec:
  assumes A: "Sanitize_loop opt 0 s0 a [] = Some (ok, a', l')"
  shows "ok = (s0 \<and> (case entry0 a of None \<Rightarrow> True | Some e \<Rightarrow> animation_ok e))"
    and "ok \<Longrightarrow> isArray a \<Longrightarrow>
         isArray a' \<and> (case entry0 a' of None \<Rightarrow> True | Some e \<Rightarrow> sanitized_animation e)"
proof -
  have "ok = (s0 \<and> (case entry0 a of None \<Rightarrow> True | Some e \<Rightarrow> animation_ok e)) \<and>
        (ok \<longrightarrow> isArray a \<longrightarrow>
         isArray a' \<and> (case entry0 a' of None \<Rightarrow> True | Some e \<Rightarrow> sanitized_animation e))"
  proof (cases "0 < Value_size a")
    case False
    with A have "ok = s0" "a' = a" by (simp_all add: Sanitize_loop_done)
    moreover from False have "entry0 a = None" by (simp add: size0_entry0)
    ultimately show ?thesis by simp
  next
    case True
    from Sanitize_loop_Some[OF True A] obtain a1 e sf e1 l1
      where ix: "Value_index0 a = Some (a1, e)"
        and sa: "SanitizeAnimation opt e = Some (sf, e1, l1)" by blast
    note e = index0_nonempty[OF True ix]
    from A Sanitize_loop_step[OF True ix sa, of s0 "[]"]
    have rest: "Sanitize_loop opt 1 (s0 \<and> sf) (store_index0 a e1) l1 = Some (ok, a', l')"
      by (simp add: e(2))
    note sp = SanitizeAnimation_spec[OF sa]
    show ?thesis
    proof (cases sf)
      case True
      with sp(2) have "sanitized_animation e1" by simp
      with store_index0_entry(1,2)[OF e(1), of e1]
      have "Sanitize_loop opt 1 (s0 \<and> sf) (store_index0 a e1) l1 =
              Some (s0 \<and> sf, store_index0 a e1, l1)"
        by (intro Sanitize_loop_stable) simp_all
      with rest True have "ok = s0" "a' = store_index0 a e1" by simp_all
      with True sp(1) e(1) \<open>sanitized_animation e1\<close> store_index0_entry(1,2)[OF e(1), of e1]
      show ?thesis by simp
    next
      case False
      with Sanitize_loop_flag[OF rest] have "\<not> ok" by auto
      with False sp(1) e(1) show ?thesis by simp
    qed
  qed
  then show "ok = (s0 \<and> (case entry0 a of None \<Rightarrow> True | Some e \<Rightarrow> animation_ok e))"
    and "ok \<Longrightarrow> isArray a \<Longrightarrow>
         isArray a' \<and> (case entry0 a' of None \<Rightarrow> True | Some e \<Rightarrow> sanitized_animation e)"
    by simp_all
qed

lemma Sanitize_loop_total:
  assumes arr: "isArray a"
    and ok: "case entry0 a of None \<Rightarrow> True | Some e \<Rightarrow> animation_ok e"
  shows "\<exists>a' l'. Sanitize_loop opt 0 s0 a [] = Some (s0, a', l')"
proof (cases "entry0 a")
  case None
  from entry0_None_array[OF arr None] show ?thesis by (simp add: Sanitize_loop_done)
next
  case (Some e)
  with ok have "animation_ok e" by simp
  from SanitizeAnimation_total[OF this, of opt] obtain e1 l1
    where sa: "SanitizeAnimation opt e = Some (True, e1, l1)" by blast
  from SanitizeAnimation_spec(2)[OF sa] have "sanitized_animation e1" by simp
  with store_index0_entry(1,2)[OF Some, of e1]
  have "Sanitize_loop opt 1 (s0 \<and> True) (store_index0 a e1) ([] @ l1) =
          Some (s0 \<and> True, store_index0 a e1, [] @ l1)"
    by (intro Sanitize_loop_stable) simp_all
  with Sanitize_loop_step[OF entry0_Some(2)[OF Some] entry0_Some(1)[OF Some] sa, of s0 "[]"]
  show ?thesis by simp
qed

lemma Sanitize_compose:
  "MakeDefaultArray t ''animations'' comment_animations = Some (s0, t1) \<Longrightarrow>
   Value_member t1 ''animations'' = Some (t2, a) \<Longrightarrow>
   Sanitize_loop opt 0 s0 a [] = Some (s, a1, l) \<Longrightarrow>
   Sanitize opt t = Some (s, store_member t2 ''animations'' a1, l)"
  by (simp add: Sanitize_def)

lemma Sanitize_steps:
  "MakeDefaultArray t ''animations'' comment_animations = Some (s0, t1) \<Longrightarrow>
   Value_member t1 ''animations'' = Some (t2, a) \<Longrightarrow>
   Sanitize opt t = Some (ok, t', l) \<Longrightarrow>
   \<exists>a1. Sanitize_loop opt 0 s0 a [] = Some (ok, a1, l) \<and>
        t' = store_member t2 ''animations'' a1"
  by (clarsimp simp: Sanitize_def bind_eq_Some_conv)

lemma default_array_facts:
  fixes am :: "'f Value"
  assumes "am = (if c \<noteq> [] then setComment (Value (ArrayV [nullSingleton]) []) x commentBefore
                 else Value (ArrayV [nullSingleton]) [])"
  shows "isArray am" and "entry0 am = Some nullSingleton"
  using assms
  by (simp_all add: isArray_def Value_type_def entry0_def setComment_def)

lemma animation_ok_null: "animation_ok nullSingleton"
  by (simp add: animation_ok_def null_or_object_def nullSingleton_def field_ok_def
        tolerances_ok_def member_of_def)

text \<open>
  The two ways \<^verbatim>\<open>Sanitize\<close> starts: without a member \<^verbatim>\<open>animations\<close> (the default
  array is inserted), and with one.
\<close>

lemma Sanitize_start:
  fixes t :: "'f Value"
  assumes n: "null_or_object t"
  shows "\<exists>s0 t1 a. MakeDefaultArray t ''animations'' comment_animations = Some (s0, t1) \<and>
           Value_member t1 ''animations'' = Some (t1, a) \<and> isObject t1 \<and>
           (case member_of t ''animations'' of
              None \<Rightarrow> s0 \<and> isArray a \<and> entry0 a = Some nullSingleton
            | Some a0 \<Rightarrow> a = a0 \<and> t1 = t \<and> s0 = isArray a0)"
proof (cases "member_of t ''animations''")
  case None
  define am :: "'f Value" where
    "am = (if comment_animations \<noteq> []
           then setComment (Value (ArrayV [nullSingleton]) []) (''//  '' @ comment_animations)
                  commentBefore
           else Value (ArrayV [nullSingleton]) [])"
  have mo: "MakeDefaultArray t ''animations'' comment_animations =
            Some (True, add_member t ''animations'' am)"
    unfolding am_def by (rule MakeDefaultArray_absent[OF n None])
  have "member_of (add_member t ''animations'' am) ''animations'' = Some am"
    by (simp add: member_of_add_member[OF n None])
  from Value_member_present[OF this] mo default_array_facts[OF am_def]
    isObject_add_member[OF n, of "''animations''" am] None
  show ?thesis by auto
next
  case (Some a0)
  from MakeDefaultArray_present[OF Some] Value_member_present[OF Some] member_of_object[OF Some]
  show ?thesis by (simp add: Some)
qed

lemma Sanitize_spec:
  assumes A: "Sanitize opt t = Some (ok, t', l)"
  shows "ok = applied_rules_ok t" and "ok \<Longrightarrow> sanitized_config t'"
proof -
  have n: "null_or_object t"
    using A MakeDefaultArray_crash[of t]
    by (cases "null_or_object t") (auto simp: Sanitize_def)
  from Sanitize_start[OF n] obtain s0 t1 a where
    mo: "MakeDefaultArray t ''animations'' comment_animations = Some (s0, t1)"
    and vm: "Value_member t1 ''animations'' = Some (t1, a)" and o: "isObject t1"
    and c: "case member_of t ''animations'' of
              None \<Rightarrow> s0 \<and> isArray a \<and> entry0 a = Some nullSingleton
            | Some a0 \<Rightarrow> a = a0 \<and> t1 = t \<and> s0 = isArray a0"
    by blast
  from Sanitize_steps[OF mo vm A] obtain a1
    where lp: "Sanitize_loop opt 0 s0 a [] = Some (ok, a1, l)"
      and t': "t' = store_member t1 ''animations'' a1" by blast
  note sp = Sanitize_loop_spec[OF lp]
  have arr: "s0 \<Longrightarrow> isArray a"
    using c by (simp split: option.splits)
  have okc: "ok = applied_rules_ok t"
    using sp(1) c n
    by (auto simp: applied_rules_ok_def animation_ok_null not_array_entry0 split: option.splits)
  then show "ok = applied_rules_ok t" .
  assume ok
  with sp(1) have s0 by simp
  from sp(2)[OF \<open>ok\<close> arr[OF this]] show "sanitized_config t'"
    by (simp add: sanitized_config_def t' member_of_store_member[OF o])
qed

lemma Sanitize_total:
  assumes "applied_rules_ok t"
  shows "\<exists>t' l. Sanitize opt t = Some (True, t', l)"
proof -
  from assms have n: "null_or_object t" by (simp add: applied_rules_ok_def)
  from Sanitize_start[OF n] obtain s0 t1 a where
    mo: "MakeDefaultArray t ''animations'' comment_animations = Some (s0, t1)"
    and vm: "Value_member t1 ''animations'' = Some (t1, a)"
    and c: "case member_of t ''animations'' of
              None \<Rightarrow> s0 \<and> isArray a \<and> entry0 a = Some nullSingleton
            | Some a0 \<Rightarrow> a = a0 \<and> t1 = t \<and> s0 = isArray a0"
    by blast
  from c assms have s0: s0 and arr: "isArray a"
    and e: "case entry0 a of None \<Rightarrow> True | Some e \<Rightarrow> animation_ok e"
    by (auto simp: applied_rules_ok_def animation_ok_null split: option.splits)
  from Sanitize_loop_total[OF arr e, of opt s0] obtain a' l'
    where "Sanitize_loop opt 0 s0 a [] = Some (s0, a', l')" by blast
  from Sanitize_compose[OF mo vm this] s0 show ?thesis by simp
qed

lemma Sanitize_stable:
  assumes "sanitized_config t"
  shows "Sanitize opt t = Some (True, t, [])"
proof -
  from assms obtain a where a: "member_of t ''animations'' = Some a" and arr: "isArray a"
    and e: "case entry0 a of None \<Rightarrow> True | Some e \<Rightarrow> sanitized_animation e"
    by (auto simp: sanitized_config_def split: option.splits)
  have "Sanitize_loop opt 0 (isArray a) a [] = Some (isArray a, a, [])"
    by (rule Sanitize_loop_stable[OF arr e])
  from Sanitize_compose[OF MakeDefaultArray_present[OF a] Value_member_present[OF a] this] arr
  show ?thesis by (simp add: store_member_same[OF a])
qed

text \<open>
  C2. The claim: after a successful sanitization every entry \<^verbatim>\<open>animations[i]\<close>, for
  every index \<open>i\<close> and not only 0, holds every recognized field with its type. The
  loop of \<^verbatim>\<open>Sanitize\<close> counts \<open>i\<close> over the array and sanitizes \<^verbatim>\<open>animations[0]\<close> at
  every turn: with two entries the second one is left as it was, empty, or with an
  \<^verbatim>\<open>optimize\<close> that is a string, and sanitization succeeds all the same. (For the
  entry 0 the invariant holds: \<open>Sanitize_spec\<close>.)
\<close>

theorem C2_only_first_entry_sanitized:
  "map_option (\<lambda>(ok, t, l). (ok, animations_entry t 1))
     (Sanitize demo_optimizer (JObject [(''animations'', JArray [JObject [], JObject []])]))
   = Some (True, Some (JObject [])) \<and>
   map_option (\<lambda>(ok, t, l). (ok, animations_entry t 1))
     (Sanitize demo_optimizer
        (JObject [(''animations'',
                   JArray [JObject [], JObject [(''optimize'', JString ''yes'')]])]))
   = Some (True, Some (JObject [(''optimize'', JString ''yes'')]))"
  by code_simp

lemma AnimationConverter_not_sanitized:
  assumes "ParseCommandLine E = kSuccess"
    and "json_parse E (OPTIONS_config_string E) = Inr config"
    and "Sanitize (default_optimizer E) config = Some (False, config', msgs)"
  shows "AnimationConverter E w =
           Some (EXIT_FAILURE,
                 say Err [Str ''Invalid configuration.'']
                   (say_all msgs (say Log [Str ''Config: '', Str (OPTIONS_config_string E)] w)))"
  using assms by (simp add: AnimationConverter_def Let_def)

lemma AnimationConverter_sanitize_crash:
  assumes "ParseCommandLine E = kSuccess"
    and "json_parse E (OPTIONS_config_string E) = Inr config"
    and "Sanitize (default_optimizer E) config = None"
  shows "AnimationConverter E w = None"
  using assms by (simp add: AnimationConverter_def Let_def)

text \<open>
  What does hold of the sanitizer's verdict: \<^verbatim>\<open>Sanitize\<close> succeeds exactly when the
  rules it applies succeed, and the flag it returns is their conjunction; an
  \<^verbatim>\<open>optimize\<close> of the wrong type in \<^verbatim>\<open>animations[0]\<close> makes it fail; after a failed
  sanitization the converter returns \<^verbatim>\<open>EXIT_FAILURE\<close> having done no more than log.
  Every tree that satisfies all the rules of the table satisfies the rules applied.
\<close>

lemma Sanitize_succeeds_iff_applied_rules:
  "((\<exists>t' l. Sanitize opt t = Some (True, t', l)) \<longleftrightarrow> applied_rules_ok t) \<and>
   (\<forall>ok t' l. Sanitize opt t = Some (ok, t', l) \<longrightarrow> ok = applied_rules_ok t) \<and>
   (\<forall>a e f. member_of t ''animations'' = Some a \<longrightarrow> entry0 a = Some e \<longrightarrow>
            member_of e ''optimize'' = Some f \<longrightarrow> Value_type f \<noteq> booleanValue \<longrightarrow>
            (\<forall>t' l. Sanitize opt t \<noteq> Some (True, t', l))) \<and>
   map_option fst
     (Sanitize demo_optimizer
        (JObject [(''animations'', JArray [JObject [(''optimize'', JString ''yes'')]])]))
   = Some False \<and>
   (ParseCommandLine E = kSuccess \<longrightarrow>
    json_parse E (OPTIONS_config_string E) = Inr config \<longrightarrow>
    Sanitize (default_optimizer E) config = Some (False, config', msgs) \<longrightarrow>
    AnimationConverter E w =
      Some (EXIT_FAILURE,
            say Err [Str ''Invalid configuration.'']
              (say_all msgs (say Log [Str ''Config: '', Str (OPTIONS_config_string E)] w)))) \<and>
   (ParseCommandLine E = kSuccess \<longrightarrow>
    json_parse E (OPTIONS_config_string E) = Inr config \<longrightarrow>
    Sanitize (default_optimizer E) config = None \<longrightarrow>
    AnimationConverter E w = None)"
proof -
  have iff: "(\<exists>t' l. Sanitize opt t = Some (True, t', l)) \<longleftrightarrow> applied_rules_ok t"
    using Sanitize_total[of t opt] Sanitize_spec(1)[of opt t True] by blast
  have flag: "\<forall>ok t' l. Sanitize opt t = Some (ok, t', l) \<longrightarrow> ok = applied_rules_ok t"
    using Sanitize_spec(1)[of opt t] by blast
  have wrong: "\<forall>a e f. member_of t ''animations'' = Some a \<longrightarrow> entry0 a = Some e \<longrightarrow>
            member_of e ''optimize'' = Some f \<longrightarrow> Value_type f \<noteq> booleanValue \<longrightarrow>
            (\<forall>t' l. Sanitize opt t \<noteq> Some (True, t', l))"
  proof (intro allI impI)
    fix a e f t' l
    assume "member_of t ''animations'' = Some a" "entry0 a = Some e"
      "member_of e ''optimize'' = Some f" "Value_type f \<noteq> booleanValue"
    then have "\<not> applied_rules_ok t"
      by (simp add: applied_rules_ok_def animation_ok_def field_ok_def)
    with flag show "Sanitize opt t \<noteq> Some (True, t', l)" by blast
  qed
  have ex: "map_option fst
     (Sanitize demo_optimizer
        (JObject [(''animations'', JArray [JObject [(''optimize'', JString ''yes'')]])]))
   = Some False"
    by code_simp
  from iff flag wrong ex AnimationConverter_not_sanitized[of E config config' msgs w]
    AnimationConverter_sanitize_crash[of E config w]
  show ?thesis by blast
qed

lemma config_ok_applied_rules: "config_ok t \<Longrightarrow> applied_rules_ok t"
  by (auto simp: config_ok_def applied_rules_ok_def entry0_def entries_of_def
      split: option.splits Payload.splits list.splits)

text \<open>
  C4. The claim: sanitization succeeds exactly when every rule of the table of
  recognized fields succeeds, so that a recognized field of the wrong type, as an
  \<^verbatim>\<open>optimize\<close> that holds the string \<^verbatim>\<open>yes\<close>, makes it fail, and the pipeline then
  stops. In the configuration \<^verbatim>\<open>{"animations":[{},{"optimize":"yes"}]}\<close> the rule of
  \<^verbatim>\<open>animations[1].optimize\<close> fails, so \<open>config_ok\<close> does not hold; and yet
  \<^verbatim>\<open>Sanitize\<close> returns true and the converter goes on to import and export: it returns
  \<^verbatim>\<open>EXIT_SUCCESS\<close> and has written \<^verbatim>\<open>jump.ozz\<close>. The cause is that of C2: the loop of
  \<^verbatim>\<open>Sanitize\<close> applies the rules to \<^verbatim>\<open>animations[0]\<close> at every turn.
\<close>

theorem C4_wrong_type_beyond_first_entry_accepted:
  "\<not> config_ok
       (JObject [(''animations'',
                  JArray [JObject [], JObject [(''optimize'', JString ''yes'')]])]) \<and>
   map_option fst
     (Sanitize demo_optimizer
        (JObject [(''animations'',
                   JArray [JObject [], JObject [(''optimize'', JString ''yes'')]])]))
   = Some True \<and>
   map_option (\<lambda>(status, w). (status, disk w ''jump.ozz''))
     (AnimationConverter
        (demo_env ''native''
           (JObject [(''animations'',
                      JArray [JObject [], JObject [(''optimize'', JString ''yes'')]])])
           [demo_animation ''jump''])
        empty_world)
   = Some (EXIT_SUCCESS,
           Some (ArchiveFile kLittleEndian (AnimationObject (demo_animation ''jump''))))"
proof -
  let ?bad = "JObject [(''animations'',
                        JArray [JObject [], JObject [(''optimize'', JString ''yes'')]])]"
  have a: "\<not> config_ok ?bad"
    by code_simp
  have b: "map_option fst (Sanitize demo_optimizer ?bad) = Some True"
    by code_simp
  have c: "map_option (\<lambda>(status, w). (status, disk w ''jump.ozz''))
             (AnimationConverter (demo_env ''native'' ?bad [demo_animation ''jump''])
                empty_world)
           = Some (EXIT_SUCCESS,
                   Some (ArchiveFile kLittleEndian (AnimationObject (demo_animation ''jump''))))"
    by code_simp
  show ?thesis by (rule conjI[OF a conjI[OF b c]])
qed

text \<open>
  C5. Sanitization is idempotent: sanitizing the tree a successful sanitization has
  produced succeeds, returns the very same tree, comments included, and reports nothing.
\<close>

theorem C5_Sanitize_idempotent:
  "Sanitize opt t = Some (True, t', l) \<Longrightarrow> Sanitize opt t' = Some (True, t', [])"
  by (rule Sanitize_stable) (rule Sanitize_spec(2), assumption, simp)

theorem C5_Sanitize_idempotent_witness:
  "\<exists>t' l. Sanitize demo_optimizer (JObject []) = Some (True, t', l) \<and>
          Sanitize demo_optimizer t' = Some (True, t', [])"
proof -
  have "map_option fst (Sanitize demo_optimizer (JObject [])) = Some True"
    by code_simp
  then obtain t' l where h: "Sanitize demo_optimizer (JObject []) = Some (True, t', l)"
    by (cases "Sanitize demo_optimizer (JObject [])") auto
  from C5_Sanitize_idempotent[OF h] h show ?thesis by blast
qed

section \<open>File names\<close>

lemma string_find_None: "string_find s c = None \<longleftrightarrow> c \<notin> set s"
  by (induction s) auto

lemma string_find_Some:
  "string_find s c = Some i \<Longrightarrow>
     s = take i s @ c # drop (Suc i) s \<and> c \<notin> set (take i s) \<and> i < length s"
proof (induction s arbitrary: i)
  case Nil
  then show ?case by simp
next
  case (Cons x xs)
  show ?case
  proof (cases "x = c")
    case True
    with Cons.prems show ?thesis by simp
  next
    case False
    with Cons.prems obtain j where j: "string_find xs c = Some j" "i = Suc j"
      by auto
    from Cons.IH[OF j(1)] False j(2) show ?thesis by auto
  qed
qed

lemma replace_wildcards_plain: "CHR ''*'' \<notin> set s \<Longrightarrow> replace_wildcards s a = s"
  by (induction s) (auto simp: replace_wildcards_def)

lemma replace_wildcards_append:
  "replace_wildcards (s @ t) a = replace_wildcards s a @ replace_wildcards t a"
  by (simp add: replace_wildcards_def)

text \<open>
  With a name free of \<open>*\<close> every turn of the loop removes one \<open>*\<close>: induction on their
  number.
\<close>

lemma BuildFilename_loop_no_star:
  "CHR ''*'' \<notin> set a \<Longrightarrow> BuildFilename_loop s a = Some (replace_wildcards s a)"
proof (induction "length (filter (\<lambda>c. c = CHR ''*'') s)" arbitrary: s)
  case 0
  then have "filter (\<lambda>c. c = CHR ''*'') s = []"
    by simp
  then have "CHR ''*'' \<notin> set s"
    by (auto simp: filter_empty_conv)
  then show ?case
    by (subst BuildFilename_loop.simps)
       (simp add: string_find_None[THEN iffD2] replace_wildcards_plain)
next
  case (Suc n)
  from Suc.hyps(2) have "filter (\<lambda>c. c = CHR ''*'') s \<noteq> []"
    by auto
  then have "CHR ''*'' \<in> set s"
    by (auto simp: filter_empty_conv)
  then obtain i where i: "string_find s (CHR ''*'') = Some i"
    using string_find_None[of s "CHR ''*''"] by auto
  define pre post where "pre = take i s" and "post = drop (Suc i) s"
  from string_find_Some[OF i]
  have s: "s = pre @ CHR ''*'' # post" and pre: "CHR ''*'' \<notin> set pre" and il: "i < length s"
    by (simp_all add: pre_def post_def)
  have rep: "string_replace s i (Suc 0) a = Some (pre @ a @ post)"
    using il by (simp add: string_replace_def pre_def post_def)
  have fpre: "filter (\<lambda>c. c = CHR ''*'') pre = []"
    using pre by (auto simp: filter_empty_conv)
  have fa: "filter (\<lambda>c. c = CHR ''*'') a = []"
    using Suc.prems by (auto simp: filter_empty_conv)
  have "n = length (filter (\<lambda>c. c = CHR ''*'') (pre @ a @ post))"
    using Suc.hyps(2) fpre fa by (subst (asm) s) simp
  from Suc.hyps(1)[OF this Suc.prems]
  have "BuildFilename_loop (pre @ a @ post) a = Some (replace_wildcards (pre @ a @ post) a)" .
  moreover have "replace_wildcards (pre @ a @ post) a = pre @ a @ replace_wildcards post a"
    using pre Suc.prems by (simp add: replace_wildcards_append replace_wildcards_plain)
  moreover have "replace_wildcards (pre @ CHR ''*'' # post) a =
                 pre @ a @ replace_wildcards post a"
  proof -
    have "replace_wildcards (CHR ''*'' # post) a = a @ replace_wildcards post a"
      by (simp add: replace_wildcards_def)
    with pre show ?thesis
      by (simp add: replace_wildcards_append replace_wildcards_plain)
  qed
  ultimately have "BuildFilename_loop (pre @ a @ post) a =
                   Some (replace_wildcards (pre @ CHR ''*'' # post) a)"
    by simp
  then have "BuildFilename_loop (pre @ a @ post) a = Some (replace_wildcards s a)"
    using s by simp
  then show ?case
    by (subst BuildFilename_loop.simps) (simp add: i rep)
qed

text \<open>
  With a \<open>*\<close> in the name every replacement puts a \<open>*\<close> back: by fixpoint induction,
  a run that returns started from a text without \<open>*\<close>.
\<close>

lemma BuildFilename_loop_returns:
  "BuildFilename_loop s a = Some r \<Longrightarrow> CHR ''*'' \<in> set a \<longrightarrow> CHR ''*'' \<notin> set s"
proof (rule BuildFilename_loop.raw_induct
         [where P = "\<lambda>s a r. CHR ''*'' \<in> set a \<longrightarrow> CHR ''*'' \<notin> set s"])
  fix f :: "string \<Rightarrow> string \<Rightarrow> string option" and out animation r'
  assume IH: "\<And>s b y. f s b = Some y \<Longrightarrow> CHR ''*'' \<in> set b \<longrightarrow> CHR ''*'' \<notin> set s"
    and step: "(case string_find out (CHR ''*'') of
                  None \<Rightarrow> Some out
                | Some asterisk \<Rightarrow>
                    (case string_replace out asterisk 1 animation of
                       None \<Rightarrow> None
                     | Some output1 \<Rightarrow> f output1 animation)) = Some r'"
  show "CHR ''*'' \<in> set animation \<longrightarrow> CHR ''*'' \<notin> set out"
  proof (cases "string_find out (CHR ''*'')")
    case None
    then show ?thesis by (simp add: string_find_None)
  next
    case (Some i)
    with step obtain output1 where r: "string_replace out i 1 animation = Some output1"
      and f: "f output1 animation = Some r'"
      by (auto split: option.splits)
    from r have "set animation \<subseteq> set output1"
      by (auto simp: string_replace_def split: if_splits)
    with IH[OF f] show ?thesis by auto
  qed
qed

lemma BuildFilename_loop_star:
  "CHR ''*'' \<in> set a \<Longrightarrow> CHR ''*'' \<in> set s \<Longrightarrow> BuildFilename_loop s a = None"
  using BuildFilename_loop_returns[of s a] by (cases "BuildFilename_loop s a") auto

lemma BuildFilename_eq:
  "BuildFilename pattern animation =
     (if CHR ''*'' \<in> set pattern \<and> CHR ''*'' \<in> set animation then None
      else Some (replace_wildcards pattern animation))"
proof (cases "CHR ''*'' \<in> set animation")
  case False
  then show ?thesis by (simp add: BuildFilename_def BuildFilename_loop_no_star)
next
  case True
  show ?thesis
  proof (cases "CHR ''*'' \<in> set pattern")
    case True
    with \<open>CHR ''*'' \<in> set animation\<close> show ?thesis
      by (simp add: BuildFilename_def BuildFilename_loop_star)
  next
    case False
    then show ?thesis
      by (subst BuildFilename_def, subst BuildFilename_loop.simps)
         (simp add: string_find_None[THEN iffD2] replace_wildcards_plain)
  qed
qed

text \<open>
  \<open>BuildFilename_eq\<close> computes: from here on it is the equation by which
  \<^verbatim>\<open>BuildFilename\<close> is evaluated, so that a run in which the loop never returns
  evaluates to \<open>None\<close> as well.
\<close>

declare BuildFilename_eq [code]

text \<open>
  C6. The claim: the output file name is the pattern with every \<open>*\<close> replaced by the
  full animation name, each occurrence by the same text (\<open>replace_wildcards\<close>); the
  pattern \<^verbatim>\<open>*.ozz\<close> with the name \<^verbatim>\<open>jump\<close> gives \<^verbatim>\<open>jump.ozz\<close>. That example holds.
  With the name \<^verbatim>\<open>a*b\<close> the file name of the claim is \<^verbatim>\<open>a*b.ozz\<close>, and with the
  pattern \<^verbatim>\<open>*_*.ozz\<close> and the name \<^verbatim>\<open>w*\<close> it is \<^verbatim>\<open>w*_w*.ozz\<close>; on both
  \<^verbatim>\<open>BuildFilename\<close> returns no file name at all. The cause is that of C8: the loop
  searches from the start of the text after each replacement, and so replaces the \<open>*\<close>
  of the name as well. (For every pattern and name \<open>BuildFilename_eq\<close> gives the result.)
\<close>

theorem C6_BuildFilename_wildcard_in_name:
  "BuildFilename ''*.ozz'' ''jump'' = Some ''jump.ozz'' \<and>
   replace_wildcards ''*.ozz'' ''a*b'' = ''a*b.ozz'' \<and>
   BuildFilename ''*.ozz'' ''a*b'' = None \<and>
   replace_wildcards ''*_*.ozz'' ''w*'' = ''w*_w*.ozz'' \<and>
   BuildFilename ''*_*.ozz'' ''w*'' = None"
  by (simp add: BuildFilename_eq replace_wildcards_def)

text \<open>
  C8. The claim: \<^verbatim>\<open>BuildFilename\<close> terminates for every pattern and every animation
  name, also for a name that contains \<open>*\<close>. The loop searches from the start of the
  text after each replacement and finds the \<open>*\<close> the name has just brought in: with
  the pattern \<^verbatim>\<open>*.ozz\<close> and the name \<^verbatim>\<open>a*b\<close>, and with pattern and name both \<^verbatim>\<open>*\<close>,
  it never returns.
\<close>

theorem C8_BuildFilename_does_not_return:
  "BuildFilename ''*.ozz'' ''a*b'' = None \<and> BuildFilename ''*'' ''*'' = None"
  by (simp add: BuildFilename_def BuildFilename_loop_star)

section \<open>The optimization statistics\<close>

text \<open>
  C10. For every pair of raw animations the statistics are computed without a division
  by zero: each of the three ratios divides by the count of the non-optimized keys only
  when that count is not zero, and is 0 when it is zero, as for an animation without
  tracks. (\<open>None\<close> is a division by zero, and \<open>divide_by_count\<close> gives it exactly for the
  count zero.)
\<close>

theorem C10_statistics_never_divide_by_zero:
  "DisplaysOptimizationstatistics F non_optimized optimized \<noteq> None \<and>
   optimization_ratio F non_opt opt \<noteq> None \<and>
   optimization_ratio F 0 opt = Some (to_float F 0) \<and>
   (divide_by_count F x c = None) = (c = 0) \<and>
   DisplaysOptimizationstatistics F (non_optimized\<lparr>tracks := []\<rparr>) optimized =
     Some [(Log, [Str ''Optimization stage results:'']),
           (Log, [Str '' - Translations key frames optimization: '',
                  Flt (to_float F 0), Str ''%'']),
           (Log, [Str '' - Rotations key frames optimization: '',
                  Flt (to_float F 0), Str ''%'']),
           (Log, [Str '' - Scaling key frames optimization: '',
                  Flt (to_float F 0), Str ''%''])]"
proof -
  have ratio: "\<And>n m. optimization_ratio F n m \<noteq> None"
    by (simp add: optimization_ratio_def divide_by_count_def)
  have "DisplaysOptimizationstatistics F non_optimized optimized \<noteq> None"
    by (simp add: DisplaysOptimizationstatistics_def optimization_ratio_def
          divide_by_count_def split: prod.splits)
  moreover have "optimization_ratio F 0 opt = Some (to_float F 0)"
    by (simp add: optimization_ratio_def)
  moreover have "(divide_by_count F x c = None) = (c = 0)"
    by (simp add: divide_by_count_def)
  moreover have
    "DisplaysOptimizationstatistics F (non_optimized\<lparr>tracks := []\<rparr>) optimized =
     Some [(Log, [Str ''Optimization stage results:'']),
           (Log, [Str '' - Translations key frames optimization: '',
                  Flt (to_float F 0), Str ''%'']),
           (Log, [Str '' - Rotations key frames optimization: '',
                  Flt (to_float F 0), Str ''%'']),
           (Log, [Str '' - Scaling key frames optimization: '',
                  Flt (to_float F 0), Str ''%''])]"
    by (simp add: DisplaysOptimizationstatistics_def optimization_ratio_def count_keys_def
             split: prod.splits)
  ultimately show ?thesis using ratio by simp
qed

section \<open>Exporting one animation: what a run has done\<close>

lemma log_extends_refl: "log_extends w w"
  by (simp add: log_extends_def)

lemma log_extends_trans: "log_extends a b \<Longrightarrow> log_extends b c \<Longrightarrow> log_extends a c"
  by (auto simp: log_extends_def)

lemma log_extends_say: "log_extends w (say ch items w)"
  by (simp add: log_extends_def say_def)

lemma log_extends_say_all: "log_extends w (say_all es w)"
  by (simp add: log_extends_def say_all_def)

lemma disk_say [simp]: "disk (say ch items w) = disk w"
  by (simp add: say_def)

lemma disk_say_all [simp]: "disk (say_all es w) = disk w"
  by (simp add: say_all_def)

lemma log_extends_say2: "log_extends w w1 \<Longrightarrow> log_extends w (say ch items w1)"
  by (auto simp: log_extends_def say_def)

lemma log_extends_say_all2: "log_extends w w1 \<Longrightarrow> log_extends w (say_all es w1)"
  by (auto simp: log_extends_def say_all_def)

lemma log_extends_disk: "log_extends w w1 \<Longrightarrow> log_extends w (w1\<lparr>disk := d\<rparr>)"
  by (auto simp: log_extends_def)

lemma Export_additive_Return_false:
  assumes "Export_additive E additive raw_in w = Return_false w1"
  shows "disk w1 = disk w" and "log_extends w w1"
    and "additive" and "AdditiveAnimationBuilder E raw_in = None"
  using assms
  by (auto simp: Export_additive_def Let_def log_extends_say log_extends_say2
      split: if_splits option.splits)

lemma Export_additive_Next:
  assumes "Export_additive E additive raw_in w = Next r w1"
  shows "disk w1 = disk w" and "log_extends w w1"
    and "if additive then AdditiveAnimationBuilder E raw_in = Some r else r = raw_in"
  using assms
  by (auto simp: Export_additive_def Let_def log_extends_say log_extends_refl
      split: if_splits option.splits)

lemma Export_optimize_Return_false:
  assumes "Export_optimize E optimize config r sk w = Some (Return_false w1)"
  shows "disk w1 = disk w" and "log_extends w w1" and "optimize"
    and "\<exists>tol. AnimationOptimizer_call E tol r sk = None"
  using assms
  by (auto simp: Export_optimize_def Let_def bind_eq_Some_conv log_extends_say
        log_extends_say2
      split: if_splits option.splits)

lemma Export_optimize_Next:
  assumes "Export_optimize E optimize config r sk w = Some (Next r1 w1)"
  shows "disk w1 = disk w" and "log_extends w w1"
    and "if optimize then \<exists>tol. AnimationOptimizer_call E tol r sk = Some r1 else r1 = r"
  using assms
  by (auto simp: Export_optimize_def Let_def bind_eq_Some_conv log_extends_say
        log_extends_say_all2 log_extends_refl
      split: if_splits option.splits)

lemma Export_build_Return_false:
  assumes "Export_build E raw r w = Return_false w1"
  shows "disk w1 = disk w" and "log_extends w w1" and "\<not> raw"
    and "AnimationBuilder E r = None"
  using assms
  by (auto simp: Export_build_def Let_def log_extends_say log_extends_say2
      split: if_splits option.splits)

lemma Export_build_Next:
  assumes "Export_build E raw r w = Next animation w1"
  shows "disk w1 = disk w" and "log_extends w w1"
    and "if raw then animation = None
         else \<exists>a. animation = Some a \<and> AnimationBuilder E r = Some a"
proof -
  have "disk w1 = disk w \<and> log_extends w w1 \<and>
        (if raw then animation = None
         else \<exists>a. animation = Some a \<and> AnimationBuilder E r = Some a)"
  proof (cases raw)
    case True
    with assms show ?thesis by (simp add: Export_build_def log_extends_refl)
  next
    case False
    show ?thesis
    proof (cases "AnimationBuilder E r")
      case None
      with False assms show ?thesis by (simp add: Export_build_def Let_def)
    next
      case (Some b)
      with False assms have "animation = Some b"
        and "w1 = say Log [Str ''Builds runtime animation.''] w"
        by (simp_all add: Export_build_def Let_def)
      with False Some show ?thesis
        by (simp add: log_extends_say)
    qed
  qed
  then show "disk w1 = disk w" and "log_extends w w1"
    and "if raw then animation = None
         else \<exists>a. animation = Some a \<and> AnimationBuilder E r = Some a"
    by simp_all
qed

text \<open>The last block, once the file name is built: the three ways it ends.\<close>

lemma Export_write_unfold:
  assumes "Value_get config ''output'' = Some output_v" "asCString output_v = Some pattern"
    "BuildFilename (c_str pattern) (c_str (name raw_in)) = Some filename"
  shows "Export_write E config raw_in r animation w =
     (if \<not> open_wb E (c_str filename)
      then Some (False, say Err [Str (''Failed to open output file: '' @ [CHR 0x22]),
                                 Str filename, Str [CHR 0x22]]
                          (say Log [Str ''Opens output file: '', Str filename] w))
      else (case config_bool E config ''raw'' of
              None \<Rightarrow> None
            | Some raw \<Rightarrow>
                (case (if raw then Some (RawAnimationObject r)
                       else map_option AnimationObject animation) of
                   None \<Rightarrow> None
                 | Some obj \<Rightarrow>
                     Some (True,
                       say Log [Str ''Animation binary archive successfully outputted.'']
                         ((say Log [Str (if raw
                                         then ''Outputs RawAnimation to binary archive.''
                                         else ''Outputs Animation to binary archive.'')]
                            (say Log [Str (if output_endianness (GetNativeEndianness E)
                                                (OPTIONS_endian E) = kLittleEndian
                                           then ''Little'' else ''Big''),
                                      Str '' Endian output binary format selected.'']
                               ((say Log [Str ''Opens output file: '', Str filename] w)
                                  \<lparr>disk := (disk w)(c_str filename \<mapsto> EmptyFile)\<rparr>)))
                          \<lparr>disk := (disk w)(c_str filename \<mapsto>
                               ArchiveFile (output_endianness (GetNativeEndianness E)
                                              (OPTIONS_endian E)) obj)\<rparr>)))))"
  using assms
  by (cases "config_bool E config ''raw''"; cases animation)
     (simp_all add: Export_write_def Let_def say_def split: option.splits)

lemma Export_write_result:
  assumes A: "Export_write E config raw_in r animation w = Some (ok, w')"
  shows "log_extends w w'"
    and "\<not> ok \<Longrightarrow> disk w' = disk w"
    and "ok \<Longrightarrow> \<exists>filename raw obj.
           open_wb E filename \<and> config_bool E config ''raw'' = Some raw \<and>
           (if raw then obj = RawAnimationObject r
            else \<exists>a. animation = Some a \<and> obj = AnimationObject a) \<and>
           disk w' =
             (disk w)(filename \<mapsto>
                ArchiveFile (output_endianness (GetNativeEndianness E) (OPTIONS_endian E))
                  obj)"
proof -
  from A obtain output_v where f1: "Value_get config ''output'' = Some output_v"
    by (cases "Value_get config ''output''") (simp_all add: Export_write_def)
  from A f1 obtain pattern where f2: "asCString output_v = Some pattern"
    by (cases "asCString output_v") (simp_all add: Export_write_def)
  from A f1 f2 obtain filename
    where f3: "BuildFilename (c_str pattern) (c_str (name raw_in)) = Some filename"
    by (cases "BuildFilename (c_str pattern) (c_str (name raw_in))")
       (simp_all add: Export_write_def)
  note u = Export_write_unfold[OF f1 f2 f3, of E r animation w]
  have "log_extends w w' \<and> (\<not> ok \<longrightarrow> disk w' = disk w) \<and>
        (ok \<longrightarrow> (\<exists>filename raw obj.
           open_wb E filename \<and> config_bool E config ''raw'' = Some raw \<and>
           (if raw then obj = RawAnimationObject r
            else \<exists>a. animation = Some a \<and> obj = AnimationObject a) \<and>
           disk w' =
             (disk w)(filename \<mapsto>
                ArchiveFile (output_endianness (GetNativeEndianness E) (OPTIONS_endian E))
                  obj)))"
  proof (cases "open_wb E (c_str filename)")
    case False
    with A u have "ok = False"
      and "w' = say Err [Str (''Failed to open output file: '' @ [CHR 0x22]),
                         Str filename, Str [CHR 0x22]]
                  (say Log [Str ''Opens output file: '', Str filename] w)"
      by simp_all
    then show ?thesis by (simp add: log_extends_say2 log_extends_say)
  next
    case True
    with A u obtain raw where raw: "config_bool E config ''raw'' = Some raw"
      by (cases "config_bool E config ''raw''") simp_all
    from A u True raw obtain obj
      where obj: "(if raw then Some (RawAnimationObject r)
                   else map_option AnimationObject animation) = Some obj"
      by (cases "if raw then Some (RawAnimationObject r)
                 else map_option AnimationObject animation") simp_all
    from A u True raw obj have ok: "ok"
      and w': "w' = say Log [Str ''Animation binary archive successfully outputted.'']
                         ((say Log [Str (if raw
                                         then ''Outputs RawAnimation to binary archive.''
                                         else ''Outputs Animation to binary archive.'')]
                            (say Log [Str (if output_endianness (GetNativeEndianness E)
                                                (OPTIONS_endian E) = kLittleEndian
                                           then ''Little'' else ''Big''),
                                      Str '' Endian output binary format selected.'']
                               ((say Log [Str ''Opens output file: '', Str filename] w)
                                  \<lparr>disk := (disk w)(c_str filename \<mapsto> EmptyFile)\<rparr>)))
                          \<lparr>disk := (disk w)(c_str filename \<mapsto>
                               ArchiveFile (output_endianness (GetNativeEndianness E)
                                              (OPTIONS_endian E)) obj)\<rparr>)"
      by simp_all
    have "log_extends w w'"
      unfolding w'
      by (intro log_extends_say2 log_extends_disk log_extends_say)
    moreover have "disk w' = (disk w)(c_str filename \<mapsto>
                               ArchiveFile (output_endianness (GetNativeEndianness E)
                                              (OPTIONS_endian E)) obj)"
      by (simp add: w')
    moreover from obj have "if raw then obj = RawAnimationObject r
                            else \<exists>a. animation = Some a \<and> obj = AnimationObject a"
      by (auto split: if_splits)
    ultimately show ?thesis using ok True raw by blast
  qed
  then show "log_extends w w'" and "\<not> ok \<Longrightarrow> disk w' = disk w"
    and "ok \<Longrightarrow> \<exists>filename raw obj.
           open_wb E filename \<and> config_bool E config ''raw'' = Some raw \<and>
           (if raw then obj = RawAnimationObject r
            else \<exists>a. animation = Some a \<and> obj = AnimationObject a) \<and>
           disk w' =
             (disk w)(filename \<mapsto>
                ArchiveFile (output_endianness (GetNativeEndianness E) (OPTIONS_endian E))
                  obj)"
    by simp_all
qed

text \<open>What a run of \<^verbatim>\<open>Export\<close> that returns has done, block by block.\<close>

lemma Export_result:
  assumes A: "Export E raw_in sk config w = Some (ok, w')"
  shows "log_extends w w' \<and> (\<not> ok \<longrightarrow> disk w' = disk w) \<and>
    (ok \<longrightarrow> (\<exists>additive optimize raw raw1 raw2 obj filename.
       config_bool E config ''additive'' = Some additive \<and>
       config_bool E config ''optimize'' = Some optimize \<and>
       config_bool E config ''raw'' = Some raw \<and>
       (if additive then AdditiveAnimationBuilder E raw_in = Some raw1 else raw1 = raw_in) \<and>
       (if optimize then \<exists>tol. AnimationOptimizer_call E tol raw1 sk = Some raw2
        else raw2 = raw1) \<and>
       (if raw then obj = RawAnimationObject raw2
        else \<exists>a. AnimationBuilder E raw2 = Some a \<and> obj = AnimationObject a) \<and>
       open_wb E filename \<and>
       disk w' =
         (disk w)(filename \<mapsto>
            ArchiveFile (output_endianness (GetNativeEndianness E) (OPTIONS_endian E)) obj)))"
proof -
  from A obtain additive where a: "config_bool E config ''additive'' = Some additive"
    by (cases "config_bool E config ''additive''") (simp_all add: Export_def)
  show ?thesis
  proof (cases "Export_additive E additive raw_in w")
    case (Return_false w1)
    with A a have "ok = False" "w' = w1" by (simp_all add: Export_def)
    with Export_additive_Return_false(1,2)[OF Return_false] show ?thesis by simp
  next
    case (Next raw1 w1)
    note b1 = Export_additive_Next[OF Next]
    from A a Next obtain optimize
      where o: "config_bool E config ''optimize'' = Some optimize"
      by (cases "config_bool E config ''optimize''") (simp_all add: Export_def)
    from A a Next o obtain st
      where st: "Export_optimize E optimize config raw1 sk w1 = Some st"
      by (cases "Export_optimize E optimize config raw1 sk w1") (simp_all add: Export_def)
    show ?thesis
    proof (cases st)
      case (Return_false w2)
      with A a Next o st have "ok = False" "w' = w2" by (simp_all add: Export_def)
      with Export_optimize_Return_false(1,2)[OF st[unfolded Return_false]] b1(1,2)
      show ?thesis by (auto intro: log_extends_trans)
    next
      case (Next raw2 w2)
      note st2 = st[unfolded Next]
      note b2 = Export_optimize_Next[OF st2]
      from A a \<open>Export_additive E additive raw_in w = Block.Next raw1 w1\<close> o st2 obtain raw
        where r: "config_bool E config ''raw'' = Some raw"
        by (cases "config_bool E config ''raw''") (simp_all add: Export_def)
      show ?thesis
      proof (cases "Export_build E raw raw2 w2")
        case (Return_false w3)
        with A a \<open>Export_additive E additive raw_in w = Block.Next raw1 w1\<close> o st2 r
        have "ok = False" "w' = w3" by (simp_all add: Export_def)
        with Export_build_Return_false(1,2)[OF Return_false] b1(1,2) b2(1,2)
        show ?thesis by (auto intro: log_extends_trans)
      next
        case (Next animation w3)
        note b3 = Export_build_Next[OF Next]
        from A a \<open>Export_additive E additive raw_in w = Block.Next raw1 w1\<close> o st2 r Next
        have wr: "Export_write E config raw_in raw2 animation w3 = Some (ok, w')"
          by (simp add: Export_def)
        note b4 = Export_write_result[OF wr]
        have d: "disk w3 = disk w" using b1(1) b2(1) b3(1) by simp
        have l: "log_extends w w'"
          using b1(2) b2(2) b3(2) b4(1) by (blast intro: log_extends_trans)
        have "ok \<longrightarrow> (\<exists>additive optimize raw raw1 raw2 obj filename.
           config_bool E config ''additive'' = Some additive \<and>
           config_bool E config ''optimize'' = Some optimize \<and>
           config_bool E config ''raw'' = Some raw \<and>
           (if additive then AdditiveAnimationBuilder E raw_in = Some raw1
            else raw1 = raw_in) \<and>
           (if optimize then \<exists>tol. AnimationOptimizer_call E tol raw1 sk = Some raw2
            else raw2 = raw1) \<and>
           (if raw then obj = RawAnimationObject raw2
            else \<exists>a. AnimationBuilder E raw2 = Some a \<and> obj = AnimationObject a) \<and>
           open_wb E filename \<and>
           disk w' =
             (disk w)(filename \<mapsto>
                ArchiveFile (output_endianness (GetNativeEndianness E) (OPTIONS_endian E))
                  obj))"
        proof
          assume ok
          from b4(3)[OF this] obtain filename raw' obj where
            x: "open_wb E filename" "config_bool E config ''raw'' = Some raw'"
               "if raw' then obj = RawAnimationObject raw2
                else \<exists>a. animation = Some a \<and> obj = AnimationObject a"
               "disk w' = (disk w3)(filename \<mapsto>
                  ArchiveFile (output_endianness (GetNativeEndianness E) (OPTIONS_endian E))
                    obj)"
            by blast
          from x(2) r have "raw' = raw" by simp
          with x(3) b3(3) have c: "if raw then obj = RawAnimationObject raw2
            else \<exists>a. AnimationBuilder E raw2 = Some a \<and> obj = AnimationObject a"
            by (auto split: if_splits)
          show "\<exists>additive optimize raw raw1 raw2 obj filename.
           config_bool E config ''additive'' = Some additive \<and>
           config_bool E config ''optimize'' = Some optimize \<and>
           config_bool E config ''raw'' = Some raw \<and>
           (if additive then AdditiveAnimationBuilder E raw_in = Some raw1
            else raw1 = raw_in) \<and>
           (if optimize then \<exists>tol. AnimationOptimizer_call E tol raw1 sk = Some raw2
            else raw2 = raw1) \<and>
           (if raw then obj = RawAnimationObject raw2
            else \<exists>a. AnimationBuilder E raw2 = Some a \<and> obj = AnimationObject a) \<and>
           open_wb E filename \<and>
           disk w' =
             (disk w)(filename \<mapsto>
                ArchiveFile (output_endianness (GetNativeEndianness E) (OPTIONS_endian E))
                  obj)"
            by (rule exI[of _ additive], rule exI[of _ optimize], rule exI[of _ raw],
                rule exI[of _ raw1], rule exI[of _ raw2], rule exI[of _ obj],
                rule exI[of _ filename])
               (use a o r b1(3) b2(3) c x(1) x(4) d in simp)
        qed
        with l b4(2) d show ?thesis by simp
      qed
    qed
  qed
qed

lemma statistics_Some: "\<exists>x. DisplaysOptimizationstatistics F a b = Some x"
  by (simp add: DisplaysOptimizationstatistics_def optimization_ratio_def
        divide_by_count_def split: prod.splits)

lemma Value_get_present: "member_of e k = Some f \<Longrightarrow> Value_get e k = Some f"
  by (frule member_of_object)
     (simp add: Value_get_def Value_find_eq isObject_null_or_object)

lemma config_bool_has_field:
  assumes "has_field e k booleanValue"
  shows "\<exists>b. config_bool E e k = Some b"
proof -
  from assms obtain f where f: "member_of e k = Some f" and t: "Value_type f = booleanValue"
    by (auto simp: has_field_def split: option.splits)
  from t obtain b where "payload f = BoolV b"
    by (cases "payload f") (simp_all add: Value_type_def)
  then show ?thesis
    by (simp add: config_bool_def Value_get_present[OF f] asBool_def)
qed

lemma asFloat_has_field:
  assumes "has_field t k realValue"
  shows "\<exists>fv x. Value_get t k = Some fv \<and> asFloat tf fv = Some x"
proof -
  from assms obtain f where f: "member_of t k = Some f" and ty: "Value_type f = realValue"
    by (auto simp: has_field_def split: option.splits)
  from ty obtain x where "payload f = RealV x"
    by (cases "payload f") (simp_all add: Value_type_def)
  then show ?thesis
    by (simp add: Value_get_present[OF f] asFloat_def)
qed

lemma Export_optimize_total:
  assumes "has_tolerances entry"
  shows "\<exists>st. Export_optimize E optimize entry r sk w = Some st"
proof (cases optimize)
  case False
  then show ?thesis by (simp add: Export_optimize_def)
next
  case True
  from assms obtain t where t: "member_of entry ''optimization_tolerances'' = Some t"
    and h: "has_field t ''translation'' realValue" "has_field t ''rotation'' realValue"
      "has_field t ''scale'' realValue" "has_field t ''hierarchical'' realValue"
    by (auto simp: has_tolerances_def split: option.splits)
  from asFloat_has_field[OF h(1), of "to_float (float_ops E)"] obtain v1 x1
    where a1: "Value_get t ''translation'' = Some v1"
      "asFloat (to_float (float_ops E)) v1 = Some x1" by blast
  from asFloat_has_field[OF h(2), of "to_float (float_ops E)"] obtain v2 x2
    where a2: "Value_get t ''rotation'' = Some v2"
      "asFloat (to_float (float_ops E)) v2 = Some x2" by blast
  from asFloat_has_field[OF h(3), of "to_float (float_ops E)"] obtain v3 x3
    where a3: "Value_get t ''scale'' = Some v3"
      "asFloat (to_float (float_ops E)) v3 = Some x3" by blast
  from asFloat_has_field[OF h(4), of "to_float (float_ops E)"] obtain v4 x4
    where a4: "Value_get t ''hierarchical'' = Some v4"
      "asFloat (to_float (float_ops E)) v4 = Some x4" by blast
  show ?thesis
  proof (cases "AnimationOptimizer_call E
                  \<lparr>translation_tolerance = x1, rotation_tolerance = x2,
                   scale_tolerance = x3, hierarchical_tolerance = x4\<rparr> r sk")
    case None
    with True show ?thesis
      by (simp add: Export_optimize_def Value_get_present[OF t] a1 a2 a3 a4 Let_def)
  next
    case (Some ro)
    from statistics_Some[of "float_ops E" r ro] obtain x
      where "DisplaysOptimizationstatistics (float_ops E) r ro = Some x" by blast
    with True Some show ?thesis
      by (simp add: Export_optimize_def Value_get_present[OF t] a1 a2 a3 a4 Let_def)
  qed
qed

lemma Export_write_total:
  assumes "Value_get config ''output'' = Some output_v" "asCString output_v = Some pattern"
    and "BuildFilename (c_str pattern) (c_str (name raw_in)) = Some filename"
    and "config_bool E config ''raw'' = Some raw"
    and "if raw then animation = None else \<exists>a. animation = Some a"
  shows "Export_write E config raw_in r animation w \<noteq> None"
  using assms(4,5)
  by (cases raw; cases animation)
     (auto simp: Export_write_unfold[OF assms(1,2,3)] intro: exI[of _ True] exI[of _ False])

text \<open>
  \<^verbatim>\<open>Export\<close> stage by stage. What the code reads from the entry is what the entry
  holds; each block of \<^verbatim>\<open>Export\<close> fails exactly when its stage fails and leaves the
  files alone; the last block opens the file and, if that succeeds, writes the archive.
\<close>

lemma config_bool_flag_of: "flag_of config k = Some b \<Longrightarrow> config_bool E config k = Some b"
  by (auto simp: flag_of_def config_bool_def Value_get_present asBool_def
      split: option.splits Payload.splits)

lemma Value_get_real_of:
  "real_of t k = Some x \<Longrightarrow> \<exists>fv. Value_get t k = Some fv \<and> asFloat tf fv = Some x"
  by (auto simp: real_of_def Value_get_present asFloat_def split: option.splits Payload.splits)

lemma Value_get_text_of:
  "text_of t k = Some s \<Longrightarrow> \<exists>fv. Value_get t k = Some fv \<and> asCString fv = Some s"
  by (auto simp: text_of_def Value_get_present asCString_def split: option.splits Payload.splits)

lemma Export_additive_stage:
  "\<exists>w1. disk w1 = disk w \<and>
        Export_additive E additive raw_in w =
          (case additive_stage E additive raw_in of
             None \<Rightarrow> Return_false w1 | Some r \<Rightarrow> Next r w1)"
proof (cases additive)
  case False
  then show ?thesis by (simp add: Export_additive_def additive_stage_def)
next
  case True
  show ?thesis
  proof (cases "AdditiveAnimationBuilder E raw_in")
    case None
    with True have "Export_additive E additive raw_in w =
        Return_false (say Err [Str ''Failed to make additive animation.'']
                        (say Log [Str ''Makes additive animation.''] w))"
      and "additive_stage E additive raw_in = None"
      by (simp_all add: Export_additive_def additive_stage_def Let_def)
    then show ?thesis by simp
  next
    case (Some r)
    with True have "Export_additive E additive raw_in w =
        Next r (say Log [Str ''Makes additive animation.''] w)"
      and "additive_stage E additive raw_in = Some r"
      by (simp_all add: Export_additive_def additive_stage_def Let_def)
    then show ?thesis by simp
  qed
qed

lemma Export_optimize_stage:
  assumes "tolerances_of config = Some tol"
  shows "\<exists>w1. disk w1 = disk w \<and>
        Export_optimize E optimize config r sk w =
          Some (case optimize_stage E optimize tol r sk of
                  None \<Rightarrow> Return_false w1 | Some r1 \<Rightarrow> Next r1 w1)"
proof (cases optimize)
  case False
  then show ?thesis by (simp add: Export_optimize_def optimize_stage_def)
next
  case True
  from assms obtain t x1 x2 x3 x4
    where t: "member_of config ''optimization_tolerances'' = Some t"
      and x: "real_of t ''translation'' = Some x1" "real_of t ''rotation'' = Some x2"
        "real_of t ''scale'' = Some x3" "real_of t ''hierarchical'' = Some x4"
      and tol: "tol = \<lparr>translation_tolerance = x1, rotation_tolerance = x2,
                      scale_tolerance = x3, hierarchical_tolerance = x4\<rparr>"
    by (auto simp: tolerances_of_def bind_eq_Some_conv)
  from Value_get_real_of[OF x(1), of "to_float (float_ops E)"] obtain v1
    where a1: "Value_get t ''translation'' = Some v1"
      "asFloat (to_float (float_ops E)) v1 = Some x1" by blast
  from Value_get_real_of[OF x(2), of "to_float (float_ops E)"] obtain v2
    where a2: "Value_get t ''rotation'' = Some v2"
      "asFloat (to_float (float_ops E)) v2 = Some x2" by blast
  from Value_get_real_of[OF x(3), of "to_float (float_ops E)"] obtain v3
    where a3: "Value_get t ''scale'' = Some v3"
      "asFloat (to_float (float_ops E)) v3 = Some x3" by blast
  from Value_get_real_of[OF x(4), of "to_float (float_ops E)"] obtain v4
    where a4: "Value_get t ''hierarchical'' = Some v4"
      "asFloat (to_float (float_ops E)) v4 = Some x4" by blast
  show ?thesis
  proof (cases "AnimationOptimizer_call E tol r sk")
    case None
    with True have "Export_optimize E optimize config r sk w =
        Some (Return_false (say Err [Str ''Failed to optimize animation.'']
                              (say Log [Str ''Optimizing animation.''] w)))"
      and "optimize_stage E optimize tol r sk = None"
      by (simp_all add: Export_optimize_def optimize_stage_def Value_get_present[OF t]
            a1 a2 a3 a4 Let_def tol)
    then show ?thesis by simp
  next
    case (Some ro)
    from statistics_Some[of "float_ops E" r ro] obtain stats
      where "DisplaysOptimizationstatistics (float_ops E) r ro = Some stats" by blast
    with True Some have "Export_optimize E optimize config r sk w =
        Some (Next ro (say_all stats (say Log [Str ''Optimizing animation.''] w)))"
      and "optimize_stage E optimize tol r sk = Some ro"
      by (simp_all add: Export_optimize_def optimize_stage_def Value_get_present[OF t]
            a1 a2 a3 a4 Let_def tol)
    then show ?thesis by simp
  qed
qed

lemma Export_build_stage:
  "\<exists>w1. disk w1 = disk w \<and>
        Export_build E raw r w =
          (case build_stage E raw r of
             None \<Rightarrow> Return_false w1
           | Some obj \<Rightarrow> Next (if raw then None else AnimationBuilder E r) w1)"
proof (cases raw)
  case True
  then show ?thesis by (simp add: Export_build_def build_stage_def)
next
  case False
  show ?thesis
  proof (cases "AnimationBuilder E r")
    case None
    with False have "Export_build E raw r w =
        Return_false (say Err [Str ''Failed to build runtime animation.'']
                        (say Log [Str ''Builds runtime animation.''] w))"
      and "build_stage E raw r = None"
      by (simp_all add: Export_build_def build_stage_def Let_def)
    then show ?thesis by simp
  next
    case (Some a)
    with False have "Export_build E raw r w =
        Next (Some a) (say Log [Str ''Builds runtime animation.''] w)"
      and "build_stage E raw r = Some (AnimationObject a)"
      by (simp_all add: Export_build_def build_stage_def Let_def)
    with False Some show ?thesis by simp
  qed
qed

lemma Export_write_stage:
  assumes p: "text_of config ''output'' = Some pattern"
    and r: "flag_of config ''raw'' = Some raw"
    and o: "build_stage E raw raw2 = Some obj"
    and f: "BuildFilename (c_str pattern) (c_str (name raw_in)) = Some filename"
  shows "map_option (\<lambda>(ok, w'). (ok, disk w'))
           (Export_write E config raw_in raw2 (if raw then None else AnimationBuilder E raw2) w)
         = Some (if open_wb E (c_str filename)
                 then (True, (disk w)(c_str filename \<mapsto>
                         ArchiveFile (output_endianness (GetNativeEndianness E)
                                        (OPTIONS_endian E)) obj))
                 else (False, disk w))"
proof -
  from Value_get_text_of[OF p] obtain ov
    where v: "Value_get config ''output'' = Some ov" "asCString ov = Some pattern" by blast
  note u = Export_write_unfold[OF v f, of E raw2 "if raw then None else AnimationBuilder E raw2" w]
  from o have "(if raw then Some (RawAnimationObject raw2)
                else map_option AnimationObject (if raw then None else AnimationBuilder E raw2))
               = Some obj"
    by (simp add: build_stage_def split: if_splits)
  then show ?thesis
    by (cases "open_wb E (c_str filename)")
       (simp_all add: u config_bool_flag_of[OF r] del: map_option_eq_Some)
qed

lemma Export_outcome_eq:
  assumes fa: "flag_of config ''additive'' = Some additive"
    and fo: "flag_of config ''optimize'' = Some optimize"
    and fr: "flag_of config ''raw'' = Some raw"
    and ft: "tolerances_of config = Some tol"
    and fp: "text_of config ''output'' = Some pattern"
  shows "Export_outcome E raw_in skeleton config w =
     (case additive_stage E additive raw_in of
        None \<Rightarrow> Some (False, disk w)
      | Some raw1 \<Rightarrow>
          (case optimize_stage E optimize tol raw1 skeleton of
             None \<Rightarrow> Some (False, disk w)
           | Some raw2 \<Rightarrow>
               (case build_stage E raw raw2 of
                  None \<Rightarrow> Some (False, disk w)
                | Some obj \<Rightarrow>
                    (case BuildFilename (c_str pattern) (c_str (name raw_in)) of
                       None \<Rightarrow> None
                     | Some filename \<Rightarrow>
                         Some (if open_wb E (c_str filename)
                               then (True, (disk w)(c_str filename \<mapsto>
                                       ArchiveFile (output_endianness (GetNativeEndianness E)
                                                      (OPTIONS_endian E)) obj))
                               else (False, disk w))))))"
proof -
  note a = config_bool_flag_of[OF fa, of E]
  note o = config_bool_flag_of[OF fo, of E]
  note r = config_bool_flag_of[OF fr, of E]
  from Export_additive_stage[of w E additive raw_in] obtain w1
    where w1: "disk w1 = disk w"
      and b1: "Export_additive E additive raw_in w =
                (case additive_stage E additive raw_in of
                   None \<Rightarrow> Return_false w1 | Some r \<Rightarrow> Next r w1)"
    by blast
  show ?thesis
  proof (cases "additive_stage E additive raw_in")
    case None
    then show ?thesis by (simp add: Export_outcome_def Export_def a b1 w1)
  next
    case s1: (Some raw1)
    from Export_optimize_stage[OF ft, of w1 E optimize raw1 skeleton] obtain w2
      where w2: "disk w2 = disk w1"
        and b2: "Export_optimize E optimize config raw1 skeleton w1 =
                  Some (case optimize_stage E optimize tol raw1 skeleton of
                          None \<Rightarrow> Return_false w2 | Some r1 \<Rightarrow> Next r1 w2)"
      by blast
    show ?thesis
    proof (cases "optimize_stage E optimize tol raw1 skeleton")
      case None
      then show ?thesis by (simp add: Export_outcome_def Export_def a o b1 b2 s1 w1 w2)
    next
      case s2: (Some raw2)
      from Export_build_stage[of w2 E raw raw2] obtain w3
        where w3: "disk w3 = disk w2"
          and b3: "Export_build E raw raw2 w2 =
                    (case build_stage E raw raw2 of
                       None \<Rightarrow> Return_false w3
                     | Some obj \<Rightarrow> Next (if raw then None else AnimationBuilder E raw2) w3)"
        by blast
      show ?thesis
      proof (cases "build_stage E raw raw2")
        case None
        then show ?thesis
          by (simp add: Export_outcome_def Export_def a o r b1 b2 b3 s1 s2 w1 w2 w3)
      next
        case s3: (Some obj)
        have e: "Export E raw_in skeleton config w =
                 Export_write E config raw_in raw2
                   (if raw then None else AnimationBuilder E raw2) w3"
          by (simp add: Export_def a o r b1 b2 b3 s1 s2 s3)
        show ?thesis
        proof (cases "BuildFilename (c_str pattern) (c_str (name raw_in))")
          case None
          from Value_get_text_of[OF fp] obtain ov
            where v: "Value_get config ''output'' = Some ov" "asCString ov = Some pattern"
            by blast
          have "Export_write E config raw_in raw2
                  (if raw then None else AnimationBuilder E raw2) w3 = None"
            by (simp add: Export_write_def v None)
          with None show ?thesis by (simp add: Export_outcome_def e s1 s2 s3)
        next
          case s4: (Some filename)
          have "Export_outcome E raw_in skeleton config w =
                  map_option (\<lambda>(ok, w'). (ok, disk w'))
                    (Export_write E config raw_in raw2
                       (if raw then None else AnimationBuilder E raw2) w3)"
            by (simp only: Export_outcome_def e)
          also have "\<dots> = Some (if open_wb E (c_str filename)
                               then (True, (disk w)(c_str filename \<mapsto>
                                       ArchiveFile (output_endianness (GetNativeEndianness E)
                                                      (OPTIONS_endian E)) obj))
                               else (False, disk w))"
            by (simp only: Export_write_stage[OF fp fr s3 s4] w1 w2 w3)
          finally show ?thesis by (simp only: s1 s2 s3 s4 option.case)
        qed
      qed
    qed
  qed
qed

text \<open>
  A sanitized entry holds the three flags, the tolerances and the output pattern.
\<close>

lemma flag_of_has_field: "has_field e k booleanValue \<Longrightarrow> \<exists>b. flag_of e k = Some b"
  by (auto simp: has_field_def flag_of_def Value_type_def split: option.splits Payload.splits)

lemma real_of_has_field: "has_field e k realValue \<Longrightarrow> \<exists>x. real_of e k = Some x"
  by (auto simp: has_field_def real_of_def Value_type_def split: option.splits Payload.splits)

lemma text_of_has_field: "has_field e k stringValue \<Longrightarrow> \<exists>x. text_of e k = Some x"
  by (auto simp: has_field_def text_of_def Value_type_def split: option.splits Payload.splits)

lemma sanitized_animation_holds:
  assumes "sanitized_animation e"
  shows "\<exists>additive optimize raw tol pattern.
           flag_of e ''additive'' = Some additive \<and> flag_of e ''optimize'' = Some optimize \<and>
           flag_of e ''raw'' = Some raw \<and> tolerances_of e = Some tol \<and>
           text_of e ''output'' = Some pattern"
proof -
  from assms have h: "has_field e ''additive'' booleanValue"
    "has_field e ''optimize'' booleanValue" "has_field e ''raw'' booleanValue"
    "has_field e ''output'' stringValue" "has_tolerances e"
    by (simp_all add: sanitized_animation_def)
  from flag_of_has_field[OF h(1)] obtain additive
    where 1: "flag_of e ''additive'' = Some additive" by blast
  from flag_of_has_field[OF h(2)] obtain optimize
    where 2: "flag_of e ''optimize'' = Some optimize" by blast
  from flag_of_has_field[OF h(3)] obtain raw
    where 3: "flag_of e ''raw'' = Some raw" by blast
  from text_of_has_field[OF h(4)] obtain pattern
    where 4: "text_of e ''output'' = Some pattern" by blast
  from h(5) obtain t where t: "member_of e ''optimization_tolerances'' = Some t"
    and f: "has_field t ''translation'' realValue" "has_field t ''rotation'' realValue"
      "has_field t ''scale'' realValue" "has_field t ''hierarchical'' realValue"
    by (auto simp: has_tolerances_def split: option.splits)
  from real_of_has_field[OF f(1)] obtain x1
    where x1: "real_of t ''translation'' = Some x1" by blast
  from real_of_has_field[OF f(2)] obtain x2
    where x2: "real_of t ''rotation'' = Some x2" by blast
  from real_of_has_field[OF f(3)] obtain x3
    where x3: "real_of t ''scale'' = Some x3" by blast
  from real_of_has_field[OF f(4)] obtain x4
    where x4: "real_of t ''hierarchical'' = Some x4" by blast
  have "tolerances_of e = Some \<lparr>translation_tolerance = x1, rotation_tolerance = x2,
                                scale_tolerance = x3, hierarchical_tolerance = x4\<rparr>"
    by (simp add: tolerances_of_def t x1 x2 x3 x4)
  with 1 2 3 4 show ?thesis by blast
qed

text \<open>
  C9. \<^verbatim>\<open>Export\<close> is atomic with respect to its destination on an early failure.
  For an entry that holds the three flags, the tolerances and the output pattern, as
  every sanitized entry does: if the additive build fails, or the optimization fails,
  or the build of the runtime animation fails, or the output file cannot be opened,
  then \<^verbatim>\<open>Export\<close> returns
  \<^verbatim>\<open>false\<close> and every file is as it was before; and when every stage has succeeded
  and the file has opened, \<^verbatim>\<open>Export\<close> returns \<^verbatim>\<open>true\<close> and exactly the file of the
  name \<^verbatim>\<open>BuildFilename\<close> gives has changed, to the archive of the object built, in the
  endianness selected. The optimizer runs with the entry's tolerances, each stage on
  the result of the stage before.
\<close>

theorem C9_Export_writes_only_after_every_stage:
  assumes "flag_of config ''additive'' = Some additive"
    and "flag_of config ''optimize'' = Some optimize"
    and "flag_of config ''raw'' = Some raw"
    and "tolerances_of config = Some tol"
    and "text_of config ''output'' = Some pattern"
  shows
    "(additive_stage E additive raw_in = None \<longrightarrow>
        Export_outcome E raw_in skeleton config w = Some (False, disk w)) \<and>
     (additive_stage E additive raw_in = Some raw1 \<longrightarrow>
      optimize_stage E optimize tol raw1 skeleton = None \<longrightarrow>
        Export_outcome E raw_in skeleton config w = Some (False, disk w)) \<and>
     (additive_stage E additive raw_in = Some raw1 \<longrightarrow>
      optimize_stage E optimize tol raw1 skeleton = Some raw2 \<longrightarrow>
      build_stage E raw raw2 = None \<longrightarrow>
        Export_outcome E raw_in skeleton config w = Some (False, disk w)) \<and>
     (additive_stage E additive raw_in = Some raw1 \<longrightarrow>
      optimize_stage E optimize tol raw1 skeleton = Some raw2 \<longrightarrow>
      build_stage E raw raw2 = Some obj \<longrightarrow>
      BuildFilename (c_str pattern) (c_str (name raw_in)) = Some filename \<longrightarrow>
      \<not> open_wb E (c_str filename) \<longrightarrow>
        Export_outcome E raw_in skeleton config w = Some (False, disk w)) \<and>
     (additive_stage E additive raw_in = Some raw1 \<longrightarrow>
      optimize_stage E optimize tol raw1 skeleton = Some raw2 \<longrightarrow>
      build_stage E raw raw2 = Some obj \<longrightarrow>
      BuildFilename (c_str pattern) (c_str (name raw_in)) = Some filename \<longrightarrow>
      open_wb E (c_str filename) \<longrightarrow>
        Export_outcome E raw_in skeleton config w =
          Some (True, (disk w)(c_str filename \<mapsto>
                  ArchiveFile (output_endianness (GetNativeEndianness E) (OPTIONS_endian E))
                    obj)))"
  by (simp add: Export_outcome_eq[OF assms])

theorem C9_Export_writes_only_after_every_stage_witness:
  "Export_outcome (demo_env_stages False True True True) (demo_animation ''jump'') ()
     demo_full_entry empty_world = Some (False, disk empty_world) \<and>
   Export_outcome (demo_env_stages True False True True) (demo_animation ''jump'') ()
     demo_full_entry empty_world = Some (False, disk empty_world) \<and>
   Export_outcome (demo_env_stages True True False True) (demo_animation ''jump'') ()
     demo_full_entry empty_world = Some (False, disk empty_world) \<and>
   Export_outcome (demo_env_stages True True True False) (demo_animation ''jump'') ()
     demo_full_entry empty_world = Some (False, disk empty_world) \<and>
   Export_outcome (demo_env_stages True True True True) (demo_animation ''jump'') ()
     demo_full_entry empty_world =
     Some (True, (disk empty_world)(''jump.ozz'' \<mapsto>
             ArchiveFile kLittleEndian
               (AnimationObject \<lparr>duration = 12, tracks = [], name = ''jump''\<rparr>)))"
proof -
  let ?tol = "\<lparr>translation_tolerance = 1, rotation_tolerance = 2,
               scale_tolerance = 3, hierarchical_tolerance = 4\<rparr> :: int AnimationOptimizer"
  let ?a = "demo_animation ''jump''"
  let ?a1 = "\<lparr>duration = 11, tracks = [], name = ''jump''\<rparr> :: int RawAnimation"
  let ?a2 = "\<lparr>duration = 12, tracks = [], name = ''jump''\<rparr> :: int RawAnimation"
  have f: "flag_of demo_full_entry ''additive'' = Some True"
    "flag_of demo_full_entry ''optimize'' = Some True"
    "flag_of demo_full_entry ''raw'' = Some False"
    "tolerances_of demo_full_entry = Some ?tol"
    "text_of demo_full_entry ''output'' = Some ''*.ozz''"
    by (simp_all add: flag_of_def tolerances_of_def real_of_def text_of_def member_of_def
          demo_full_entry_def JObject_def JBool_def JReal_def JString_def)
  have n: "BuildFilename (c_str ''*.ozz'') (c_str (name ?a)) = Some ''jump.ozz''"
    by (simp add: BuildFilename_eq replace_wildcards_def c_str_def demo_animation_def)
  have c: "c_str ''jump.ozz'' = ''jump.ozz''"
    by (simp add: c_str_def)
  note T = C9_Export_writes_only_after_every_stage[OF f,
      where raw_in = ?a and ?raw1.0 = ?a1 and ?raw2.0 = ?a2 and obj = "AnimationObject ?a2"
        and filename = "''jump.ozz''" and skeleton = "()" and w = empty_world]
  have "Export_outcome (demo_env_stages False True True True) ?a () demo_full_entry empty_world
        = Some (False, disk empty_world)"
    using T[where E = "demo_env_stages False True True True"]
    by (simp add: additive_stage_def demo_env_stages_def)
  moreover have "Export_outcome (demo_env_stages True False True True) ?a () demo_full_entry
        empty_world = Some (False, disk empty_world)"
    using T[where E = "demo_env_stages True False True True"]
    by (simp add: additive_stage_def optimize_stage_def demo_env_stages_def demo_animation_def)
  moreover have "Export_outcome (demo_env_stages True True False True) ?a () demo_full_entry
        empty_world = Some (False, disk empty_world)"
    using T[where E = "demo_env_stages True True False True"]
    by (simp add: additive_stage_def optimize_stage_def build_stage_def demo_env_stages_def
          demo_animation_def)
  moreover have "Export_outcome (demo_env_stages True True True False) ?a () demo_full_entry
        empty_world = Some (False, disk empty_world)"
    using T[where E = "demo_env_stages True True True False"] n
    by (simp add: additive_stage_def optimize_stage_def build_stage_def demo_env_stages_def
          demo_animation_def)
  moreover have "Export_outcome (demo_env_stages True True True True) ?a () demo_full_entry
        empty_world =
     Some (True, (disk empty_world)(''jump.ozz'' \<mapsto>
             ArchiveFile kLittleEndian (AnimationObject ?a2)))"
    using T[where E = "demo_env_stages True True True True"] n c
    by (simp add: additive_stage_def optimize_stage_def build_stage_def demo_env_stages_def
          demo_animation_def demo_env_def output_endianness_def)
  ultimately show ?thesis by simp
qed

section \<open>The converter: which animations are exported\<close>

lemma OutputSingleAnimation_iff: "OutputSingleAnimation s \<longleftrightarrow> CHR ''*'' \<notin> set s"
  by (simp add: OutputSingleAnimation_def strchr_def string_find_None)

lemma set_c_str: "set (c_str s) \<subseteq> set s"
  by (auto simp: c_str_def dest: set_takeWhileD)

lemma AnimationConverter_reached:
  "reached_export E w sk config animations w5 \<Longrightarrow>
   AnimationConverter E w = export_imported E sk config animations w5"
  by (auto simp: reached_export_def AnimationConverter_def import_and_export_def Let_def
        before_import_def)

lemma AnimationConverter_success_reached:
  assumes "ParseCommandLine E = kSuccess"
    and "AnimationConverter E w = Some (EXIT_SUCCESS, w')"
  shows "\<exists>sk config animations w5. reached_export E w sk config animations w5"
proof -
  from assms obtain config0 where j: "json_parse E (OPTIONS_config_string E) = Inr config0"
    by (cases "json_parse E (OPTIONS_config_string E)")
       (simp_all add: AnimationConverter_def Let_def)
  from assms j obtain x where "Sanitize (default_optimizer E) config0 = Some x"
    by (cases "Sanitize (default_optimizer E) config0")
       (simp_all add: AnimationConverter_def Let_def)
  then obtain sanitized config msgs
    where s: "Sanitize (default_optimizer E) config0 = Some (sanitized, config, msgs)"
    by (cases x) auto
  from assms j s have t: sanitized
    by (cases sanitized) (simp_all add: AnimationConverter_def Let_def)
  from assms j s t
  have ie: "import_and_export E config (before_import E msgs w) = Some (EXIT_SUCCESS, w')"
    by (simp add: AnimationConverter_def Let_def before_import_def)
  then have f: "File_Exist E (OPTIONS_file E)"
    by (cases "File_Exist E (OPTIONS_file E)") (simp_all add: import_and_export_def)
  obtain so w4 where i: "ImportSkeleton E (before_import E msgs w) = (so, w4)"
    by (cases "ImportSkeleton E (before_import E msgs w)")
  from ie f i obtain sk where sk: "so = Some sk"
    by (cases so) (simp_all add: import_and_export_def)
  from ie f i sk obtain animations
    where a: "Import E (OPTIONS_file E) sk (OPTIONS_sampling_rate E) = Some animations"
    by (cases "Import E (OPTIONS_file E) sk (OPTIONS_sampling_rate E)")
       (simp_all add: import_and_export_def Let_def)
  from assms(1) j s t f i sk a show ?thesis
    by (auto simp: reached_export_def)
qed

lemma reached_export_sanitized:
  "reached_export E w sk config animations w5 \<Longrightarrow> sanitized_config config"
  by (auto simp: reached_export_def dest: Sanitize_spec(2))

lemma asCString_string: "Value_type v = stringValue \<Longrightarrow> \<exists>s. asCString v = Some s"
  by (simp add: Value_type_def asCString_def split: Payload.splits)

lemma animations_entry0:
  "member_of config ''animations'' = Some a \<Longrightarrow> animations_entry config 0 = entry0 a"
  by (simp add: animations_entry_def entry0_def split: Payload.splits list.splits)

lemma config_animations0_stable:
  assumes "member_of config ''animations'' = Some a" and "entry0 a = Some e"
  shows "config_animations0 config = Some (config, e)"
  using assms
  by (simp add: config_animations0_def Value_member_present entry0_Some(1) store_member_same)

lemma Export_loop_export_each:
  assumes "config_animations0 config = Some (config, entry)"
  shows "Export_loop E sk as s config w =
           map_option (\<lambda>(oks, w'). (s \<and> list_all id oks, w')) (export_each E sk entry as w)"
proof (induction as arbitrary: s w)
  case Nil
  show ?case by simp
next
  case (Cons a as)
  show ?case
  proof (cases "Export E a sk entry w")
    case None
    then show ?thesis by (simp add: assms)
  next
    case (Some r)
    obtain ok w1 where r: "r = (ok, w1)" by (cases r)
    show ?thesis
      by (cases "export_each E sk entry as w1")
         (auto simp: assms Some r Cons.IH)
  qed
qed

lemma export_each_length:
  "export_each E sk entry as w = Some (oks, w') \<Longrightarrow> length oks = length as"
proof (induction as arbitrary: w oks)
  case Nil
  then show ?case by simp
next
  case (Cons a as)
  then show ?case
    by (auto simp: bind_eq_Some_conv)
qed

text \<open>The export stage on a sanitized configuration.\<close>

lemma export_imported_sanitized:
  fixes config :: "'a Value"
  assumes s: "sanitized_config config"
  shows "export_imported E sk config animations w =
     (case animations_entry config 0 of
        None \<Rightarrow> None
      | Some entry \<Rightarrow>
          (case output_pattern config of
             None \<Rightarrow> None
           | Some pattern \<Rightarrow>
               map_option (\<lambda>(success, w2). (if success then EXIT_SUCCESS else EXIT_FAILURE, w2))
                 (Export_loop E sk (retained_animations pattern animations) True config
                    (after_retention pattern animations w))))"
proof -
  from s obtain a where a: "member_of config ''animations'' = Some a" and arr: "isArray a"
    and e: "case entry0 a of None \<Rightarrow> True | Some e \<Rightarrow> sanitized_animation e"
    by (auto simp: sanitized_config_def split: option.splits)
  note vm = Value_member_present[OF a]
  show ?thesis
  proof (cases "entry0 a")
    case None
    with arr have "payload a = ArrayV []"
      by (simp add: entry0_def isArray_def Value_type_def split: Payload.splits list.splits)
    then have ix: "Value_index0 a = Some (Value (ArrayV [nullSingleton]) (comments_of a),
                                          nullSingleton)"
      by (simp add: Value_index0_def)
    have nm: "Value_member (nullSingleton :: 'a Value) ''output'' =
                Some (Value (ObjectV [(''output'', nullSingleton)]) [], nullSingleton)"
      by (simp add: Value_member_def nullSingleton_def)
    have nc: "asCString (nullSingleton :: 'a Value) = None"
      by (simp add: asCString_def nullSingleton_def)
    have "export_imported E sk config animations w = None"
      by (simp add: export_imported_def vm ix nm nc)
    with None show ?thesis by (simp add: animations_entry0[OF a])
  next
    case (Some en)
    with e have "sanitized_animation en" by simp
    then have "has_field en ''output'' stringValue" by (simp add: sanitized_animation_def)
    then obtain ov where ov: "member_of en ''output'' = Some ov"
      and "Value_type ov = stringValue"
      by (auto simp: has_field_def split: option.splits)
    with asCString_string obtain pattern where p: "asCString ov = Some pattern" by blast
    have op: "output_pattern config = Some pattern"
      by (simp add: output_pattern_def animations_entry0[OF a] Some ov p)
    have "export_imported E sk config animations w =
            map_option (\<lambda>(success, w2). (if success then EXIT_SUCCESS else EXIT_FAILURE, w2))
              (Export_loop E sk (retained_animations pattern animations) True config
                 (after_retention pattern animations w))"
      by (cases "Export_loop E sk (retained_animations pattern animations) True config
                   (after_retention pattern animations w)")
         (auto simp: export_imported_def vm entry0_Some(1)[OF Some]
            Value_member_present[OF ov] p store_index0_entry(3)[OF Some]
            store_member_same[OF a] Let_def retained_animations_def after_retention_def
            discard_diagnostic_def say_def say_all_def)
    then show ?thesis by (simp add: animations_entry0[OF a] Some op)
  qed
qed

lemma Export_returns:
  assumes s: "sanitized_animation entry"
    and ov: "member_of entry ''output'' = Some ov" and p: "asCString ov = Some pattern"
    and star: "CHR ''*'' \<notin> set (c_str pattern) \<or> CHR ''*'' \<notin> set (c_str (name a))"
  shows "Export E a sk entry w \<noteq> None"
proof -
  from s have h: "has_field entry ''additive'' booleanValue"
    "has_field entry ''optimize'' booleanValue" "has_field entry ''raw'' booleanValue"
    "has_tolerances entry"
    by (simp_all add: sanitized_animation_def)
  from config_bool_has_field[OF h(1), of E] obtain additive
    where ad: "config_bool E entry ''additive'' = Some additive" by blast
  from config_bool_has_field[OF h(2), of E] obtain optimize
    where op: "config_bool E entry ''optimize'' = Some optimize" by blast
  from config_bool_has_field[OF h(3), of E] obtain raw
    where rw: "config_bool E entry ''raw'' = Some raw" by blast
  from star obtain filename
    where bf: "BuildFilename (c_str pattern) (c_str (name a)) = Some filename"
    by (auto simp: BuildFilename_eq)
  show ?thesis
  proof (cases "Export_additive E additive a w")
    case (Return_false w1)
    then show ?thesis by (simp add: Export_def ad)
  next
    case (Next raw1 w1)
    from Export_optimize_total[OF h(4), of E optimize raw1 sk w1] obtain st
      where st: "Export_optimize E optimize entry raw1 sk w1 = Some st" by blast
    show ?thesis
    proof (cases st)
      case (Return_false w2)
      with \<open>Export_additive E additive a w = Block.Next raw1 w1\<close> st show ?thesis
        by (simp add: Export_def ad op)
    next
      case (Next raw2 w2)
      note st2 = st[unfolded Next]
      show ?thesis
      proof (cases "Export_build E raw raw2 w2")
        case (Return_false w3)
        with \<open>Export_additive E additive a w = Block.Next raw1 w1\<close> st2 show ?thesis
          by (simp add: Export_def ad op rw)
      next
        case (Next animation w3)
        from Export_build_Next(3)[OF Next]
        have "if raw then animation = None else \<exists>b. animation = Some b"
          by (auto split: if_splits)
        from Export_write_total[OF Value_get_present[OF ov] p bf rw this, of raw2 w3]
        have "Export_write E entry a raw2 animation w3 \<noteq> None" .
        with \<open>Export_additive E additive a w = Block.Next raw1 w1\<close> st2 Next show ?thesis
          by (simp add: Export_def ad op rw)
      qed
    qed
  qed
qed

lemma export_each_returns:
  assumes "\<And>a w. a \<in> set as \<Longrightarrow> Export E a sk entry w \<noteq> None"
  shows "export_each E sk entry as w \<noteq> None"
  using assms
proof (induction as arbitrary: w)
  case Nil
  show ?case by simp
next
  case (Cons a as)
  from Cons.prems[of a w] obtain ok w1 where e: "Export E a sk entry w = Some (ok, w1)"
    by auto
  from Cons.IH[of w1] Cons.prems have "export_each E sk entry as w1 \<noteq> None"
    by auto
  with e show ?case by auto
qed

text \<open>
  A run that reaches the export stage returns when \<^verbatim>\<open>animations[0]\<close> exists and the
  file name of every animation can be built.
\<close>

lemma AnimationConverter_returns:
  assumes r: "reached_export E w sk config animations w5"
    and en: "animations_entry config 0 = Some entry"
    and star: "(\<exists>pattern. output_pattern config = Some pattern \<and> CHR ''*'' \<notin> set pattern) \<or>
               list_all (\<lambda>a. CHR ''*'' \<notin> set (name a)) animations"
  shows "AnimationConverter E w \<noteq> None"
proof -
  note s = reached_export_sanitized[OF r]
  from s obtain a where a: "member_of config ''animations'' = Some a"
    and e: "case entry0 a of None \<Rightarrow> True | Some e \<Rightarrow> sanitized_animation e"
    by (auto simp: sanitized_config_def split: option.splits)
  from en have e0: "entry0 a = Some entry" by (simp add: animations_entry0[OF a])
  with e have se: "sanitized_animation entry" by simp
  then have "has_field entry ''output'' stringValue" by (simp add: sanitized_animation_def)
  then obtain ov where ov: "member_of entry ''output'' = Some ov"
    and "Value_type ov = stringValue"
    by (auto simp: has_field_def split: option.splits)
  with asCString_string obtain pattern where p: "asCString ov = Some pattern" by blast
  have op: "output_pattern config = Some pattern"
    by (simp add: output_pattern_def en ov p)
  note ca = config_animations0_stable[OF a e0]
  have each: "Export E x sk entry v \<noteq> None"
    if "x \<in> set (retained_animations pattern animations)" for x v
  proof -
    from that have "x \<in> set animations"
      by (auto simp: retained_animations_def dest: in_set_takeD split: if_splits)
    with star op have "CHR ''*'' \<notin> set pattern \<or> CHR ''*'' \<notin> set (name x)"
      by (auto simp: list_all_iff)
    with set_c_str[of pattern] set_c_str[of "name x"]
    have "CHR ''*'' \<notin> set (c_str pattern) \<or> CHR ''*'' \<notin> set (c_str (name x))"
      by auto
    from Export_returns[OF se ov p this] show ?thesis .
  qed
  from export_each_returns[of "retained_animations pattern animations" E sk entry, OF each]
  have "export_each E sk entry (retained_animations pattern animations)
       (after_retention pattern animations w5) \<noteq> None" .
  then show ?thesis
    by (simp add: AnimationConverter_reached[OF r] export_imported_sanitized[OF s] en op
          Export_loop_export_each[OF ca])
qed

lemma reached_exportI:
  assumes "ParseCommandLine E = kSuccess"
    and "json_parse E (OPTIONS_config_string E) = Inr config0"
    and "Sanitize (default_optimizer E) config0 = Some (True, config, msgs)"
    and "File_Exist E (OPTIONS_file E)"
    and "fst (ImportSkeleton E (before_import E msgs w)) = Some sk"
    and "Import E (OPTIONS_file E) sk (OPTIONS_sampling_rate E) = Some animations"
  shows "reached_export E w sk config animations
           (say Log [Str (''Importing file '' @ [CHR 0x22]), Str (OPTIONS_file E),
                     Str [CHR 0x22]]
              (snd (ImportSkeleton E (before_import E msgs w))))"
  using assms
  by (cases "ImportSkeleton E (before_import E msgs w)") (auto simp: reached_export_def)

lemma demo_reached_export:
  assumes S: "Sanitize demo_optimizer config0 = Some (True, config, msgs)"
    and E: "E = (demo_env endian config0 animations)\<lparr>AnimationBuilder := b, open_wb := ow\<rparr>"
  shows "\<exists>w5. reached_export E empty_world () config animations w5"
proof -
  have "reached_export E empty_world () config animations
          (say Log [Str (''Importing file '' @ [CHR 0x22]), Str (OPTIONS_file E),
                    Str [CHR 0x22]]
             (snd (ImportSkeleton E (before_import E msgs empty_world))))"
    by (rule reached_exportI[where ?config0.0 = config0])
       (simp_all add: E demo_env_def S ImportSkeleton_def Let_def)
  then show ?thesis by blast
qed

text \<open>
  What does hold of a run in which the import has yielded animations
  (\<open>reached_export\<close>) and which returns an exit status: it has called \<^verbatim>\<open>Export\<close> on
  every retained animation in turn, whatever the earlier calls returned
  (\<open>export_each\<close>), and the status is success exactly when every call returned true. A
  run that returns success has parsed and sanitized the configuration and imported the
  skeleton and the animations. And a run that has reached the export does return a
  status when \<^verbatim>\<open>animations[0]\<close> exists and no animation name contains \<open>*\<close>. In the
  example the builder fails on the second of three animations: the first and the third
  are written and the status is failure.
\<close>

lemma AnimationConverter_exports_each:
  "(reached_export E w sk config animations w5 \<longrightarrow>
    AnimationConverter E w = Some (status, w') \<longrightarrow>
      (\<exists>entry pattern oks.
         animations_entry config 0 = Some entry \<and> output_pattern config = Some pattern \<and>
         export_each E sk entry (retained_animations pattern animations)
           (after_retention pattern animations w5) = Some (oks, w') \<and>
         length oks = length (retained_animations pattern animations) \<and>
         (status = EXIT_SUCCESS) = list_all id oks)) \<and>
   (ParseCommandLine E = kSuccess \<longrightarrow> AnimationConverter E w = Some (EXIT_SUCCESS, w') \<longrightarrow>
      (\<exists>sk config animations w5. reached_export E w sk config animations w5)) \<and>
   (reached_export E w sk config animations w5 \<longrightarrow>
    animations_entry config 0 = Some first_entry \<longrightarrow>
    list_all (\<lambda>a. CHR ''*'' \<notin> set (name a)) animations \<longrightarrow>
    AnimationConverter E w \<noteq> None)"
proof -
  have "\<exists>entry pattern oks.
         animations_entry config 0 = Some entry \<and> output_pattern config = Some pattern \<and>
         export_each E sk entry (retained_animations pattern animations)
           (after_retention pattern animations w5) = Some (oks, w') \<and>
         length oks = length (retained_animations pattern animations) \<and>
         (status = EXIT_SUCCESS) = list_all id oks"
    if r: "reached_export E w sk config animations w5"
      and c: "AnimationConverter E w = Some (status, w')"
  proof -
    note s = reached_export_sanitized[OF r]
    from c AnimationConverter_reached[OF r]
    have x: "export_imported E sk config animations w5 = Some (status, w')" by simp
    from x obtain entry where en: "animations_entry config 0 = Some entry"
      by (cases "animations_entry config 0") (simp_all add: export_imported_sanitized[OF s])
    from x en obtain pattern where p: "output_pattern config = Some pattern"
      by (cases "output_pattern config") (simp_all add: export_imported_sanitized[OF s])
    from s obtain a where a: "member_of config ''animations'' = Some a"
      by (auto simp: sanitized_config_def split: option.splits)
    from en have e0: "entry0 a = Some entry" by (simp add: animations_entry0[OF a])
    note ca = config_animations0_stable[OF a e0]
    from x en p obtain oks where
      ee: "export_each E sk entry (retained_animations pattern animations)
             (after_retention pattern animations w5) = Some (oks, w')"
      and st: "status = (if list_all id oks then EXIT_SUCCESS else EXIT_FAILURE)"
      by (cases "export_each E sk entry (retained_animations pattern animations)
                   (after_retention pattern animations w5)")
         (auto simp: export_imported_sanitized[OF s] Export_loop_export_each[OF ca])
    from st have "(status = EXIT_SUCCESS) = list_all id oks" by simp
    with en p ee export_each_length[OF ee] show ?thesis by blast
  qed
  moreover have "AnimationConverter E w \<noteq> None"
    if "reached_export E w sk config animations w5"
      and "animations_entry config 0 = Some first_entry"
      and "list_all (\<lambda>a. CHR ''*'' \<notin> set (name a)) animations"
    using AnimationConverter_returns[OF that(1,2)] that(3) by blast
  ultimately show ?thesis
    using AnimationConverter_success_reached[of E w w'] by blast
qed

lemma AnimationConverter_exports_each_example:
  "\<exists>status w' oks.
     AnimationConverter
       (demo_env_builder_fails ''bad'' (JObject [])
          [demo_animation ''a'', demo_animation ''bad'', demo_animation ''c''])
       empty_world = Some (status, w') \<and>
     status = EXIT_FAILURE \<and> length oks = 3 \<and> \<not> list_all id oks \<and>
     map_option (\<lambda>_. ()) (disk w' ''a.ozz'') = Some () \<and>
     map_option (\<lambda>_. ()) (disk w' ''bad.ozz'') = None \<and>
     map_option (\<lambda>_. ()) (disk w' ''c.ozz'') = Some ()"
proof -
  let ?as = "[demo_animation ''a'', demo_animation ''bad'', demo_animation ''c'']"
  let ?E = "demo_env_builder_fails ''bad'' (JObject []) ?as"
  have "map_option (\<lambda>(ok, t, l). (ok, output_pattern t)) (Sanitize demo_optimizer (JObject []))
        = Some (True, Some ''*.ozz'')"
    by code_simp
  then obtain t l where S: "Sanitize demo_optimizer (JObject []) = Some (True, t, l)"
    and P: "output_pattern t = Some ''*.ozz''"
    by (cases "Sanitize demo_optimizer (JObject [])") auto
  have "?E = (demo_env ''native'' (JObject []) ?as)
               \<lparr>AnimationBuilder := (\<lambda>a. if name a = ''bad'' then None else Some a),
                open_wb := (\<lambda>_. True)\<rparr>"
    by (simp add: demo_env_builder_fails_def demo_env_def)
  from demo_reached_export[OF S this] obtain w5
    where R: "reached_export ?E empty_world () t ?as w5" by blast
  have "map_option (\<lambda>(s, w). (s, map_option (\<lambda>_. ()) (disk w ''a.ozz''),
                                   map_option (\<lambda>_. ()) (disk w ''bad.ozz''),
                                   map_option (\<lambda>_. ()) (disk w ''c.ozz'')))
          (AnimationConverter ?E empty_world)
        = Some (EXIT_FAILURE, Some (), None, Some ())"
    by code_simp
  then obtain w' where C: "AnimationConverter ?E empty_world = Some (EXIT_FAILURE, w')"
    and D: "map_option (\<lambda>_. ()) (disk w' ''a.ozz'') = Some ()"
      "map_option (\<lambda>_. ()) (disk w' ''bad.ozz'') = None"
      "map_option (\<lambda>_. ()) (disk w' ''c.ozz'') = Some ()"
    by (cases "AnimationConverter ?E empty_world") auto
  from AnimationConverter_exports_each
         [where E = ?E and w = empty_world and sk = "()" and config = t
            and animations = ?as and ?w5.0 = w5 and status = EXIT_FAILURE and w' = w'] R C
  obtain pattern oks where "output_pattern t = Some pattern"
    and "length oks = length (retained_animations pattern ?as)"
    and "(EXIT_FAILURE = EXIT_SUCCESS) = list_all id oks"
    by blast
  with P have "length oks = 3" "\<not> list_all id oks"
    by (simp_all add: retained_animations_def OutputSingleAnimation_iff c_str_def)
  with C D show ?thesis by blast
qed

text \<open>
  C3. The claim: when the import yields several animations the converter attempts the
  export of every retained animation, a failed one not ending the run, and the exit
  status is success exactly when parsing, sanitization, the two imports and every
  export succeed. In the two runs below parsing, sanitization and both imports succeed
  and two animations are imported. With the configuration \<^verbatim>\<open>{"animations":[]}\<close>, which
  the sanitizer accepts, the converter reads
  \<^verbatim>\<open>config["animations"][0]["output"].asCString()\<close> where \<^verbatim>\<open>animations[0]\<close> is a
  null: a JsonCpp logic error that nothing catches, so that no export is attempted and
  no exit status is returned. With the default configuration and the animations
  \<^verbatim>\<open>a*b\<close> and \<^verbatim>\<open>run\<close> the export of \<^verbatim>\<open>a*b\<close> never builds its file name (C8):
  the export of \<^verbatim>\<open>run\<close> is never attempted and no exit status is returned.
\<close>

theorem C3_exports_not_attempted:
  "map_option fst (Sanitize demo_optimizer (JObject [(''animations'', JArray [])]))
   = Some True \<and>
   AnimationConverter
     (demo_env ''native'' (JObject [(''animations'', JArray [])])
        [demo_animation ''walk'', demo_animation ''run''])
     empty_world = None \<and>
   AnimationConverter
     (demo_env ''native'' (JObject []) [demo_animation ''a*b'', demo_animation ''run''])
     empty_world = None"
proof -
  have a: "map_option fst (Sanitize demo_optimizer (JObject [(''animations'', JArray [])]))
           = Some True"
    by code_simp
  have b: "AnimationConverter
             (demo_env ''native'' (JObject [(''animations'', JArray [])])
                [demo_animation ''walk'', demo_animation ''run''])
             empty_world = None"
    by code_simp
  have c: "AnimationConverter
             (demo_env ''native'' (JObject []) [demo_animation ''a*b'', demo_animation ''run''])
             empty_world = None"
    by code_simp
  show ?thesis by (rule conjI[OF a conjI[OF b c]])
qed

text \<open>
  C7. If the output pattern contains no \<open>*\<close> and more than one animation was imported,
  the first imported animation is the only one retained: the converter logs the
  diagnostic, which starts with the number of animations found, calls \<^verbatim>\<open>Export\<close> once,
  on the first animation, and returns its result as the exit status; the diagnostic is
  in the log of the world it returns.
\<close>

theorem C7_single_output_exports_first_only:
  assumes r: "reached_export E w sk config animations w5"
    and en: "animations_entry config 0 = Some entry"
    and p: "output_pattern config = Some pattern"
    and star: "CHR ''*'' \<notin> set pattern"
    and more: "1 < length animations"
  shows "retained_animations pattern animations = [animations ! 0] \<and>
    AnimationConverter E w =
      (case Export E (animations ! 0) sk entry (say_all [discard_diagnostic animations] w5) of
         None \<Rightarrow> None
       | Some (ok, w') \<Rightarrow> Some (if ok then EXIT_SUCCESS else EXIT_FAILURE, w')) \<and>
    (\<forall>status w'. AnimationConverter E w = Some (status, w') \<longrightarrow>
        discard_diagnostic animations \<in> set (logged w')) \<and>
    hd (snd (discard_diagnostic animations)) = Num (length animations) \<and>
    AnimationConverter E w \<noteq> None"
proof -
  from star set_c_str[of pattern] have single: "OutputSingleAnimation (c_str pattern)"
    by (auto simp: OutputSingleAnimation_iff)
  from more have t: "take 1 animations = [animations ! 0]"
    by (cases animations) simp_all
  with single more have ret: "retained_animations pattern animations = [animations ! 0]"
    by (simp add: retained_animations_def)
  from single more
  have ar: "after_retention pattern animations w5 = say_all [discard_diagnostic animations] w5"
    by (simp add: after_retention_def)
  note s = reached_export_sanitized[OF r]
  from s obtain a where a: "member_of config ''animations'' = Some a"
    by (auto simp: sanitized_config_def split: option.splits)
  from en have e0: "entry0 a = Some entry" by (simp add: animations_entry0[OF a])
  note ca = config_animations0_stable[OF a e0]
  have conv: "AnimationConverter E w =
      (case Export E (animations ! 0) sk entry (say_all [discard_diagnostic animations] w5) of
         None \<Rightarrow> None
       | Some (ok, w') \<Rightarrow> Some (if ok then EXIT_SUCCESS else EXIT_FAILURE, w'))"
    by (simp add: AnimationConverter_reached[OF r] export_imported_sanitized[OF s] en p ret ar
          ca split: option.splits)
  have "discard_diagnostic animations \<in> set (logged w')"
    if c: "AnimationConverter E w = Some (status, w')" for status w'
  proof -
    from c conv obtain ok where
      "Export E (animations ! 0) sk entry (say_all [discard_diagnostic animations] w5)
         = Some (ok, w')"
      by (auto split: option.splits)
    from Export_result[OF this]
    have "log_extends (say_all [discard_diagnostic animations] w5) w'" by simp
    then show ?thesis by (auto simp: log_extends_def say_all_def)
  qed
  moreover have "hd (snd (discard_diagnostic animations)) = Num (length animations)"
    by (simp add: discard_diagnostic_def)
  moreover have "AnimationConverter E w \<noteq> None"
    using AnimationConverter_returns[OF r en] p star by blast
  ultimately show ?thesis using ret conv by blast
qed

theorem C7_single_output_exports_first_only_witness:
  "\<exists>w'. AnimationConverter
           (demo_env ''native''
              (JObject [(''animations'', JArray [JObject [(''output'', JString ''clip.ozz'')]])])
              [demo_animation ''walk'', demo_animation ''run''])
           empty_world = Some (EXIT_SUCCESS, w') \<and>
        discard_diagnostic [demo_animation ''walk'', demo_animation ''run'']
          \<in> set (logged w') \<and>
        disk w' ''clip.ozz'' =
          Some (ArchiveFile kLittleEndian (AnimationObject (demo_animation ''walk''))) \<and>
        disk w' ''run.ozz'' = None"
proof -
  let ?as = "[demo_animation ''walk'', demo_animation ''run'']"
  let ?c = "JObject [(''animations'', JArray [JObject [(''output'', JString ''clip.ozz'')]])]"
  let ?E = "demo_env ''native'' ?c ?as"
  have "map_option (\<lambda>(ok, t, l). (ok, output_pattern t,
                                    map_option (\<lambda>_. ()) (animations_entry t 0)))
          (Sanitize demo_optimizer ?c)
        = Some (True, Some ''clip.ozz'', Some ())"
    by code_simp
  then obtain t l entry where S: "Sanitize demo_optimizer ?c = Some (True, t, l)"
    and P: "output_pattern t = Some ''clip.ozz''"
    and N: "animations_entry t 0 = Some entry"
    by (cases "Sanitize demo_optimizer ?c") auto
  have "?E = (demo_env ''native'' ?c ?as)
               \<lparr>AnimationBuilder := (\<lambda>a. Some a), open_wb := (\<lambda>_. True)\<rparr>"
    by (simp add: demo_env_def)
  from demo_reached_export[OF S this] obtain w5
    where R: "reached_export ?E empty_world () t ?as w5" by blast
  have "map_option (\<lambda>(s, w). (s, disk w ''clip.ozz'', disk w ''run.ozz''))
          (AnimationConverter ?E empty_world)
        = Some (EXIT_SUCCESS,
                Some (ArchiveFile kLittleEndian (AnimationObject (demo_animation ''walk''))),
                None)"
    by code_simp
  then obtain w' where C: "AnimationConverter ?E empty_world = Some (EXIT_SUCCESS, w')"
    and D: "disk w' ''clip.ozz'' =
              Some (ArchiveFile kLittleEndian (AnimationObject (demo_animation ''walk'')))"
      "disk w' ''run.ozz'' = None"
    by (cases "AnimationConverter ?E empty_world") auto
  have "CHR ''*'' \<notin> set ''clip.ozz''" "1 < length ?as" by simp_all
  from C7_single_output_exports_first_only[OF R N P this] C
  have "discard_diagnostic ?as \<in> set (logged w')" by blast
  with C D show ?thesis by blast
qed

end
